(* ===== verification/Prelude.thy ===== *)
theory Prelude
  imports Complex_Main "HOL-Library.AList" "HOL-Library.Sublist" "HOL-Library.Word"
begin

text \<open>
  Shared vocabulary of the development: the collections of facts the component theories extend, the
  JavaScript primitives that several components use (nullish coalescing, decimal and radix
  rendering of numbers, substring tests, ASCII lower-casing), insertion-ordered dictionaries as
  association lists with distinct keys, and the slicing of a list by a list of sizes.
\<close>

section \<open>Collections of facts\<close>

named_theorems invs \<open>preservation of a component's invariant by its operations\<close>
named_theorems outcome \<open>what an operation returns on each of its branches\<close>

section \<open>Nullish coalescing and results\<close>

definition nullish :: "'a option \<Rightarrow> 'a \<Rightarrow> 'a" where
  "nullish x d = (case x of None \<Rightarrow> d | Some v \<Rightarrow> v)"

lemma nullish_simps [simp]: "nullish None d = d" "nullish (Some v) d = v"
  by (simp_all add: nullish_def)

fun isOk :: "'e + 'a \<Rightarrow> bool" where
  "isOk (Inl _) = False"
| "isOk (Inr _) = True"

lemma isOk_iff: "isOk r \<longleftrightarrow> (\<exists>v. r = Inr v)"
  by (cases r) auto

fun bindE :: "'e + 'a \<Rightarrow> ('a \<Rightarrow> 'e + 'b) \<Rightarrow> 'e + 'b" where
  "bindE (Inl e) f = Inl e"
| "bindE (Inr v) f = f v"

lemma bindE_Inr_iff [simp]: "bindE r f = Inr v \<longleftrightarrow> (\<exists>u. r = Inr u \<and> f u = Inr v)"
  by (cases r) auto

lemma bindE_Inl_iff: "bindE r f = Inl e \<longleftrightarrow> r = Inl e \<or> (\<exists>u. r = Inr u \<and> f u = Inl e)"
  by (cases r) auto

section \<open>Rendering of numbers\<close>

definition digitChar :: "nat \<Rightarrow> char" where
  "digitChar d = (if d < 10 then char_of (48 + d) else char_of (87 + d))"

definition digitVal :: "char \<Rightarrow> nat" where
  "digitVal c = (let n = of_char c in if n < 58 then n - 48 else n - 87)"

lemma of_char_nat [simp]: "n < 256 \<Longrightarrow> (of_char (char_of n :: char) :: nat) = n"
  by (simp add: of_char_of)

lemma digitVal_digitChar [simp]: "d < 36 \<Longrightarrow> digitVal (digitChar d) = d"
  by (simp add: digitVal_def digitChar_def Let_def)

fun renderBase :: "nat \<Rightarrow> nat \<Rightarrow> string" where
  "renderBase b n =
     (if b < 2 \<or> n < b then [digitChar n] else renderBase b (n div b) @ [digitChar (n mod b)])"

declare renderBase.simps [simp del]

definition parseBase :: "nat \<Rightarrow> string \<Rightarrow> nat" where
  "parseBase b s = foldl (\<lambda>a c. a * b + digitVal c) 0 s"

lemma parse_renderBase:
  assumes "2 \<le> b" "b \<le> 36"
  shows "parseBase b (renderBase b n) = n"
  using assms
proof (induction b n rule: renderBase.induct)
  case (1 b n)
  show ?case
  proof (cases "n < b")
    case True
    then show ?thesis using 1 by (simp add: renderBase.simps[of b n] parseBase_def)
  next
    case False
    have "n mod b < 36" using 1 by (meson less_le_trans mod_less_divisor not_less pos2 order_less_le_trans)
    then show ?thesis
      using False 1 by (simp add: renderBase.simps[of b n] parseBase_def)
  qed
qed

lemma renderBase_inject:
  assumes "2 \<le> b" "b \<le> 36"
  shows "renderBase b m = renderBase b n \<longleftrightarrow> m = n"
  by (metis assms parse_renderBase)

lemma renderBase_nonempty [simp]: "renderBase b n \<noteq> []"
  by (subst renderBase.simps) simp

lemma set_renderBase:
  assumes "2 \<le> b"
  shows "set (renderBase b n) \<subseteq> digitChar ` {..<b}"
  using assms
proof (induction b n rule: renderBase.induct)
  case (1 b n)
  have "n mod b < b" using 1 by simp
  then show ?case using 1
    by (subst renderBase.simps) (auto split: if_splits)
qed

definition showNat :: "nat \<Rightarrow> string" where
  "showNat n = renderBase 10 n"

definition showInt :: "int \<Rightarrow> string" where
  "showInt i = (if i < 0 then CHR ''-'' # showNat (nat (- i)) else showNat (nat i))"

lemma digits_lt_10: "digitChar ` {..<10} = set ''0123456789''"
proof -
  have "map digitChar [0..<10] = ''0123456789''" by code_simp
  then show ?thesis by (metis atLeast_upt list.set_map)
qed

lemma showNat_inject [simp]: "showNat m = showNat n \<longleftrightarrow> m = n"
  by (simp add: showNat_def renderBase_inject)

lemma showNat_nonempty [simp]: "showNat n \<noteq> []"
  by (simp add: showNat_def)

lemma set_showNat: "set (showNat n) \<subseteq> set ''0123456789''"
  using set_renderBase [of 10 n] by (simp add: showNat_def digits_lt_10)

lemma showNat_no_dash: "CHR ''-'' \<notin> set (showNat n)"
  using set_showNat [of n] by auto

lemma showInt_inject [simp]: "showInt i = showInt j \<longleftrightarrow> i = j"
proof -
  have "CHR ''-'' # showNat a \<noteq> showNat b" for a b
    using showNat_no_dash [of b] by (metis list.set_intros(1))
  then show ?thesis by (auto simp: showInt_def dest: sym)
qed

section \<open>JavaScript string operations\<close>

fun strIncludes :: "string \<Rightarrow> string \<Rightarrow> bool" where
  "strIncludes p [] \<longleftrightarrow> p = []"
| "strIncludes p (c # cs) \<longleftrightarrow> prefix p (c # cs) \<or> strIncludes p cs"

lemma includes_iff_sublist: "strIncludes p s \<longleftrightarrow> sublist p s"
  by (induction s) (auto simp: sublist_Cons_right)

abbreviation startsWith :: "string \<Rightarrow> string \<Rightarrow> bool" where
  "startsWith p s \<equiv> prefix p s"

definition lowerChar :: "char \<Rightarrow> char" where
  "lowerChar c = (let n = of_char c :: nat in if 65 \<le> n \<and> n \<le> 90 then char_of (n + 32) else c)"

definition toLowerCase :: "string \<Rightarrow> string" where
  "toLowerCase s = map lowerChar s"

lemma length_toLowerCase [simp]: "length (toLowerCase s) = length s"
  by (simp add: toLowerCase_def)

fun join :: "string \<Rightarrow> string list \<Rightarrow> string" where
  "join sep [] = []"
| "join sep [x] = x"
| "join sep (x # y # ys) = x @ sep @ join sep (y # ys)"

section \<open>Insertion-ordered dictionaries\<close>

text \<open>
  A JavaScript \<open>Map\<close> or plain object is an association list with distinct keys:
  \<open>map_of\<close> is the lookup, \<open>AList.update\<close> the assignment (in place for a
  present key, at the end for a new one) and \<open>AList.delete\<close> the removal.
\<close>

abbreviation keys :: "('k \<times> 'v) list \<Rightarrow> 'k list" where
  "keys m \<equiv> map fst m"

lemma keys_update: "keys (AList.update k v m) = (if k \<in> set (keys m) then keys m else keys m @ [k])"
  by (simp add: update_keys)

lemma distinct_keys_delete [intro]: "distinct (keys m) \<Longrightarrow> distinct (keys (AList.delete k m))"
  by (simp add: distinct_delete)

lemma distinct_keys_update [intro]: "distinct (keys m) \<Longrightarrow> distinct (keys (AList.update k v m))"
  by (simp add: distinct_update)

lemma map_of_update [simp]: "map_of (AList.update k v m) = (map_of m)(k \<mapsto> v)"
  by (simp add: update_conv')

lemma map_of_delete [simp]: "map_of (AList.delete k m) = (map_of m)(k := None)"
  by (simp add: delete_conv')

section \<open>Slicing a list by sizes\<close>

fun chunks :: "nat list \<Rightarrow> 'a list \<Rightarrow> 'a list list" where
  "chunks [] xs = []"
| "chunks (n # ns) xs = take n xs # chunks ns (drop n xs)"

lemma length_chunks [simp]: "length (chunks ns xs) = length ns"
  by (induction ns arbitrary: xs) auto

lemma concat_chunks: "sum_list ns = length xs \<Longrightarrow> concat (chunks ns xs) = xs"
proof (induction ns arbitrary: xs)
  case (Cons n ns)
  then have "sum_list ns = length (drop n xs)" by simp
  then show ?case using Cons.IH [of "drop n xs"] by simp
qed simp

lemma map_length_chunks: "sum_list ns \<le> length xs \<Longrightarrow> map length (chunks ns xs) = ns"
proof (induction ns arbitrary: xs)
  case (Cons n ns)
  then have "sum_list ns \<le> length (drop n xs)" by simp
  then show ?case using Cons.IH [of "drop n xs"] Cons.prems by simp
qed simp

lemma sum_list_concat_map: "sum_list (concat (map f xs)) = sum_list (map (sum_list \<circ> f) xs)"
  for f :: "'a \<Rightarrow> nat list"
  by (induction xs) auto

lemma map_map_chunks: "map (map f) (chunks ns xs) = chunks ns (map f xs)"
  by (induction ns arbitrary: xs) (auto simp: take_map drop_map)

end
