(* ===== verification/Errors.thy ===== *)
theory Errors
  imports Prelude
begin

text \<open>
  The error hierarchy of \<open>src/errors/index.ts\<close>: one constructor of \<open>ParallelError\<close> per
  class with the arguments its constructor keeps, the values JavaScript code can throw
  (\<open>thrown\<close>), the derived properties \<open>name\<close>, \<open>code\<close>, \<open>httpStatus\<close> and \<open>message\<close>, the class
  hierarchy that \<open>instanceof\<close> tests, the wire shape and the two translations
  \<open>toJSON\<close> / \<open>wireToError\<close>, and the type guards.

  The stack that the engine attaches to an error when the library constructs it is not part of
  ECMAScript and is left out (\<open>None\<close>); stacks that arrive from elsewhere are kept. Text is ASCII.
  The unchecked casts of \<open>wireToError\<close> read an extra of another type as missing.
\<close>

section \<open>Values and rendering\<close>

text \<open>Structured-clone values as far as the library looks at them.\<close>

datatype jsval = JUndef | JNull | JBool bool | JNum int | JStr string
  | JArr "jsval list" | JObj "(string \<times> jsval) list"

text \<open>
  \<open>new Date(ms).toISOString()\<close>: the proleptic Gregorian date of the epoch day, with a
  \<open>RangeError\<close> (\<open>None\<close>) outside the time range of ECMAScript.
\<close>

definition civilFromDays :: "int \<Rightarrow> int \<times> int \<times> int" where
  "civilFromDays z0 =
     (let z = z0 + 719468;
          era = z div 146097;
          doe = z mod 146097;
          yoe = (doe - doe div 1460 + doe div 36524 - doe div 146096) div 365;
          doy = doe - (365 * yoe + yoe div 4 - yoe div 100);
          mp = (5 * doy + 2) div 153;
          d = doy - (153 * mp + 2) div 5 + 1;
          m = (if mp < 10 then mp + 3 else mp - 9)
      in (yoe + era * 400 + (if m \<le> 2 then 1 else 0), m, d))"

definition padNat :: "nat \<Rightarrow> int \<Rightarrow> string" where
  "padNat w i = (let s = showNat (nat i) in replicate (w - length s) CHR ''0'' @ s)"

definition maxDateMs :: int where
  "maxDateMs = 8640000000000000"

definition isoYear :: "int \<Rightarrow> string" where
  "isoYear y = (if 0 \<le> y \<and> y \<le> 9999 then padNat 4 y
                else if y < 0 then CHR ''-'' # padNat 6 (- y) else CHR ''+'' # padNat 6 y)"

definition toISOString :: "int \<Rightarrow> string option" where
  "toISOString ms =
     (if \<bar>ms\<bar> > maxDateMs then None
      else let (y, m, d) = civilFromDays (ms div 86400000);
               t = ms mod 86400000
           in Some (isoYear y @ ''-'' @ padNat 2 m @ ''-'' @ padNat 2 d @ ''T'' @
                    padNat 2 (t div 3600000) @ '':'' @ padNat 2 (t div 60000 mod 60) @ '':'' @
                    padNat 2 (t div 1000 mod 60) @ ''.'' @ padNat 3 (t mod 1000) @ ''Z''))"

section \<open>The classes\<close>

datatype BillingLimitKind = CpuMs | SubRequests | Memory

text \<open>
  \<open>cause\<close> is the own property that the root constructor defines when \<open>options.cause\<close> is present.
  The maps of an aggregate error are dictionaries from the task index.
\<close>

datatype ParallelError =
    BaseParallelError string "thrown option"
  | SerializationError string "thrown option"
  | ReturnTooLargeError int "thrown option"
  | DeadlineTooShortError int int "thrown option"
  | ExecutionError string "string option" "string option" "thrown option"
  | DisconnectedError string "thrown option"
  | OutOfMemoryError string "thrown option"
  | BillingLimitError BillingLimitKind string "thrown option"
  | TimeoutError int "thrown option"
  | RetryExhaustedError int thrown
  | BindingError string "thrown option"
  | MissingBindingError string "thrown option"
  | CancelledError "string option" "thrown option"
  | DeadlineExceededError int "thrown option"
  | BackpressureError string int "thrown option"
  | QueueFullError int int "thrown option"
  | ResultExpiredError string "thrown option"
  | ConflictError string "thrown option"
  | TopologyError string "thrown option"
  | PolicyRequiredError string "thrown option"
  | AggregateExecutionError "(nat \<times> ParallelError) list" "(nat \<times> jsval) list"
and thrown =
    Lib ParallelError
  | PlainError string string "string option"
  | NonError string

text \<open>
  \<open>PlainError name message stack\<close> is an \<open>Error\<close> of the language or of user code,
  \<open>NonError s\<close> any other thrown value with \<open>String(v) = s\<close>.
\<close>

fun errName :: "ParallelError \<Rightarrow> string" where
  "errName (BaseParallelError _ _) = ''ParallelError''"
| "errName (SerializationError _ _) = ''SerializationError''"
| "errName (ReturnTooLargeError _ _) = ''ReturnTooLargeError''"
| "errName (DeadlineTooShortError _ _ _) = ''DeadlineTooShortError''"
| "errName (ExecutionError _ _ _ _) = ''ExecutionError''"
| "errName (DisconnectedError _ _) = ''DisconnectedError''"
| "errName (OutOfMemoryError _ _) = ''OutOfMemoryError''"
| "errName (BillingLimitError _ _ _) = ''BillingLimitError''"
| "errName (TimeoutError _ _) = ''TimeoutError''"
| "errName (RetryExhaustedError _ _) = ''RetryExhaustedError''"
| "errName (BindingError _ _) = ''BindingError''"
| "errName (MissingBindingError _ _) = ''MissingBindingError''"
| "errName (CancelledError _ _) = ''CancelledError''"
| "errName (DeadlineExceededError _ _) = ''DeadlineExceededError''"
| "errName (BackpressureError _ _ _) = ''BackpressureError''"
| "errName (QueueFullError _ _ _) = ''QueueFullError''"
| "errName (ResultExpiredError _ _) = ''ResultExpiredError''"
| "errName (ConflictError _ _) = ''ConflictError''"
| "errName (TopologyError _ _) = ''TopologyError''"
| "errName (PolicyRequiredError _ _) = ''PolicyRequiredError''"
| "errName (AggregateExecutionError _ _) = ''AggregateExecutionError''"

fun errCode :: "ParallelError \<Rightarrow> string" where
  "errCode (BaseParallelError _ _) = ''CFP_PARALLEL''"
| "errCode (SerializationError _ _) = ''CFP_SERIALIZATION''"
| "errCode (ReturnTooLargeError _ _) = ''CFP_RETURN_TOO_LARGE''"
| "errCode (DeadlineTooShortError _ _ _) = ''CFP_DEADLINE_TOO_SHORT''"
| "errCode (ExecutionError _ _ _ _) = ''CFP_EXECUTION''"
| "errCode (DisconnectedError _ _) = ''CFP_DISCONNECTED''"
| "errCode (OutOfMemoryError _ _) = ''CFP_OUT_OF_MEMORY''"
| "errCode (BillingLimitError _ _ _) = ''CFP_BILLING_LIMIT''"
| "errCode (TimeoutError _ _) = ''CFP_TIMEOUT''"
| "errCode (RetryExhaustedError _ _) = ''CFP_RETRY_EXHAUSTED''"
| "errCode (BindingError _ _) = ''CFP_BINDING''"
| "errCode (MissingBindingError _ _) = ''CFP_MISSING_BINDING''"
| "errCode (CancelledError _ _) = ''CFP_CANCELLED''"
| "errCode (DeadlineExceededError _ _) = ''CFP_DEADLINE_EXCEEDED''"
| "errCode (BackpressureError _ _ _) = ''CFP_BACKPRESSURE''"
| "errCode (QueueFullError _ _ _) = ''CFP_QUEUE_FULL''"
| "errCode (ResultExpiredError _ _) = ''CFP_RESULT_EXPIRED''"
| "errCode (ConflictError _ _) = ''CFP_CONFLICT''"
| "errCode (TopologyError _ _) = ''CFP_TOPOLOGY''"
| "errCode (PolicyRequiredError _ _) = ''CFP_POLICY_REQUIRED''"
| "errCode (AggregateExecutionError _ _) = ''CFP_AGGREGATE_EXECUTION''"

fun httpStatus :: "ParallelError \<Rightarrow> nat" where
  "httpStatus (SerializationError _ _) = 400"
| "httpStatus (ReturnTooLargeError _ _) = 413"
| "httpStatus (DeadlineTooShortError _ _ _) = 400"
| "httpStatus (DisconnectedError _ _) = 502"
| "httpStatus (OutOfMemoryError _ _) = 507"
| "httpStatus (BillingLimitError _ _ _) = 402"
| "httpStatus (TimeoutError _ _) = 504"
| "httpStatus (RetryExhaustedError _ _) = 503"
| "httpStatus (CancelledError _ _) = 499"
| "httpStatus (DeadlineExceededError _ _) = 504"
| "httpStatus (BackpressureError _ _ _) = 503"
| "httpStatus (QueueFullError _ _ _) = 429"
| "httpStatus (ResultExpiredError _ _) = 410"
| "httpStatus (ConflictError _ _) = 409"
| "httpStatus (TopologyError _ _) = 400"
| "httpStatus _ = 500"

text \<open>
  The message each constructor passes to \<open>super\<close>. A \<open>DeadlineExceededError\<close> exists only when
  its date is in range (see \<open>dateThrows\<close>), so the fallback of its branch is never read.
\<close>

fun errMessage :: "ParallelError \<Rightarrow> string" and thrownMessage :: "thrown \<Rightarrow> string" where
  "errMessage (BaseParallelError m _) = m"
| "errMessage (SerializationError m _) = m"
| "errMessage (ReturnTooLargeError b _) =
     ''Return value of '' @ showInt b @ '' bytes exceeds RPC max payload (32 MiB)''"
| "errMessage (DeadlineTooShortError b m _) =
     ''Deadline budget '' @ showInt b @ ''ms is below minimum '' @ showInt m @ ''ms '' @
     ''(may not survive coordinator clock skew + RPC overhead)''"
| "errMessage (ExecutionError m _ _ _) = m"
| "errMessage (DisconnectedError m _) = m"
| "errMessage (OutOfMemoryError m _) = m"
| "errMessage (BillingLimitError _ m _) = m"
| "errMessage (TimeoutError d _) = ''Task exceeded '' @ showInt d @ ''ms wall-clock timeout''"
| "errMessage (RetryExhaustedError n e) =
     ''Task failed after '' @ showInt n @ '' attempt(s): '' @ thrownMessage e"
| "errMessage (BindingError m _) = m"
| "errMessage (MissingBindingError b _) =
     ''Required binding '' @ [CHR 0x27] @ b @ [CHR 0x27] @ '' is missing. '' @
     ''Add it to your wrangler.toml -- see the README '' @ [CHR 0x22] @ ''Wiring up'' @
     [CHR 0x22] @ '' section.''"
| "errMessage (CancelledError r _) =
     (case r of None \<Rightarrow> ''Cancelled''
      | Some s \<Rightarrow> if s = [] then ''Cancelled'' else ''Cancelled: '' @ s)"
| "errMessage (DeadlineExceededError d _) =
     ''Deadline exceeded (target='' @ nullish (toISOString d) [] @ '')''"
| "errMessage (BackpressureError m _ _) = m"
| "errMessage (QueueFullError d m _) =
     ''Dispatcher queue full (depth='' @ showInt d @ '', max='' @ showInt m @ '')''"
| "errMessage (ResultExpiredError j _) =
     ''Job '' @ j @ '' result expired (TTL elapsed before result() was called)''"
| "errMessage (ConflictError m _) = m"
| "errMessage (TopologyError m _) = m"
| "errMessage (PolicyRequiredError m _) = m"
| "errMessage (AggregateExecutionError es _) =
     showNat (length es) @ '' task(s) failed: '' @
     (case es of [] \<Rightarrow> ''(unknown)'' | p # _ \<Rightarrow> (case p of (i, e) \<Rightarrow> errMessage e))"
| "thrownMessage (Lib e) = errMessage e"
| "thrownMessage (PlainError _ m _) = m"
| "thrownMessage (NonError s) = s"

fun errCause :: "ParallelError \<Rightarrow> thrown option" where
  "errCause (BaseParallelError _ c) = c"
| "errCause (SerializationError _ c) = c"
| "errCause (ReturnTooLargeError _ c) = c"
| "errCause (DeadlineTooShortError _ _ c) = c"
| "errCause (ExecutionError _ _ _ c) = c"
| "errCause (DisconnectedError _ c) = c"
| "errCause (OutOfMemoryError _ c) = c"
| "errCause (BillingLimitError _ _ c) = c"
| "errCause (TimeoutError _ c) = c"
| "errCause (RetryExhaustedError _ e) = Some e"
| "errCause (BindingError _ c) = c"
| "errCause (MissingBindingError _ c) = c"
| "errCause (CancelledError _ c) = c"
| "errCause (DeadlineExceededError _ c) = c"
| "errCause (BackpressureError _ _ c) = c"
| "errCause (QueueFullError _ _ c) = c"
| "errCause (ResultExpiredError _ c) = c"
| "errCause (ConflictError _ c) = c"
| "errCause (TopologyError _ c) = c"
| "errCause (PolicyRequiredError _ c) = c"
| "errCause (AggregateExecutionError _ _) = None"

section \<open>The hierarchy\<close>

text \<open>\<open>e instanceof C\<close> for the classes that the program tests.\<close>

fun isSerialization :: "ParallelError \<Rightarrow> bool" where
  "isSerialization (SerializationError _ _) = True"
| "isSerialization (ReturnTooLargeError _ _) = True"
| "isSerialization (DeadlineTooShortError _ _ _) = True"
| "isSerialization _ = False"

fun isExecution :: "ParallelError \<Rightarrow> bool" where
  "isExecution (ExecutionError _ _ _ _) = True"
| "isExecution (DisconnectedError _ _) = True"
| "isExecution (OutOfMemoryError _ _) = True"
| "isExecution (BillingLimitError _ _ _) = True"
| "isExecution _ = False"

fun isBackpressure :: "ParallelError \<Rightarrow> bool" where
  "isBackpressure (BackpressureError _ _ _) = True"
| "isBackpressure (QueueFullError _ _ _) = True"
| "isBackpressure _ = False"

fun isTimeout :: "ParallelError \<Rightarrow> bool" where
  "isTimeout (TimeoutError _ _) = True"
| "isTimeout _ = False"

fun isDisconnected :: "ParallelError \<Rightarrow> bool" where
  "isDisconnected (DisconnectedError _ _) = True"
| "isDisconnected _ = False"

fun isCancelled :: "ParallelError \<Rightarrow> bool" where
  "isCancelled (CancelledError _ _) = True"
| "isCancelled _ = False"

fun isDeadlineExceeded :: "ParallelError \<Rightarrow> bool" where
  "isDeadlineExceeded (DeadlineExceededError _ _) = True"
| "isDeadlineExceeded _ = False"

fun isAggregate :: "ParallelError \<Rightarrow> bool" where
  "isAggregate (AggregateExecutionError _ _) = True"
| "isAggregate _ = False"

end
