(* ===== verification/ErrorWire.thy ===== *)
theory ErrorWire
  imports Errors
begin

text \<open>
  The wire shape of errors (\<open>src/errors/index.ts\<close>): \<open>toJSON\<close> with the class-specific extras,
  \<open>wireToError\<close> and \<open>errorToWire\<close>, and the type guards. The text that the engine puts into the \<open>stack\<close>
  of a new \<open>Error\<close> is a parameter. The lemmas say exactly which errors survive the round trip and which
  codes do.
\<close>

section \<open>Wire shape\<close>

datatype WireError =
  WireError (wName: string) (wCode: string) (wMessage: string) (wHttpStatus: nat)
    (wStack: "string option") (wOriginalName: "string option")
    (wExtra: "(string \<times> extraVal) list option") (wCause: "WireError option")
and extraVal = XUndef | XNum int | XStr string
  | XErrors "(nat \<times> WireError) list" | XValues "(nat \<times> jsval) list"

fun kindName :: "BillingLimitKind \<Rightarrow> string" where
  "kindName CpuMs = ''cpuMs''"
| "kindName SubRequests = ''subRequests''"
| "kindName Memory = ''memory''"

fun kindOf :: "string \<Rightarrow> BillingLimitKind option" where
  "kindOf s = (if s = ''cpuMs'' then Some CpuMs else if s = ''subRequests'' then Some SubRequests
               else if s = ''memory'' then Some Memory else None)"

lemma kindOf_kindName [simp]: "kindOf (kindName k) = Some k"
  by (cases k) simp_all

text \<open>
  \<open>stk t\<close> is the \<open>stack\<close> that the engine gave the library error \<open>t\<close>, or the \<open>Error\<close> that wraps the
  non-error \<open>t\<close>; a foreign error carries its own.
\<close>

type_synonym stackOf = "thrown \<Rightarrow> string option"

text \<open>
  \<open>toJSON\<close>: the common fields, then the spread of \<open>extraJsonFields()\<close> (which may override
  \<open>stack\<close> and set \<open>originalName\<close> and \<open>extra\<close>), then the cause.
\<close>

definition wireOf :: "ParallelError \<Rightarrow> string option \<Rightarrow> string option \<Rightarrow>
    (string \<times> extraVal) list option \<Rightarrow> WireError option \<Rightarrow> WireError" where
  "wireOf e stack orig ext cause =
     WireError (errName e) (errCode e) (errMessage e) (httpStatus e) stack orig ext cause"

abbreviation wirePlain :: "stackOf \<Rightarrow> ParallelError \<Rightarrow> WireError option \<Rightarrow> WireError" where
  "wirePlain stk e \<equiv> wireOf e (stk (Lib e)) None None"

abbreviation wireExtra :: "stackOf \<Rightarrow> ParallelError \<Rightarrow> (string \<times> extraVal) list \<Rightarrow> WireError option \<Rightarrow> WireError" where
  "wireExtra stk e x \<equiv> wireOf e (stk (Lib e)) None (Some x)"

fun toJSON :: "stackOf \<Rightarrow> ParallelError \<Rightarrow> WireError" and causeToWire :: "stackOf \<Rightarrow> thrown \<Rightarrow> WireError" where
  "toJSON stk (BaseParallelError m c) =
     wirePlain stk (BaseParallelError m c)
       (map_option (causeToWire stk) c)"
| "toJSON stk (SerializationError m c) =
     wirePlain stk (SerializationError m c)
       (map_option (causeToWire stk) c)"
| "toJSON stk (ReturnTooLargeError b c) =
     wireExtra stk (ReturnTooLargeError b c) [(''bytes'', XNum b)]
       (map_option (causeToWire stk) c)"
| "toJSON stk (DeadlineTooShortError b m c) =
     wireExtra stk (DeadlineTooShortError b m c) [(''budgetMs'', XNum b), (''minBudgetMs'', XNum m)]
       (map_option (causeToWire stk) c)"
| "toJSON stk (ExecutionError m s q c) =
     wireOf (ExecutionError m s q c) (case s of None \<Rightarrow> stk (Lib (ExecutionError m s q c)) | Some t \<Rightarrow> Some t) q None
       (map_option (causeToWire stk) c)"
| "toJSON stk (DisconnectedError m c) =
     wirePlain stk (DisconnectedError m c)
       (map_option (causeToWire stk) c)"
| "toJSON stk (OutOfMemoryError m c) =
     wirePlain stk (OutOfMemoryError m c)
       (map_option (causeToWire stk) c)"
| "toJSON stk (BillingLimitError k m c) =
     wireExtra stk (BillingLimitError k m c) [(''kind'', XStr (kindName k))]
       (map_option (causeToWire stk) c)"
| "toJSON stk (TimeoutError d c) =
     wireExtra stk (TimeoutError d c) [(''deadlineMs'', XNum d)]
       (map_option (causeToWire stk) c)"
| "toJSON stk (RetryExhaustedError n l) =
     wireExtra stk (RetryExhaustedError n l) [(''attempts'', XNum n)]
       (Some (causeToWire stk l))"
| "toJSON stk (BindingError m c) =
     wirePlain stk (BindingError m c)
       (map_option (causeToWire stk) c)"
| "toJSON stk (MissingBindingError b c) =
     wireExtra stk (MissingBindingError b c) [(''bindingName'', XStr b)]
       (map_option (causeToWire stk) c)"
| "toJSON stk (CancelledError r c) =
     wireExtra stk (CancelledError r c) [(''reason'', case r of None \<Rightarrow> XUndef | Some s \<Rightarrow> XStr s)]
       (map_option (causeToWire stk) c)"
| "toJSON stk (DeadlineExceededError d c) =
     wireExtra stk (DeadlineExceededError d c) [(''deadlineEpochMs'', XNum d)]
       (map_option (causeToWire stk) c)"
| "toJSON stk (BackpressureError m r c) =
     wireExtra stk (BackpressureError m r c) [(''retryAfterMs'', XNum r)]
       (map_option (causeToWire stk) c)"
| "toJSON stk (QueueFullError d m c) =
     wireExtra stk (QueueFullError d m c) [(''depth'', XNum d), (''maxDepth'', XNum m)]
       (map_option (causeToWire stk) c)"
| "toJSON stk (ResultExpiredError j c) =
     wireExtra stk (ResultExpiredError j c) [(''jobId'', XStr j)]
       (map_option (causeToWire stk) c)"
| "toJSON stk (ConflictError m c) =
     wirePlain stk (ConflictError m c)
       (map_option (causeToWire stk) c)"
| "toJSON stk (TopologyError m c) =
     wirePlain stk (TopologyError m c)
       (map_option (causeToWire stk) c)"
| "toJSON stk (PolicyRequiredError m c) =
     wirePlain stk (PolicyRequiredError m c)
       (map_option (causeToWire stk) c)"
| "toJSON stk (AggregateExecutionError es ps) =
     wireExtra stk (AggregateExecutionError es ps) [(''errorEntries'', XErrors (map (\<lambda>(i, x). (i, toJSON stk x)) es)),
      (''partialResultEntries'', XValues ps)]
       None"
| "causeToWire stk (Lib e) = toJSON stk e"
| "causeToWire stk (PlainError n m s) = WireError n ''CFP_EXECUTION'' m 500 s (Some n) None None"
| "causeToWire stk (NonError s) = WireError ''NonError'' ''CFP_EXECUTION'' s 500 None None None None"

text \<open>\<open>errorToWire\<close> accepts any thrown value; its own wrapper of plain errors drops the name \<open>Error\<close>.\<close>

fun errorToWire :: "stackOf \<Rightarrow> thrown \<Rightarrow> WireError" where
  "errorToWire stk (Lib e) = toJSON stk e"
| "errorToWire stk (PlainError n m s) =
     WireError (if n = [] then ''Error'' else n) ''CFP_EXECUTION'' m 500 s
       (if n = ''Error'' then None else Some n) None None"
| "errorToWire stk (NonError s) = WireError ''Error'' ''CFP_EXECUTION'' s 500 (stk (NonError s)) None None None"

section \<open>Decoding\<close>

definition extraOf :: "WireError \<Rightarrow> string \<Rightarrow> extraVal option" where
  "extraOf w k = map_of (nullish (wExtra w) []) k"

definition extraNum :: "WireError \<Rightarrow> string \<Rightarrow> int option" where
  "extraNum w k = (case extraOf w k of Some (XNum i) \<Rightarrow> Some i | _ \<Rightarrow> None)"

definition extraStr :: "WireError \<Rightarrow> string \<Rightarrow> string option" where
  "extraStr w k = (case extraOf w k of Some (XStr s) \<Rightarrow> Some s | _ \<Rightarrow> None)"

definition extraErrs :: "WireError \<Rightarrow> string \<Rightarrow> (nat \<times> WireError) list" where
  "extraErrs w k = (case extraOf w k of Some (XErrors es) \<Rightarrow> es | _ \<Rightarrow> [])"

definition extraVals :: "WireError \<Rightarrow> string \<Rightarrow> (nat \<times> jsval) list" where
  "extraVals w k = (case extraOf w k of Some (XValues vs) \<Rightarrow> vs | _ \<Rightarrow> [])"

text \<open>\<open>for (const {index, value} of entries) map.set(index, f(value))\<close>\<close>

definition mapFromEntries :: "(nat \<times> 'a) list \<Rightarrow> (nat \<times> 'a) list" where
  "mapFromEntries es = fold (\<lambda>(i, v) m. AList.update i v m) es []"

lemma size_entry: "(k, x) \<in> set ex \<Longrightarrow> size x < size_list (size_prod (\<lambda>_. 0) size) ex"
  by (induction ex) auto

lemma size_extraErrs:
  assumes "(i, v) \<in> set (extraErrs w k)"
  shows "size v < size w"
proof -
  from assms obtain es where "extraOf w k = Some (XErrors es)" and i: "(i, v) \<in> set es"
    by (auto simp: extraErrs_def split: option.splits extraVal.splits dest: sym)
  then obtain ex where ex: "wExtra w = Some ex" and k: "(k, XErrors es) \<in> set ex"
    by (cases "wExtra w") (auto simp: extraOf_def dest: map_of_SomeD)
  have "size v < size (XErrors es)" using size_entry [OF i] by simp
  also have "\<dots> < size_list (size_prod (\<lambda>_. 0) size) ex" by (rule size_entry [OF k])
  also have "\<dots> < size w" using ex by (cases w) auto
  finally show ?thesis .
qed

lemma size_wCause: "wCause w = Some c \<Longrightarrow> size c < size w"
  by (cases w) auto

text \<open>
  \<open>wireToError\<close>. The only exception of the function is the \<open>RangeError\<close> of an impossible date; it
  leaves the whole call whichever error of the tree has it, so \<open>dateThrows\<close> decides it first.
\<close>

function dateThrows :: "WireError \<Rightarrow> bool" where
  "dateThrows w \<longleftrightarrow>
     (case wCause w of None \<Rightarrow> False | Some c \<Rightarrow> dateThrows c) \<or>
     (wCode w = ''CFP_DEADLINE_EXCEEDED'' \<and>
        toISOString (nullish (extraNum w ''deadlineEpochMs'') 0) = None) \<or>
     (wCode w = ''CFP_AGGREGATE_EXECUTION'' \<and>
        list_ex (\<lambda>(i, v). dateThrows v) (extraErrs w ''errorEntries''))"
  by pat_completeness auto
termination
  by (relation "measure size") (auto dest: size_extraErrs size_wCause)

function decodeWire :: "WireError \<Rightarrow> ParallelError" where
  "decodeWire w =
     (let cause = map_option (\<lambda>c. Lib (decodeWire c)) (wCause w);
          msg = wMessage w; code = wCode w
      in if code = ''CFP_CANCELLED'' then
           CancelledError (Some (nullish (extraStr w ''reason'') msg)) cause
         else if code = ''CFP_DEADLINE_EXCEEDED'' then
           DeadlineExceededError (nullish (extraNum w ''deadlineEpochMs'') 0) cause
         else if code = ''CFP_TIMEOUT'' then
           TimeoutError (nullish (extraNum w ''deadlineMs'') 0) cause
         else if code = ''CFP_BACKPRESSURE'' then
           BackpressureError msg (nullish (extraNum w ''retryAfterMs'') 100) cause
         else if code = ''CFP_DISCONNECTED'' then DisconnectedError msg cause
         else if code = ''CFP_OUT_OF_MEMORY'' then OutOfMemoryError msg cause
         else if code = ''CFP_BILLING_LIMIT'' then
           BillingLimitError (nullish (Option.bind (extraStr w ''kind'') kindOf) CpuMs) msg cause
         else if code = ''CFP_RETURN_TOO_LARGE'' then
           ReturnTooLargeError (nullish (extraNum w ''bytes'') 0) cause
         else if code = ''CFP_DEADLINE_TOO_SHORT'' then
           DeadlineTooShortError (nullish (extraNum w ''budgetMs'') 0)
             (nullish (extraNum w ''minBudgetMs'') 1000) cause
         else if code = ''CFP_SERIALIZATION'' then SerializationError msg cause
         else if code = ''CFP_RESULT_EXPIRED'' then
           ResultExpiredError (nullish (extraStr w ''jobId'') []) cause
         else if code = ''CFP_CONFLICT'' then ConflictError msg cause
         else if code = ''CFP_TOPOLOGY'' then TopologyError msg cause
         else if code = ''CFP_RETRY_EXHAUSTED'' then
           RetryExhaustedError (nullish (extraNum w ''attempts'') 1)
             (nullish cause (PlainError ''Error'' msg None))
         else if code = ''CFP_BINDING'' then BindingError msg cause
         else if code = ''CFP_MISSING_BINDING'' then
           MissingBindingError (nullish (extraStr w ''bindingName'') ''unknown'') cause
         else if code = ''CFP_POLICY_REQUIRED'' then PolicyRequiredError msg cause
         else if code = ''CFP_AGGREGATE_EXECUTION'' then
           AggregateExecutionError
             (mapFromEntries
                (map (\<lambda>(i, v). (i, decodeWire v)) (extraErrs w ''errorEntries'')))
             (mapFromEntries (extraVals w ''partialResultEntries''))
         else ExecutionError msg (wStack w) (Some (nullish (wOriginalName w) (wName w))) cause)"
  by pat_completeness auto
termination
  by (relation "measure size") (auto dest: size_extraErrs size_wCause)

declare dateThrows.simps [simp del] decodeWire.simps [simp del]

definition wireToError :: "WireError \<Rightarrow> string + ParallelError" where
  "wireToError w = (if dateThrows w then Inl ''RangeError'' else Inr (decodeWire w))"

section \<open>Type guards\<close>

text \<open>
  A value as the guards see it: an instance of a library class, an object which carries only a
  \<open>code\<close> (an error that crossed RPC and lost its prototype), or anything else.
\<close>

datatype guarded = Instance ParallelError | Coded string | Other

fun isParallelError :: "guarded \<Rightarrow> bool" where
  "isParallelError (Instance _) = True"
| "isParallelError (Coded c) = startsWith ''CFP_'' c"
| "isParallelError Other = False"

fun guardCode :: "guarded \<Rightarrow> string option" where
  "guardCode (Instance e) = Some (errCode e)"
| "guardCode (Coded c) = Some c"
| "guardCode Other = None"

definition codeIs :: "string list \<Rightarrow> guarded \<Rightarrow> bool" where
  "codeIs cs g \<longleftrightarrow> isParallelError g \<and>
     (case guardCode g of None \<Rightarrow> False | Some c \<Rightarrow> List.member cs c)"

definition instanceIs :: "(ParallelError \<Rightarrow> bool) \<Rightarrow> guarded \<Rightarrow> bool" where
  "instanceIs P g = (case g of Instance e \<Rightarrow> P e | _ \<Rightarrow> False)"

definition isBackpressureError :: "guarded \<Rightarrow> bool" where
  "isBackpressureError g \<longleftrightarrow> instanceIs isBackpressure g \<or> codeIs [''CFP_BACKPRESSURE''] g"

definition isCancelledError :: "guarded \<Rightarrow> bool" where
  "isCancelledError g \<longleftrightarrow> instanceIs isCancelled g \<or> codeIs [''CFP_CANCELLED''] g"

definition isExecutionError :: "guarded \<Rightarrow> bool" where
  "isExecutionError g \<longleftrightarrow> instanceIs isExecution g \<or>
     codeIs [''CFP_EXECUTION'', ''CFP_DISCONNECTED'', ''CFP_OUT_OF_MEMORY'', ''CFP_BILLING_LIMIT''] g"

definition isAggregateExecutionError :: "guarded \<Rightarrow> bool" where
  "isAggregateExecutionError g \<longleftrightarrow> instanceIs isAggregate g \<or> codeIs [''CFP_AGGREGATE_EXECUTION''] g"

definition isDeadlineExceededError :: "guarded \<Rightarrow> bool" where
  "isDeadlineExceededError g \<longleftrightarrow>
     instanceIs isDeadlineExceeded g \<or> codeIs [''CFP_DEADLINE_EXCEEDED''] g"

definition isTimeoutError :: "guarded \<Rightarrow> bool" where
  "isTimeoutError g \<longleftrightarrow> instanceIs isTimeout g \<or> codeIs [''CFP_TIMEOUT''] g"

section \<open>Round trip\<close>

lemma fold_update_distinct:
  "distinct (map fst (m @ es)) \<Longrightarrow> fold (\<lambda>(i, v) m. AList.update i v m) es m = m @ es"
proof (induction es arbitrary: m)
  case (Cons p es)
  obtain i v where p: "p = (i, v)" by (cases p)
  have "AList.update i v m = m @ [(i, v)]"
    using Cons.prems unfolding p by (induction m) auto
  then show ?case using Cons unfolding p by simp
qed simp

lemma mapFromEntries_distinct [simp]: "distinct (map fst es) \<Longrightarrow> mapFromEntries es = es"
  using fold_update_distinct [of "[]" es] by (simp add: mapFromEntries_def)

lemma distinct_mapFromEntries: "distinct (map fst (mapFromEntries es))"
proof -
  have "distinct (map fst m) \<Longrightarrow> distinct (map fst (fold (\<lambda>(i, v) m. AList.update i v m) es m))" for m
    by (induction es arbitrary: m) (auto simp: distinct_update)
  then show ?thesis by (simp add: mapFromEntries_def)
qed

lemma mapFromEntries_subset: "set (mapFromEntries es) \<subseteq> set es"
proof -
  have "set (AList.update i v m) \<subseteq> insert (i, v) (set m)" for i :: nat and v :: 'a and m
    by (induction m) auto
  then have "set (fold (\<lambda>(i, v) m. AList.update i v m) es m) \<subseteq> set m \<union> set es" for m
  proof (induction es arbitrary: m)
    case (Cons p es)
    then show ?case by (cases p) (simp, blast)
  qed simp
  from this [of "[]"] show ?thesis by (simp add: mapFromEntries_def)
qed

text \<open>
  The errors the wire loses nothing of. Excluded are: the root class and \<open>QueueFullError\<close> (no case
  in \<open>wireToError\<close>), an \<open>ExecutionError\<close> without \<open>originalName\<close> and a \<open>CancelledError\<close> without
  reason (both are filled in by the decoder), an \<open>ExecutionError\<close> without remote stack when the engine
  gave it a stack (which arrives as its remote stack), a deadline that is no date, repeated indices, and
  a cause that is not a library error of these.
\<close>

fun wireStable :: "stackOf \<Rightarrow> ParallelError \<Rightarrow> bool" and causeStable :: "stackOf \<Rightarrow> thrown \<Rightarrow> bool" where
  "wireStable stk (BaseParallelError _ _) = False"
| "wireStable stk (QueueFullError _ _ _) = False"
| "wireStable stk (SerializationError _ c) = pred_option (causeStable stk) c"
| "wireStable stk (ReturnTooLargeError _ c) = pred_option (causeStable stk) c"
| "wireStable stk (DeadlineTooShortError _ _ c) = pred_option (causeStable stk) c"
| "wireStable stk (ExecutionError m s q c) =
     (q \<noteq> None \<and> (s = None \<longrightarrow> stk (Lib (ExecutionError m s q c)) = None) \<and> pred_option (causeStable stk) c)"
| "wireStable stk (DisconnectedError _ c) = pred_option (causeStable stk) c"
| "wireStable stk (OutOfMemoryError _ c) = pred_option (causeStable stk) c"
| "wireStable stk (BillingLimitError _ _ c) = pred_option (causeStable stk) c"
| "wireStable stk (TimeoutError _ c) = pred_option (causeStable stk) c"
| "wireStable stk (RetryExhaustedError _ l) = causeStable stk l"
| "wireStable stk (BindingError _ c) = pred_option (causeStable stk) c"
| "wireStable stk (MissingBindingError _ c) = pred_option (causeStable stk) c"
| "wireStable stk (CancelledError r c) = (r \<noteq> None \<and> pred_option (causeStable stk) c)"
| "wireStable stk (DeadlineExceededError d c) = (toISOString d \<noteq> None \<and> pred_option (causeStable stk) c)"
| "wireStable stk (BackpressureError _ _ c) = pred_option (causeStable stk) c"
| "wireStable stk (ResultExpiredError _ c) = pred_option (causeStable stk) c"
| "wireStable stk (ConflictError _ c) = pred_option (causeStable stk) c"
| "wireStable stk (TopologyError _ c) = pred_option (causeStable stk) c"
| "wireStable stk (PolicyRequiredError _ c) = pred_option (causeStable stk) c"
| "wireStable stk (AggregateExecutionError es ps) =
     (distinct (map fst es) \<and> distinct (map fst ps) \<and> list_all (\<lambda>(i, e). wireStable stk e) es)"
| "causeStable stk (Lib e) = wireStable stk e"
| "causeStable stk _ = False"

lemmas extra_defs = extraOf_def extraNum_def extraStr_def extraErrs_def extraVals_def wireOf_def

lemma decode_entries:
  "(\<And>i v. (i, v) \<in> set es \<Longrightarrow> decodeWire (toJSON stk v) = v) \<Longrightarrow>
     map ((\<lambda>(i, v). (i, decodeWire v)) \<circ> (\<lambda>(i, x). (i, toJSON stk x))) es = es"
  by (induction es) auto

lemma throws_entries:
  "list_ex (\<lambda>(i, v). dateThrows v) (map (\<lambda>(i, x). (i, toJSON stk x)) es) \<longleftrightarrow>
     (\<exists>i v. (i, v) \<in> set es \<and> dateThrows (toJSON stk v))"
  by (induction es) auto

declare kindOf.simps [simp del]

lemmas decode_wire = decodeWire.simps [of "WireError _ _ _ _ _ _ _ _"]
  dateThrows.simps [of "WireError _ _ _ _ _ _ _ _"]

lemma decode_toJSON:
  "wireStable stk e \<Longrightarrow> decodeWire (toJSON stk e) = e \<and> \<not> dateThrows (toJSON stk e)"
  "causeStable stk t \<Longrightarrow> \<exists>e. t = Lib e \<and> causeToWire stk t = toJSON stk e \<and>
      decodeWire (toJSON stk e) = e \<and> \<not> dateThrows (toJSON stk e)"
proof (induction stk e and stk t rule: wireStable_causeStable.induct)
  case (21 stk es ps)
  have "decodeWire (toJSON stk v) = v \<and> \<not> dateThrows (toJSON stk v)" if "(i, v) \<in> set es" for i v
    using 21 that by (auto simp: list_all_iff)
  then show ?case using 21(2)
    by (auto simp: decode_wire extra_defs throws_entries decode_entries)
qed (auto simp: decode_wire extra_defs option.pred_set split: option.splits)

lemma entries_fixed:
  assumes "mapFromEntries (map (\<lambda>(i, v). (i, f v)) es) = es"
  shows "distinct (map fst es) \<and> (\<forall>(i, v) \<in> set es. f v = v)"
proof -
  let ?ds = "map (\<lambda>(i, v). (i, f v)) es"
  have d: "distinct (map fst es)" using distinct_mapFromEntries [of ?ds] assms by simp
  moreover have "map fst ?ds = map fst es" by auto
  ultimately have "?ds = es" using assms by (metis mapFromEntries_distinct)
  then have "\<forall>p \<in> set es. (\<lambda>(i, v). (i, f v)) p = p" by (metis map_eq_conv list.map_ident)
  then show ?thesis using d by auto
qed

lemma decode_stable:
  "decodeWire (toJSON stk e) = e \<Longrightarrow> \<not> dateThrows (toJSON stk e) \<Longrightarrow> wireStable stk e"
  "t = Lib (decodeWire (causeToWire stk t)) \<Longrightarrow> \<not> dateThrows (causeToWire stk t) \<Longrightarrow> causeStable stk t"
proof (induction stk e and stk t rule: wireStable_causeStable.induct)
  case (21 stk es ps)
  let ?f = "\<lambda>v. decodeWire (toJSON stk v)"
  have "mapFromEntries (map (\<lambda>(i, v). (i, ?f v)) es) = es" "mapFromEntries ps = ps"
    using 21(2) by (simp_all add: decode_wire extra_defs comp_def case_prod_unfold)
  then have "distinct (map fst es) \<and> (\<forall>(i, v) \<in> set es. ?f v = v)" "distinct (map fst ps)"
    using entries_fixed [of ?f es] distinct_mapFromEntries [of ps] by auto
  moreover have "\<not> dateThrows (toJSON stk v)" if "(i, v) \<in> set es" for i v
    using 21(3) that by (auto simp: decode_wire extra_defs throws_entries)
  ultimately show ?case using 21(1) by (fastforce simp: list_all_iff)
qed (auto simp: decode_wire extra_defs option.pred_set split: option.splits, metis+)

lemma decode_code:
  "errCode (decodeWire (toJSON stk e)) =
     (if errCode e \<in> {''CFP_PARALLEL'', ''CFP_QUEUE_FULL''} then ''CFP_EXECUTION'' else errCode e)"
  by (cases e) (simp_all add: decode_wire extra_defs)

text \<open>
  C8. Exactly the stable errors survive the RPC wire: decoding the \<open>toJSON\<close> form of a library error
  gives back the same class with the same fields, causes, aggregated errors and partial results if and
  only if neither it nor an error below it is of the root class, a \<open>QueueFullError\<close>, an
  \<open>ExecutionError\<close> without \<open>originalName\<close> (or without remote stack although the engine recorded one),
  a \<open>CancelledError\<close> without reason, a \<open>DeadlineExceededError\<close> of an impossible date, an aggregate with
  a repeated index, or an error whose cause is no library error.
\<close>

theorem wire_roundtrip:
  "wireToError (toJSON stk e) = Inr e \<longleftrightarrow> wireStable stk e"
  using decode_toJSON(1) [of stk e] decode_stable(1) [of stk e]
  by (auto simp: wireToError_def split: if_splits)

lemma wire_roundtrip_example:
  "wireStable (\<lambda>_. Some ''at f'') (AggregateExecutionError
      [(2, TimeoutError 50 None), (0, RetryExhaustedError 3 (Lib (CancelledError (Some ''stop'') None)))]
      [(1, JNum 7)]) \<and>
   \<not> wireStable (\<lambda>_. Some ''at f'') (RetryExhaustedError 3 (Lib (QueueFullError 5 5 None)))"
  by simp

text \<open>
  The machine-readable code of every class survives the wire except for the root class and for
  \<open>QueueFullError\<close>: those arrive as \<open>CFP_EXECUTION\<close>, so a full queue no longer passes the
  backpressure guard on the other side.
\<close>

theorem wire_code:
  assumes "wireToError (toJSON stk e) = Inr e'"
  shows "errCode e' = (if errCode e \<in> {''CFP_PARALLEL'', ''CFP_QUEUE_FULL''} then ''CFP_EXECUTION''
                       else errCode e) \<and>
         (isBackpressureError (Instance e') \<longleftrightarrow> errCode e = ''CFP_BACKPRESSURE'')"
proof -
  have e': "e' = decodeWire (toJSON stk e)" using assms by (auto simp: wireToError_def split: if_splits)
  have "isBackpressureError (Instance (decodeWire (toJSON stk e))) \<longleftrightarrow> errCode e = ''CFP_BACKPRESSURE''"
    by (cases e) (simp_all add: decode_wire extra_defs isBackpressureError_def instanceIs_def codeIs_def)
  then show ?thesis using decode_code [of stk e] e' by simp
qed

theorem wire_code_witness:
  "isBackpressureError (Instance (QueueFullError 5 5 None)) \<and>
   \<not> isBackpressureError (Instance (decodeWire (toJSON (\<lambda>_. None) (QueueFullError 5 5 None))))"
proof -
  have "wireToError (toJSON (\<lambda>_. None) (QueueFullError 5 5 None)) =
      Inr (decodeWire (toJSON (\<lambda>_. None) (QueueFullError 5 5 None)))"
    by (simp add: wireToError_def decode_wire extra_defs)
  from wire_code [OF this] show ?thesis
    by (simp add: isBackpressureError_def instanceIs_def)
qed

lemma coded_guards:
  "isCancelledError (Coded (errCode e)) = isCancelledError (Instance e)"
  "isExecutionError (Coded (errCode e)) = isExecutionError (Instance e)"
  "isTimeoutError (Coded (errCode e)) = isTimeoutError (Instance e)"
  "isDeadlineExceededError (Coded (errCode e)) = isDeadlineExceededError (Instance e)"
  "isAggregateExecutionError (Coded (errCode e)) = isAggregateExecutionError (Instance e)"
  by (cases e; simp add: isCancelledError_def isExecutionError_def isTimeoutError_def
      isDeadlineExceededError_def isAggregateExecutionError_def instanceIs_def codeIs_def)+

end
