(* ===== verification/ErrorMarshal.thy ===== *)
theory ErrorMarshal
  imports ErrorWire
begin

text \<open>
  Classification of runtime failures (\<open>src/transport/error-marshal.ts\<close>) and the small failure
  record of the leaf RPC: \<open>errorToRecord\<close> (\<open>src/coordinator/protocol.ts\<close>) on the sending side and
  \<open>leafErrorToTypedError\<close> (\<open>src/api/error-decode.ts\<close>) on the receiving side.
\<close>

section \<open>Errors as the catch clauses see them\<close>

text \<open>\<open>err instanceof Error ? err : new Error(String(err))\<close>: name, message, stack.\<close>

fun asError :: "thrown \<Rightarrow> string \<times> string \<times> string option" where
  "asError (Lib e) = (errName e, errMessage e, None)"
| "asError (PlainError n m s) = (n, m, s)"
| "asError (NonError s) = (''Error'', s, None)"

definition anyIn :: "string list \<Rightarrow> string \<Rightarrow> bool" where
  "anyIn ps s = list_ex (\<lambda>p. strIncludes p s) ps"

section \<open>marshalError\<close>

fun passThrough :: "thrown \<Rightarrow> bool" where
  "passThrough (Lib e) \<longleftrightarrow> isExecution e \<or> isBackpressure e \<or> isTimeout e \<or> isSerialization e"
| "passThrough _ = False"

text \<open>
  \<open>cpuPattern\<close> is \<open>globalThis.cfpCpuMsPattern\<close>; an absent or empty pattern is skipped.
\<close>

definition classifyMessage :: "string option \<Rightarrow> string \<Rightarrow> string \<Rightarrow> string option \<Rightarrow> ParallelError" where
  "classifyMessage cpuPattern name msg stk =
     (let lc = toLowerCase msg in
      if strIncludes ''Too many concurrent dynamic workers'' msg then BackpressureError msg 100 None
      else if anyIn [''owner quota'', ''rate limit'', ''overloaded'', ''too many requests''] lc
        then BackpressureError msg 250 None
      else if nullish cpuPattern [] \<noteq> [] \<and> strIncludes (nullish cpuPattern []) msg
        then BillingLimitError CpuMs msg None
      else if strIncludes ''CPU exceeded'' msg \<or> anyIn [''cpu time'', ''cpu limit'', ''exceeded cpu''] lc
        then BillingLimitError CpuMs msg None
      else if strIncludes ''subrequest'' lc then BillingLimitError SubRequests msg None
      else if anyIn [''out of memory'', ''memory limit exceeded'', ''heap out of memory''] lc
        then OutOfMemoryError msg None
      else if name = ''Disconnected'' \<or> anyIn [''disconnected'', ''worker terminated'',
                ''isolate is no longer running'', ''worker reset''] lc
        then DisconnectedError msg None
      else if name = ''DataCloneError'' \<or> anyIn [''could not be cloned'', ''could not be serialized'',
                ''cannot be cloned'', ''not serializable''] lc
        then SerializationError msg None
      else ExecutionError msg stk (if name = ''Error'' then None else Some name) None)"

definition marshalError :: "string option \<Rightarrow> thrown \<Rightarrow> ParallelError" where
  "marshalError cpuPattern t =
     (case t of
        Lib e \<Rightarrow> if passThrough (Lib e) then e
                 else (case asError (Lib e) of (n, m, s) \<Rightarrow> classifyMessage cpuPattern n m s)
      | _ \<Rightarrow> (case asError t of (n, m, s) \<Rightarrow> classifyMessage cpuPattern n m s))"

definition isRetryable :: "ParallelError \<Rightarrow> bool" where
  "isRetryable e \<longleftrightarrow> isBackpressure e \<or> isDisconnected e"

section \<open>The leaf failure record\<close>

record FailRecord =
  frName :: string
  frMessage :: string
  frStack :: "string option"
  frOriginalName :: "string option"

fun originalNameOf :: "thrown \<Rightarrow> string option" where
  "originalNameOf (Lib (ExecutionError _ _ q _)) = q"
| "originalNameOf _ = None"

definition errorToRecord :: "thrown \<Rightarrow> FailRecord" where
  "errorToRecord t =
     (case asError t of (n, m, s) \<Rightarrow>
        \<lparr>frName = (if n = [] then ''Error'' else n), frMessage = m, frStack = s,
         frOriginalName = originalNameOf t\<rparr>)"

definition leafErrorToTypedError :: "FailRecord \<Rightarrow> ParallelError" where
  "leafErrorToTypedError w =
     (let n = frName w; m = frMessage w in
      if n = ''CancelledError'' then CancelledError (Some m) None
      else if n = ''DeadlineExceededError'' then DeadlineExceededError 0 None
      else if n = ''TimeoutError'' then TimeoutError 0 None
      else if n = ''BackpressureError'' then BackpressureError m 100 None
      else if n = ''DisconnectedError'' then DisconnectedError m None
      else if n = ''OutOfMemoryError'' then OutOfMemoryError m None
      else if n = ''BillingLimitError'' then BillingLimitError CpuMs m None
      else if n = ''ReturnTooLargeError'' then ReturnTooLargeError 0 None
      else if n = ''SerializationError'' then SerializationError m None
      else if n = ''ResultExpiredError'' then ResultExpiredError [] None
      else if n = ''ConflictError'' then ConflictError m None
      else if n = ''TopologyError'' then TopologyError m None
      else ExecutionError m (frStack w) (Some (nullish (frOriginalName w) n)) None)"

section \<open>Lemmas\<close>

lemma classifyMessage_message [simp]: "errMessage (classifyMessage p n m s) = m"
  by (simp add: classifyMessage_def Let_def)

lemma classifyMessage_passes [simp]: "passThrough (Lib (classifyMessage p n m s))"
  by (simp add: classifyMessage_def Let_def)

lemma marshalError_passes: "passThrough (Lib (marshalError p t))"
  by (cases t) (simp_all add: marshalError_def del: passThrough.simps)

lemma marshalError_pass: "passThrough (Lib e) \<Longrightarrow> marshalError p (Lib e) = e"
  by (simp add: marshalError_def del: passThrough.simps)

lemma marshalError_message: "errMessage (marshalError p t) = thrownMessage t"
  by (cases t) (simp_all add: marshalError_def)

text \<open>
  \<open>marshalError\<close> keeps the message of whatever was thrown, its result is always an execution,
  backpressure, timeout or serialization error, and marshalling again changes nothing.
\<close>

theorem marshalError_canonical:
  "errMessage (marshalError p t) = thrownMessage t \<and>
   passThrough (Lib (marshalError p t)) \<and>
   marshalError q (Lib (marshalError p t)) = marshalError p t"
  using marshalError_passes [of p t] marshalError_message marshalError_pass by blast

lemma classify_retryable:
  "isRetryable (classifyMessage p n m s) \<longleftrightarrow>
     strIncludes ''Too many concurrent dynamic workers'' m \<or>
     anyIn [''owner quota'', ''rate limit'', ''overloaded'', ''too many requests''] (toLowerCase m) \<or>
     isDisconnected (classifyMessage p n m s)"
  by (simp add: classifyMessage_def Let_def isRetryable_def)

text \<open>
  A cancellation or a missed deadline loses its class in \<open>marshalError\<close>: the result is never a
  cancelled or deadline error. When no marker occurs in the text it is an \<open>ExecutionError\<close> that
  remembers the class name; a cancel reason that contains a backpressure marker even makes the
  cancellation retryable.
\<close>

theorem marshalError_loses_cancel:
  "\<not> isCancelled (marshalError p t) \<and> \<not> isDeadlineExceeded (marshalError p t) \<and>
   marshalError None (Lib (CancelledError (Some ''user stop'') None)) =
     ExecutionError ''Cancelled: user stop'' None (Some ''CancelledError'') None \<and>
   isRetryable (marshalError None (Lib (CancelledError (Some ''rate limit reached'') None)))"
proof -
  have "passThrough (Lib e) \<Longrightarrow> \<not> isCancelled e \<and> \<not> isDeadlineExceeded e" for e
    by (cases e) auto
  moreover have "marshalError None (Lib (CancelledError (Some ''user stop'') None)) =
     ExecutionError ''Cancelled: user stop'' None (Some ''CancelledError'') None"
    by code_simp
  moreover have "isRetryable (marshalError None (Lib (CancelledError (Some ''rate limit reached'') None)))"
    by code_simp
  ultimately show ?thesis using marshalError_passes by blast
qed

abbreviation leafClasses :: "string list" where
  "leafClasses \<equiv> [''CancelledError'', ''DeadlineExceededError'', ''TimeoutError'', ''BackpressureError'',
     ''DisconnectedError'', ''OutOfMemoryError'', ''BillingLimitError'', ''ReturnTooLargeError'',
     ''SerializationError'', ''ResultExpiredError'', ''ConflictError'', ''TopologyError'']"

text \<open>
  Through the leaf record a library error of one of the twelve known classes arrives as the same
  class; every other error arrives as an \<open>ExecutionError\<close> with the same message, which names the
  original class unless it was an \<open>ExecutionError\<close> with an original name of its own.
\<close>

theorem leaf_record_class:
  "(if List.member leafClasses (errName e)
    then errName (leafErrorToTypedError (errorToRecord (Lib e))) = errName e
    else leafErrorToTypedError (errorToRecord (Lib e)) =
           ExecutionError (errMessage e) None (Some (nullish (originalNameOf (Lib e)) (errName e))) None)"
  by (cases e) (simp_all add: errorToRecord_def leafErrorToTypedError_def)

end
