(* ===== verification/Json.thy ===== *)
theory Json
  imports ErrorMarshal
begin

text \<open>
  The JSON columns of the job stores (\<open>enc\<close> / \<open>dec\<close> of \<open>src/scheduler/stores/do-storage.ts\<close> and the
  \<open>JSON.stringify\<close> / \<open>JSON.parse\<close> pairs of \<open>d1.ts\<close>). A JSON text is represented by the value it
  denotes; what \<open>JSON.stringify\<close> loses (\<open>undefined\<close>) is lost here too.
\<close>

datatype json = NullJ | BoolJ bool | NumJ int | StrJ string | ArrJ "json list"
  | ObjJ "(string \<times> json) list"

text \<open>
  \<open>JSON.stringify\<close>: \<open>undefined\<close> has no text; inside an array it becomes \<open>null\<close>, a field that is
  \<open>undefined\<close> is dropped.
\<close>

fun stringify :: "jsval \<Rightarrow> json option" where
  "stringify JUndef = None"
| "stringify JNull = Some NullJ"
| "stringify (JBool b) = Some (BoolJ b)"
| "stringify (JNum i) = Some (NumJ i)"
| "stringify (JStr s) = Some (StrJ s)"
| "stringify (JArr vs) = Some (ArrJ (map (\<lambda>v. nullish (stringify v) NullJ) vs))"
| "stringify (JObj fs) = Some (ObjJ (concat (map (\<lambda>(k, v).
     case stringify v of None \<Rightarrow> [] | Some j \<Rightarrow> [(k, j)]) fs)))"

fun parseJson :: "json \<Rightarrow> jsval" where
  "parseJson NullJ = JNull"
| "parseJson (BoolJ b) = JBool b"
| "parseJson (NumJ i) = JNum i"
| "parseJson (StrJ s) = JStr s"
| "parseJson (ArrJ vs) = JArr (map parseJson vs)"
| "parseJson (ObjJ fs) = JObj (map (\<lambda>(k, v). (k, parseJson v)) fs)"

definition enc :: "jsval \<Rightarrow> json" where
  "enc v = nullish (stringify v) NullJ"

definition dec :: "json \<Rightarrow> jsval" where
  "dec j = parseJson j"

text \<open>Values without \<open>undefined\<close>: what the scheduler documents as JSON-friendly.\<close>

fun jsonSafe :: "jsval \<Rightarrow> bool" where
  "jsonSafe JUndef = False"
| "jsonSafe (JArr vs) = list_all jsonSafe vs"
| "jsonSafe (JObj fs) = list_all (\<lambda>(k, v). jsonSafe v) fs"
| "jsonSafe _ = True"

lemma stringify_safe: "jsonSafe v \<Longrightarrow> \<exists>j. stringify v = Some j \<and> parseJson j = v"
proof (induction v rule: jsonSafe.induct)
  case (2 vs)
  then have "map (parseJson \<circ> (\<lambda>v. nullish (stringify v) NullJ)) vs = vs"
    by (intro map_idI) (fastforce simp: list_all_iff)
  then show ?case by simp
next
  case (3 fs)
  then have "map (\<lambda>(k, v). (k, parseJson v)) (concat (map (\<lambda>(k, v).
     case stringify v of None \<Rightarrow> [] | Some j \<Rightarrow> [(k, j)]) fs)) = fs"
    by (induction fs) fastforce+
  then show ?case by simp
qed auto

lemma dec_enc [simp]: "jsonSafe v \<Longrightarrow> dec (enc v) = v"
  using stringify_safe [of v] by (auto simp: enc_def dec_def)

lemma dec_enc_undef: "dec (enc JUndef) = JNull"
  by (simp add: enc_def dec_def)

end
