(* ===== verification/JobStore.thy ===== *)
theory JobStore
  imports Json
begin

text \<open>
  Jobs and the persistence interface of the scheduler (\<open>src/scheduler/job-store.ts\<close>). The
  TypeScript interface \<open>JobStore\<close> is a record of operations on a store state \<open>'st\<close>; the locale
  \<open>job_store\<close> holds the contract of the interface (compare-and-swap transitions) and, inside it,
  what follows for every sequence of operations. The three implementations interpret it.

  Every operation takes the clock reading that the code obtains from \<open>Date.now()\<close>.
\<close>

section \<open>Jobs\<close>

datatype JobStatus = Queued | Leased | Done | Failed | Cancelled

fun terminal :: "JobStatus \<Rightarrow> bool" where
  "terminal Queued = False"
| "terminal Leased = False"
| "terminal _ = True"

datatype Backoff = Exponential | Linear | Constant

record RetryPolicy =
  rpMax :: int
  rpBackoff :: Backoff
  rpBaseMs :: int

datatype CacheKeyStrategy = Stable | Fresh | AutoKey

record PersistedJob =
  pjId :: string
  pjTenant :: string
  pjFnHash :: string
  pjFnSource :: string
  pjArgs :: "jsval list"
  pjContext :: "jsval option"
  pjWorkerOptions :: "jsval option"
  pjAllowList :: "string list option"
  pjMeta :: "(string \<times> string) list option"
  pjCreatedAt :: int
  pjDeadline :: int
  pjRetry :: RetryPolicy
  pjRetryCount :: int
  pjStatus :: JobStatus
  pjCacheKeyStrategy :: "CacheKeyStrategy option"
  pjLeaseOwner :: "string option"
  pjLeaseExpires :: "int option"
  pjResult :: "jsval option"
  pjResultExpires :: "int option"
  pjError :: "FailRecord option"
  pjIdempotencyKey :: "string option"

datatype EventKind = EvEnqueued | EvLeased | EvDone | EvFailed | EvCancelled | EvRetrying | EvExpired

record JobEvent =
  evTs :: int
  evJobId :: string
  evKind :: EventKind
  evDetail :: "string option"

record ClaimRequest =
  crWorkerId :: string
  crMax :: nat
  crLeaseMs :: int
  crJobId :: "string option"

text \<open>The value of \<open>result(jobId)\<close>.\<close>

record JobResult =
  jrStatus :: JobStatus
  jrValue :: "jsval option"
  jrError :: "FailRecord option"

section \<open>The interface\<close>

text \<open>
  Every operation returns its value and the next state; for \<open>enqueue\<close>, which can throw, the value is
  the message of the error, if there is one, and \<open>ack\<close>, which can throw too, answers with that message
  or with its flag. Read-only operations have no next state.
\<close>

record 'st JobStore =
  enqueueJ :: "int \<Rightarrow> PersistedJob \<Rightarrow> 'st \<Rightarrow> string option \<times> 'st"
  claimJ :: "int \<Rightarrow> ClaimRequest \<Rightarrow> 'st \<Rightarrow> PersistedJob list \<times> 'st"
  ackJ :: "int \<Rightarrow> string \<Rightarrow> string \<Rightarrow> jsval \<Rightarrow> int \<Rightarrow> 'st \<Rightarrow> (string + bool) \<times> 'st"
  failJ :: "int \<Rightarrow> string \<Rightarrow> string \<Rightarrow> FailRecord \<Rightarrow> 'st \<Rightarrow> JobStatus \<times> 'st"
  cancelJ :: "int \<Rightarrow> string \<Rightarrow> string option \<Rightarrow> 'st \<Rightarrow> bool \<times> 'st"
  failQueuedJ :: "int \<Rightarrow> string \<Rightarrow> FailRecord \<Rightarrow> 'st \<Rightarrow> bool \<times> 'st"
  statusJ :: "string \<Rightarrow> 'st \<Rightarrow> JobStatus option"
  resultJ :: "int \<Rightarrow> string \<Rightarrow> 'st \<Rightarrow> JobResult"
  peekJ :: "string option \<Rightarrow> nat \<Rightarrow> 'st \<Rightarrow> PersistedJob list"
  sweepExpiredJ :: "int \<Rightarrow> 'st \<Rightarrow> nat \<times> 'st"
  reclaimJ :: "int \<Rightarrow> 'st \<Rightarrow> nat \<times> 'st"
  listActiveJ :: "string \<Rightarrow> 'st \<Rightarrow> PersistedJob list"
  eventsJ :: "int \<Rightarrow> nat \<Rightarrow> 'st \<Rightarrow> JobEvent list"

text \<open>One state-changing call on a store, and its effect.\<close>

datatype StoreCall =
    CEnqueue int PersistedJob
  | CClaim int ClaimRequest
  | CAck int string string jsval int
  | CFail int string string FailRecord
  | CCancel int string "string option"
  | CFailQueued int string FailRecord
  | CSweep int
  | CReclaim int

fun callStore :: "'st JobStore \<Rightarrow> StoreCall \<Rightarrow> 'st \<Rightarrow> 'st" where
  "callStore S (CEnqueue now j) st = snd (enqueueJ S now j st)"
| "callStore S (CClaim now r) st = snd (claimJ S now r st)"
| "callStore S (CAck now i w v x) st = snd (ackJ S now i w v x st)"
| "callStore S (CFail now i w e) st = snd (failJ S now i w e st)"
| "callStore S (CCancel now i r) st = snd (cancelJ S now i r st)"
| "callStore S (CFailQueued now i e) st = snd (failQueuedJ S now i e st)"
| "callStore S (CSweep now) st = snd (sweepExpiredJ S now st)"
| "callStore S (CReclaim now) st = snd (reclaimJ S now st)"

text \<open>An acknowledgement that neither threw nor answered \<open>false\<close>.\<close>

fun accepted :: "string + bool \<Rightarrow> bool" where
  "accepted (Inr ok) = ok"
| "accepted (Inl _) = False"

text \<open>How often a sequence of calls acknowledges job \<open>i\<close> successfully.\<close>

fun ackCount :: "'st JobStore \<Rightarrow> string \<Rightarrow> StoreCall list \<Rightarrow> 'st \<Rightarrow> nat" where
  "ackCount S i [] st = 0"
| "ackCount S i (c # cs) st =
     (case c of CAck now i' w v x \<Rightarrow> if i' = i \<and> accepted (fst (ackJ S now i' w v x st)) then 1 else 0 | _ \<Rightarrow> 0)
     + ackCount S i cs (callStore S c st)"

fun isSweep :: "StoreCall \<Rightarrow> bool" where
  "isSweep (CSweep _) = True"
| "isSweep _ = False"

section \<open>The contract\<close>

text \<open>
  \<open>leaseOf st i\<close> is the pair of lease owner and expiry of a leased row. The laws: an inserted job is
  queued; every operation is a compare-and-swap on the current status (a transition that is not
  enabled changes no status); a claim hands out only jobs that were queued or whose lease had
  expired and leaves them leased to the claimer; an acknowledgement or failure needs the lease.
\<close>

locale job_store =
  fixes S :: "'st JobStore"
    and good :: "'st \<Rightarrow> bool"
    and leaseOf :: "'st \<Rightarrow> string \<Rightarrow> (string option \<times> int option) option"
  assumes good_call: "good st \<Longrightarrow> good (callStore S c st)"
    and enqueue_status: "good st \<Longrightarrow> enqueueJ S now j st = (msg, st') \<Longrightarrow>
        statusJ S i st' = statusJ S i st \<or>
        (statusJ S i st = None \<and> i = pjId j \<and> statusJ S i st' = Some Queued)"
    and claim_status: "good st \<Longrightarrow> claimJ S now r st = (js, st') \<Longrightarrow>
        statusJ S i st' = (if i \<in> pjId ` set js then Some Leased else statusJ S i st)"
    and claim_from: "good st \<Longrightarrow> claimJ S now r st = (js, st') \<Longrightarrow> j \<in> set js \<Longrightarrow>
        statusJ S (pjId j) st = Some Queued \<or>
        (\<exists>w x. leaseOf st (pjId j) = Some (w, Some x) \<and> x < now)"
    and claim_lease: "good st \<Longrightarrow> claimJ S now r st = (js, st') \<Longrightarrow> j \<in> set js \<Longrightarrow>
        leaseOf st' (pjId j) = Some (Some (crWorkerId r), Some (now + crLeaseMs r))"
    and lease_leased: "good st \<Longrightarrow> leaseOf st i \<noteq> None \<longleftrightarrow> statusJ S i st = Some Leased"
    and ack_cas: "good st \<Longrightarrow> ackJ S now i w v x st = (ans, st') \<Longrightarrow>
        (\<forall>ok. ans = Inr ok \<longrightarrow> ok = (\<exists>e. leaseOf st i = Some (Some w, e))) \<and>
        statusJ S k st' = (if accepted ans \<and> k = i then Some Done else statusJ S k st)"
    and fail_cas: "good st \<Longrightarrow> failJ S now i w err st = (s, st') \<Longrightarrow>
        statusJ S k st' = (if k = i \<and> (\<exists>e. leaseOf st i = Some (Some w, e))
                           then (if s = Failed then Some Failed else Some Queued)
                           else statusJ S k st)"
    and cancel_cas: "good st \<Longrightarrow> cancelJ S now i why st = (ok, st') \<Longrightarrow>
        ok = (statusJ S i st \<in> {Some Queued, Some Leased}) \<and>
        statusJ S k st' = (if ok \<and> k = i then Some Cancelled else statusJ S k st)"
    and failQueued_cas: "good st \<Longrightarrow> failQueuedJ S now i err st = (ok, st') \<Longrightarrow>
        ok = (statusJ S i st = Some Queued) \<and>
        statusJ S k st' = (if ok \<and> k = i then Some Failed else statusJ S k st)"
    and reclaim_status: "good st \<Longrightarrow> reclaimJ S now st = (n, st') \<Longrightarrow>
        statusJ S k st' = statusJ S k st \<or>
        (statusJ S k st' = Some Queued \<and> (\<exists>w x. leaseOf st k = Some (w, Some x) \<and> x < now))"
begin

lemma terminal_stays:
  assumes "good st" "statusJ S i st = Some s" "terminal s" "\<not> isSweep c"
  shows "statusJ S i (callStore S c st) = Some s"
proof (cases c)
  case (CEnqueue now j)
  then show ?thesis using assms(2) enqueue_status [OF assms(1), of now j _ _ i]
    by (cases "enqueueJ S now j st") auto
next
  case (CClaim now r)
  obtain js st' where c: "claimJ S now r st = (js, st')" by (cases "claimJ S now r st")
  have "i \<notin> pjId ` set js"
  proof
    assume "i \<in> pjId ` set js"
    then obtain j where "j \<in> set js" "i = pjId j" by auto
    then have "statusJ S i st = Some Queued \<or> leaseOf st i \<noteq> None"
      using claim_from [OF assms(1) c] by auto
    then show False using lease_leased [OF assms(1), of i] assms(2,3) by auto
  qed
  then show ?thesis using claim_status [OF assms(1) c, of i] CClaim c assms(2) by simp
next
  case (CAck now k w v x)
  obtain ans st' where c: "ackJ S now k w v x st = (ans, st')" by (cases "ackJ S now k w v x st")
  have "accepted ans \<Longrightarrow> statusJ S k st = Some Leased"
    using ack_cas [OF assms(1) c] lease_leased [OF assms(1), of k] by (cases ans) auto
  then show ?thesis using ack_cas [OF assms(1) c, of i] CAck c assms(2,3) by auto
next
  case (CFail now k w e)
  obtain s' st' where c: "failJ S now k w e st = (s', st')" by (cases "failJ S now k w e st")
  show ?thesis using fail_cas [OF assms(1) c, of i] CFail c assms(2,3) lease_leased [OF assms(1), of k]
    by auto
next
  case (CCancel now k why)
  obtain ok st' where c: "cancelJ S now k why st = (ok, st')" by (cases "cancelJ S now k why st")
  show ?thesis using cancel_cas [OF assms(1) c, of i] CCancel c assms(2,3) by auto
next
  case (CFailQueued now k e)
  obtain ok st' where c: "failQueuedJ S now k e st = (ok, st')" by (cases "failQueuedJ S now k e st")
  show ?thesis using failQueued_cas [OF assms(1) c, of i] CFailQueued c assms(2,3) by auto
next
  case (CReclaim now)
  obtain n st' where c: "reclaimJ S now st = (n, st')" by (cases "reclaimJ S now st")
  show ?thesis using reclaim_status [OF assms(1) c, of i] CReclaim c assms(2,3)
      lease_leased [OF assms(1), of i] by auto
qed (use assms in simp)

lemma terminal_run:
  assumes "good st" "statusJ S i st = Some s" "terminal s" "\<not> list_ex isSweep cs"
  shows "statusJ S i (fold (callStore S) cs st) = Some s"
  using assms
proof (induction cs arbitrary: st)
  case (Cons c cs)
  then have "good (callStore S c st)" "statusJ S i (callStore S c st) = Some s"
    using good_call terminal_stays by auto
  then show ?case using Cons.IH [of "callStore S c st"] Cons.prems(3,4) by simp
qed simp

lemma ack_needs_lease:
  "good st \<Longrightarrow> accepted (fst (ackJ S now i w v x st)) \<Longrightarrow> statusJ S i st = Some Leased"
proof -
  assume g: "good st" and a: "accepted (fst (ackJ S now i w v x st))"
  then obtain st' where c: "ackJ S now i w v x st = (Inr True, st')"
    by (cases "ackJ S now i w v x st"; cases "fst (ackJ S now i w v x st)") auto
  show "statusJ S i st = Some Leased"
    using ack_cas [OF g c] lease_leased [OF g, of i] by auto
qed

lemma no_ack_when_terminal:
  assumes "good st" "statusJ S i st = Some s" "terminal s" "\<not> list_ex isSweep cs"
  shows "ackCount S i cs st = 0"
  using assms
proof (induction cs arbitrary: st)
  case (Cons c cs)
  then have "good (callStore S c st)" "statusJ S i (callStore S c st) = Some s"
    using good_call terminal_stays by auto
  then have "ackCount S i cs (callStore S c st) = 0" using Cons by simp
  moreover have "\<not> accepted (fst (ackJ S now i w v x st))" for now w v x
    using ack_needs_lease [of st now i w v x] Cons.prems by auto
  ultimately show ?case by (auto split: StoreCall.splits)
qed simp

lemma ack_at_most_once:
  assumes "good st" "\<not> list_ex isSweep cs"
  shows "ackCount S i cs st \<le> 1"
  using assms
proof (induction cs arbitrary: st)
  case (Cons c cs)
  have g: "good (callStore S c st)" using Cons.prems good_call by simp
  show ?case
  proof (cases "\<exists>now w v x. c = CAck now i w v x \<and> accepted (fst (ackJ S now i w v x st))")
    case True
    then obtain now w v x where c: "c = CAck now i w v x" "accepted (fst (ackJ S now i w v x st))" by auto
    then have "statusJ S i (callStore S c st) = Some Done"
      using ack_cas [OF Cons.prems(1), of now i w v x _ _ i]
      by (cases "ackJ S now i w v x st") auto
    then have "ackCount S i cs (callStore S c st) = 0"
      using no_ack_when_terminal [OF g] Cons.prems(2) by simp
    then show ?thesis by (auto split: StoreCall.splits)
  next
    case False
    then have "(case c of CAck now i' w v x \<Rightarrow>
        if i' = i \<and> accepted (fst (ackJ S now i' w v x st)) then 1 else 0 | _ \<Rightarrow> 0) = (0::nat)"
      by (auto split: StoreCall.splits)
    then show ?thesis using Cons.IH [OF g] Cons.prems(2) by simp
  qed
qed simp

lemma lease_exclusive:
  assumes "good st" "claimJ S now r st = (js, st')" "j \<in> set js"
    and "ackJ S t (pjId j) w v x st' = (Inr ok, st'')"
  shows "ok \<longleftrightarrow> w = crWorkerId r"
proof -
  have "good st'" using good_call [OF assms(1), of "CClaim now r"] assms(2) by simp
  then show ?thesis using claim_lease [OF assms(1-3)] ack_cas [OF _ assms(4)] by auto
qed

end

end
