(* ===== verification/Serialize.thy ===== *)
theory Serialize
  imports ErrorMarshal JobStore "HOL-Library.Multiset" "HOL-Library.List_Lexorder" "HOL-Library.Char_ord"
begin

text \<open>
  Sources, contexts and cache keys of the loader (\<open>src/loader/serialize.ts\<close>,
  \<open>src/loader/cache-key.ts\<close>): the djb2 hash on 32-bit words, the check of context keys, the
  canonical text of a context, and the key under which the Worker Loader caches an isolate.

  A context value is the tree that the recursion of \<open>canonicalizeContext\<close> walks. Arrays and objects
  carry the identity that the \<open>seen\<close> set compares; a cycle shows as an inner occurrence of the
  identity of an enclosing value. Strings are sequences of code units below 256.
\<close>

section \<open>djb2\<close>

unbundle bit_operations_syntax

definition djb2Step :: "32 word \<Rightarrow> char \<Rightarrow> 32 word" where
  "djb2Step h c = push_bit 5 h + h + word_of_nat (of_char c)"

definition hashSource :: "string \<Rightarrow> string" where
  "hashSource source = renderBase 36 (unat (foldl djb2Step 5381 source))"

section \<open>Context keys\<close>

definition identStart :: "char \<Rightarrow> bool" where
  "identStart c \<longleftrightarrow> (let n = of_char c :: nat in
     65 \<le> n \<and> n \<le> 90 \<or> 97 \<le> n \<and> n \<le> 122 \<or> n = 95 \<or> n = 36)"

definition identPart :: "char \<Rightarrow> bool" where
  "identPart c \<longleftrightarrow> identStart c \<or> (let n = of_char c :: nat in 48 \<le> n \<and> n \<le> 57)"

fun validIdentifier :: "string \<Rightarrow> bool" where
  "validIdentifier [] = False"
| "validIdentifier (c # cs) = (identStart c \<and> list_all identPart cs)"

definition RESERVED_WORDS :: "string list" where
  "RESERVED_WORDS = [''break'', ''case'', ''catch'', ''class'', ''const'', ''continue'', ''debugger'',
     ''default'', ''delete'', ''do'', ''else'', ''export'', ''extends'', ''finally'', ''for'',
     ''function'', ''if'', ''import'', ''in'', ''instanceof'', ''let'', ''new'', ''return'', ''super'',
     ''switch'', ''this'', ''throw'', ''try'', ''typeof'', ''var'', ''void'', ''while'', ''with'',
     ''yield'', ''enum'', ''await'', ''async'', ''true'', ''false'', ''null'', ''undefined'']"

definition quoted :: "string \<Rightarrow> string" where
  "quoted s = [CHR 0x22] @ s @ [CHR 0x22]"

definition assertValidContextKey :: "string \<Rightarrow> ParallelError option" where
  "assertValidContextKey key =
     (if \<not> validIdentifier key then
        Some (SerializationError (''context key '' @ quoted key @ '' is not a valid JavaScript identifier'') None)
      else if key \<in> set RESERVED_WORDS then
        Some (SerializationError (''context key '' @ quoted key @ '' is a reserved word'') None)
      else if startsWith ''Cfp'' key \<or> startsWith ''cfp'' key then
        Some (SerializationError (''context key '' @ quoted key @ '' uses the reserved Cfp* / cfp* prefix'') None)
      else None)"

section \<open>JSON text\<close>

definition hexByte :: "nat \<Rightarrow> string" where
  "hexByte n = [digitChar (n div 16), digitChar (n mod 16)]"

text \<open>One character of \<open>JSON.stringify\<close> on a string.\<close>

definition jsonChar :: "char \<Rightarrow> string" where
  "jsonChar c =
     (let n = of_char c :: nat in
      if n = 34 then [CHR 0x5C, CHR 0x22]
      else if n = 92 then [CHR 0x5C, CHR 0x5C]
      else if n = 8 then [CHR 0x5C, CHR ''b'']
      else if n = 12 then [CHR 0x5C, CHR ''f'']
      else if n = 10 then [CHR 0x5C, CHR ''n'']
      else if n = 13 then [CHR 0x5C, CHR ''r'']
      else if n = 9 then [CHR 0x5C, CHR ''t'']
      else if n < 32 then [CHR 0x5C, CHR ''u'', CHR ''0'', CHR ''0''] @ hexByte n
      else [c])"

definition jsonString :: "string \<Rightarrow> string" where
  "jsonString s = quoted (concat (map jsonChar s))"

section \<open>canonicalizeContext\<close>

text \<open>
  \<open>CNonFinite\<close> stands for \<open>NaN\<close> and the infinities, which \<open>JSON.stringify\<close> writes as \<open>null\<close>.
\<close>

datatype ctxval = CUndef | CNull | CBool bool | CNum int | CNonFinite | CStr string
  | CFunction | CSymbol | CBigInt | CDate | CRegExp | CMapOrSet
  | CArr nat "ctxval list" | CObj nat "(string \<times> ctxval) list"

definition serErr :: "string \<Rightarrow> ParallelError + 'a" where
  "serErr m = Inl (SerializationError m None)"

lemma size_list_sort_key [simp]: "size_list f (sort_key g xs) = size_list f xs"
proof -
  have "size_list f (insort_key g x ys) = Suc (f x + size_list f ys)" for x ys
    by (induction ys) auto
  then show ?thesis by (induction xs) auto
qed

text \<open>
  \<open>stringify\<close> with its \<open>seen\<close> set threaded through; the elements of an array and the fields of an
  object in the order of their sorted keys.
\<close>

function canon :: "nat list \<Rightarrow> ctxval \<Rightarrow> ParallelError + string \<times> nat list"
  and canonElems :: "nat list \<Rightarrow> ctxval list \<Rightarrow> ParallelError + string list \<times> nat list"
  and canonFields :: "nat list \<Rightarrow> (string \<times> ctxval) list \<Rightarrow> ParallelError + string list \<times> nat list" where
  "canon seen CNull = Inr (''null'', seen)"
| "canon seen CUndef = Inr (''null'', seen)"
| "canon seen (CNum i) = Inr (showInt i, seen)"
| "canon seen CNonFinite = Inr (''null'', seen)"
| "canon seen (CBool b) = Inr (if b then ''true'' else ''false'', seen)"
| "canon seen (CStr s) = Inr (jsonString s, seen)"
| "canon seen CFunction = serErr ''context values cannot be functions''"
| "canon seen CSymbol = serErr ''context values cannot be symbol''"
| "canon seen CBigInt = serErr ''context values cannot be bigint''"
| "canon seen CDate = serErr ''context values cannot be Date -- use timestamp number''"
| "canon seen CRegExp = serErr ''context values cannot be RegExp -- use source string''"
| "canon seen CMapOrSet = serErr ''context values cannot be Map/Set -- use plain object/array''"
| "canon seen (CArr r vs) =
     (if r \<in> set seen then serErr ''context values cannot contain circular references''
      else bindE (canonElems (r # seen) vs) (\<lambda>(ss, seen'). Inr (''['' @ join '','' ss @ '']'', seen')))"
| "canon seen (CObj r fs) =
     (if r \<in> set seen then serErr ''context values cannot contain circular references''
      else bindE (canonFields (r # seen) (sort_key fst fs))
             (\<lambda>(ss, seen'). Inr (''{'' @ join '','' ss @ ''}'', seen')))"
| "canonElems seen [] = Inr ([], seen)"
| "canonElems seen (v # vs) =
     bindE (canon seen v) (\<lambda>(s, seen1).
       bindE (canonElems seen1 vs) (\<lambda>(ss, seen2). Inr (s # ss, seen2)))"
| "canonFields seen [] = Inr ([], seen)"
| "canonFields seen ((k, v) # fs) =
     bindE (canon seen v) (\<lambda>(s, seen1).
       bindE (canonFields seen1 fs) (\<lambda>(ss, seen2). Inr ((jsonString k @ '':'' @ s) # ss, seen2)))"
  by pat_completeness auto
termination
  by (relation "measure (\<lambda>x. case x of
      Inl (_, v) \<Rightarrow> size v
    | Inr (Inl (_, vs)) \<Rightarrow> size_list size vs
    | Inr (Inr (_, fs)) \<Rightarrow> size_list (size_prod (\<lambda>_. 0) size) fs)") auto

text \<open>\<open>for (const key of Object.keys(ctx)) assertValidContextKey(key)\<close>: the first failure.\<close>

fun firstBadKey :: "string list \<Rightarrow> ParallelError option" where
  "firstBadKey [] = None"
| "firstBadKey (k # ks) =
     (case assertValidContextKey k of Some e \<Rightarrow> Some e | None \<Rightarrow> firstBadKey ks)"

type_synonym jscontext = "nat \<times> (string \<times> ctxval) list"

definition canonicalizeContext :: "jscontext \<Rightarrow> ParallelError + string" where
  "canonicalizeContext ctx =
     (case firstBadKey (keys (snd ctx)) of
        Some e \<Rightarrow> Inl e
      | None \<Rightarrow> bindE (canon [] (CObj (fst ctx) (snd ctx))) (\<lambda>(s, seen). Inr s))"

section \<open>Cache keys\<close>

definition AUTO_WINDOW_MS :: int where "AUTO_WINDOW_MS = 60000"

record CacheKeyInput =
  ckFnSource :: string
  ckContextHash :: string
  ckStrategy :: CacheKeyStrategy
  ckForceFresh :: bool
  ckTaskSlot :: "nat option"

definition slotSuffix :: "nat option \<Rightarrow> string" where
  "slotSuffix slot = (case slot of None \<Rightarrow> [] | Some i \<Rightarrow> '':slot-'' @ showNat i)"

text \<open>The counter of the module is threaded through.\<close>

definition buildCacheKey :: "int \<Rightarrow> CacheKeyInput \<Rightarrow> nat \<Rightarrow> string \<times> nat" where
  "buildCacheKey now inp counter =
     (let combined = hashSource (ckFnSource inp @ '':'' @ ckContextHash inp) in
      if ckForceFresh inp \<or> ckStrategy inp = Fresh
      then (''cfp:'' @ combined @ '':'' @ showNat counter, Suc counter)
      else if ckStrategy inp = AutoKey
      then (''cfp:'' @ combined @ '':w'' @ showInt (now div AUTO_WINDOW_MS) @ slotSuffix (ckTaskSlot inp), counter)
      else (''cfp:'' @ combined @ slotSuffix (ckTaskSlot inp), counter))"

fun splitOn :: "char \<Rightarrow> string \<Rightarrow> string list" where
  "splitOn d [] = [[]]"
| "splitOn d (c # cs) =
     (if c = d then [] # splitOn d cs
      else case splitOn d cs of [] \<Rightarrow> [[c]] | p # ps \<Rightarrow> (c # p) # ps)"

definition extractFnShapeHash :: "string \<Rightarrow> string option" where
  "extractFnShapeHash cacheKey =
     (case splitOn (CHR '':'') cacheKey of _ # h # _ \<Rightarrow> Some h | _ \<Rightarrow> None)"

section \<open>Lemmas on text\<close>

lemma splitOn_no: "d \<notin> set s \<Longrightarrow> splitOn d s = [s]"
  by (induction s) auto

lemma splitOn_append: "d \<notin> set s \<Longrightarrow> splitOn d (s @ d # t) = s # splitOn d t"
  by (induction s) auto

lemma splitOn_ne [simp]: "splitOn d s \<noteq> []"
  by (induction s) (auto split: list.splits)

lemma digits36: "digitChar ` {..<36} = set ''0123456789abcdefghijklmnopqrstuvwxyz''"
proof -
  have "map digitChar [0..<36] = ''0123456789abcdefghijklmnopqrstuvwxyz''" by code_simp
  then show ?thesis by (metis atLeast_upt list.set_map)
qed

lemma set_hashSource: "set (hashSource s) \<subseteq> set ''0123456789abcdefghijklmnopqrstuvwxyz''"
  using set_renderBase [of 36] by (simp add: hashSource_def digits36)

lemma hashSource_no [simp]: "CHR '':'' \<notin> set (hashSource s)"
  using set_hashSource [of s] by auto

lemma showNat_no_colon [simp]: "CHR '':'' \<notin> set (showNat n)"
  using set_showNat [of n] by auto

lemma showInt_no_colon [simp]: "CHR '':'' \<notin> set (showInt i)"
  by (simp add: showInt_def)

lemma length_renderBase:
  assumes "2 \<le> b" "n < b ^ Suc k"
  shows "length (renderBase b n) \<le> Suc k"
  using assms
proof (induction k arbitrary: n)
  case 0
  then show ?case by (subst renderBase.simps) simp
next
  case (Suc k)
  show ?case
  proof (cases "n < b")
    case False
    have "n div b < b ^ Suc k" using Suc.prems by (simp add: less_mult_imp_div_less mult.commute)
    then show ?thesis using Suc.IH [of "n div b"] Suc.prems False
      by (subst renderBase.simps) simp
  qed (subst renderBase.simps, simp)
qed

text \<open>What a key is made of besides the hash.\<close>

datatype keyShape = FreshShape nat | AutoShape int "nat option" | StableShape "nat option"

definition keyShape :: "int \<Rightarrow> CacheKeyInput \<Rightarrow> nat \<Rightarrow> keyShape" where
  "keyShape now inp counter =
     (if ckForceFresh inp \<or> ckStrategy inp = Fresh then FreshShape counter
      else if ckStrategy inp = AutoKey then AutoShape (now div AUTO_WINDOW_MS) (ckTaskSlot inp)
      else StableShape (ckTaskSlot inp))"

fun shapeParts :: "keyShape \<Rightarrow> string list" where
  "shapeParts (FreshShape n) = [showNat n]"
| "shapeParts (AutoShape w s) = (CHR ''w'' # showInt w) # (case s of None \<Rightarrow> [] | Some i \<Rightarrow> [''slot-'' @ showNat i])"
| "shapeParts (StableShape s) = (case s of None \<Rightarrow> [] | Some i \<Rightarrow> [''slot-'' @ showNat i])"

lemma splitOn_slot:
  "CHR '':'' \<notin> set p \<Longrightarrow> splitOn (CHR '':'') (p @ slotSuffix s) =
     p # (case s of None \<Rightarrow> [] | Some i \<Rightarrow> [''slot-'' @ showNat i])"
  by (cases s) (simp_all add: slotSuffix_def splitOn_no splitOn_append)

lemma splitOn_key:
  "splitOn (CHR '':'') (fst (buildCacheKey now inp c)) =
     ''cfp'' # hashSource (ckFnSource inp @ '':'' @ ckContextHash inp) # shapeParts (keyShape now inp c)"
proof -
  let ?h = "hashSource (ckFnSource inp @ '':'' @ ckContextHash inp)"
  have p: "splitOn (CHR '':'') (''cfp:'' @ r) = ''cfp'' # splitOn (CHR '':'') r" for r by simp
  have h: "splitOn (CHR '':'') (hashSource x @ CHR '':'' # r) = hashSource x # splitOn (CHR '':'') r" for x r
    by (simp add: splitOn_append)
  have w: "splitOn (CHR '':'') (CHR ''w'' # showInt i @ slotSuffix s) =
      (CHR ''w'' # showInt i) # (case s of None \<Rightarrow> [] | Some i \<Rightarrow> [''slot-'' @ showNat i])" for i s
    using splitOn_slot [of "CHR ''w'' # showInt i" s] by simp
  consider (f) "ckForceFresh inp \<or> ckStrategy inp = Fresh"
    | (a) "\<not> ckForceFresh inp" "ckStrategy inp = AutoKey"
    | (s) "\<not> ckForceFresh inp" "ckStrategy inp \<noteq> AutoKey" "ckStrategy inp \<noteq> Fresh" by blast
  then show ?thesis
  proof cases
    case f
    have "splitOn (CHR '':'') (?h @ '':'' @ showNat c) = [?h, showNat c]"
      by (simp add: h splitOn_no del: splitOn.simps)
    then show ?thesis using f by (simp add: buildCacheKey_def keyShape_def Let_def p del: append_Cons)
  next
    case a
    have "splitOn (CHR '':'') (?h @ '':w'' @ showInt i @ slotSuffix s) =
        ?h # (CHR ''w'' # showInt i) # (case s of None \<Rightarrow> [] | Some i \<Rightarrow> [''slot-'' @ showNat i])" for i s
      by (simp add: h w del: splitOn.simps)
    then show ?thesis using a by (simp add: buildCacheKey_def keyShape_def Let_def p del: append_Cons)
  next
    case s
    have "splitOn (CHR '':'') (?h @ slotSuffix x) =
        ?h # (case x of None \<Rightarrow> [] | Some i \<Rightarrow> [''slot-'' @ showNat i])" for x
      by (rule splitOn_slot) simp
    then show ?thesis using s by (simp add: buildCacheKey_def keyShape_def Let_def p del: append_Cons)
  qed
qed

lemma shapeParts_inject: "shapeParts a = shapeParts b \<longleftrightarrow> a = b"
proof -
  have N: "showNat n \<noteq> CHR ''w'' # s" "showNat n \<noteq> CHR ''s'' # s" for n s
    using set_showNat [of n] by (auto dest: arg_cong [where f = set])
  show ?thesis
    by (cases a; cases b) (auto split: option.splits simp: N N [symmetric])
qed

section \<open>The order of keys\<close>

text \<open>The same value up to the order in which the fields of its objects were inserted.\<close>

inductive reordered :: "ctxval \<Rightarrow> ctxval \<Rightarrow> bool" where
  same: "reordered v v"
| elems: "list_all2 reordered vs ws \<Longrightarrow> reordered (CArr r vs) (CArr r ws)"
| fields: "list_all2 (\<lambda>a b. fst a = fst b \<and> reordered (snd a) (snd b)) fs gs \<Longrightarrow> mset gs = mset hs \<Longrightarrow>
    distinct (keys fs) \<Longrightarrow> reordered (CObj r fs) (CObj r hs)"

lemma sort_key_distinct:
  assumes "mset gs = mset hs" "distinct (keys gs)"
  shows "sort_key fst gs = sort_key fst hs"
proof -
  have "inj_on fst (set gs)" using assms(2) by (simp add: distinct_map)
  then show ?thesis using assms(1) by (intro sort_key_inj_key_eq) simp_all
qed

lemma list_all2_sort_key:
  assumes "list_all2 (\<lambda>a b. fst a = fst b \<and> R (snd a) (snd b)) fs gs"
  shows "list_all2 (\<lambda>a b. fst a = fst b \<and> R (snd a) (snd b)) (sort_key fst fs) (sort_key fst gs)"
proof -
  have I: "list_all2 (\<lambda>a b. fst a = fst b \<and> R (snd a) (snd b)) (insort_key fst x xs) (insort_key fst y ys)"
    if "list_all2 (\<lambda>a b. fst a = fst b \<and> R (snd a) (snd b)) xs ys" "fst x = fst y" "R (snd x) (snd y)"
    for x y xs ys
    using that by (induction rule: list_all2_induct) auto
  show ?thesis using assms by (induction rule: list_all2_induct) (auto intro: I)
qed

lemma canonElems_cong:
  "list_all2 (\<lambda>v w. \<forall>seen. canon seen v = canon seen w) vs ws \<Longrightarrow> canonElems seen vs = canonElems seen ws"
  by (induction arbitrary: seen rule: list_all2_induct) (auto intro!: arg_cong [where f = "bindE _"] ext)

lemma canonFields_cong:
  "list_all2 (\<lambda>a b. fst a = fst b \<and> (\<forall>seen. canon seen (snd a) = canon seen (snd b))) fs gs \<Longrightarrow>
   canonFields seen fs = canonFields seen gs"
  by (induction arbitrary: seen rule: list_all2_induct) (auto intro!: arg_cong [where f = "bindE _"] ext)

lemma reordered_canon: "reordered v w \<Longrightarrow> canon seen v = canon seen w"
proof (induction arbitrary: seen rule: reordered.induct)
  case (elems vs ws r)
  then have "list_all2 (\<lambda>v w. \<forall>seen. canon seen v = canon seen w) vs ws"
    by (auto elim: list_all2_mono)
  then show ?case by (simp add: canonElems_cong)
next
  case (fields fs gs hs r)
  have a: "list_all2 (\<lambda>a b. fst a = fst b \<and> (\<forall>seen. canon seen (snd a) = canon seen (snd b))) fs gs"
    using fields(1) by (auto elim: list_all2_mono)
  then have "keys fs = keys gs" by (induction rule: list_all2_induct) auto
  then have "sort_key fst gs = sort_key fst hs" using sort_key_distinct fields(2,3) by metis
  then show ?case using canonFields_cong [OF list_all2_sort_key [OF a]] by simp
qed simp

section \<open>Which contexts are accepted\<close>

text \<open>No function, symbol, bigint, Date, RegExp, Map or Set; the identities that the walk meets.\<close>

fun serializable :: "ctxval \<Rightarrow> bool" where
  "serializable (CArr r vs) \<longleftrightarrow> list_all serializable vs"
| "serializable (CObj r fs) \<longleftrightarrow> list_all (\<lambda>(k, v). serializable v) fs"
| "serializable v \<longleftrightarrow> v \<notin> {CFunction, CSymbol, CBigInt, CDate, CRegExp, CMapOrSet}"

fun refsOf :: "ctxval \<Rightarrow> nat list" where
  "refsOf (CArr r vs) = r # concat (map refsOf vs)"
| "refsOf (CObj r fs) = r # concat (map (\<lambda>(k, v). refsOf v) fs)"
| "refsOf _ = []"

lemma concat_map_sort_key:
  "mset (concat (map f (sort_key g xs))) = mset (concat (map f xs))"
proof -
  have "mset (concat (map f ys)) = (\<Sum>y \<in># mset ys. mset (f y))" for ys
    by (induction ys) auto
  then show ?thesis by simp
qed

lemmas sort_concat_facts =
  concat_map_sort_key [THEN mset_eq_imp_distinct_iff]
  concat_map_sort_key [THEN mset_eq_setD]

lemma canon_accepts:
  "(case canon seen v of Inl e \<Rightarrow> \<not> (serializable v \<and> distinct (refsOf v) \<and> set (refsOf v) \<inter> set seen = {})
    | Inr (s, seen') \<Rightarrow> serializable v \<and> distinct (refsOf v) \<and> set (refsOf v) \<inter> set seen = {} \<and>
        set seen' = set seen \<union> set (refsOf v))"
  "(case canonElems seen vs of
      Inl e \<Rightarrow> \<not> (list_all serializable vs \<and> distinct (concat (map refsOf vs)) \<and>
                 set (concat (map refsOf vs)) \<inter> set seen = {})
    | Inr (s, seen') \<Rightarrow> list_all serializable vs \<and> distinct (concat (map refsOf vs)) \<and>
                 set (concat (map refsOf vs)) \<inter> set seen = {} \<and>
                 set seen' = set seen \<union> set (concat (map refsOf vs)))"
  "(case canonFields seen fs of
      Inl e \<Rightarrow> \<not> (list_all (\<lambda>(k, v). serializable v) fs \<and> distinct (concat (map (\<lambda>(k, v). refsOf v) fs)) \<and>
                 set (concat (map (\<lambda>(k, v). refsOf v) fs)) \<inter> set seen = {})
    | Inr (s, seen') \<Rightarrow> list_all (\<lambda>(k, v). serializable v) fs \<and>
                 distinct (concat (map (\<lambda>(k, v). refsOf v) fs)) \<and>
                 set (concat (map (\<lambda>(k, v). refsOf v) fs)) \<inter> set seen = {} \<and>
                 set seen' = set seen \<union> set (concat (map (\<lambda>(k, v). refsOf v) fs)))"
proof (induction seen v and seen vs and seen fs rule: canon_canonElems_canonFields.induct)
  case (13 seen r vs)
  show ?case
  proof (cases "r \<in> set seen")
    case False
    then show ?thesis using 13 [OF False]
      by (cases "canonElems (r # seen) vs") auto
  qed (simp add: serErr_def)
next
  case (14 seen r fs)
  show ?case
  proof (cases "r \<in> set seen")
    case False
    have L: "list_all P (sort_key fst fs) = list_all P fs" for P :: "string \<times> ctxval \<Rightarrow> bool"
      by (simp add: list_all_iff)
    show ?thesis using 14 [OF False] False unfolding sort_concat_facts L
      by (cases "canonFields (r # seen) (sort_key fst fs)") auto
  qed (simp add: serErr_def)
next
  case (16 seen v vs)
  show ?case
  proof (cases "canon seen v")
    case (Inr p)
    obtain s seen1 where p: "p = (s, seen1)" by force
    obtain F where F: "F = concat (map refsOf vs)" by simp
    show ?thesis using 16(1) 16(2) [of seen1, folded F] Inr p
      by (cases "canonElems seen1 vs", auto simp: F [symmetric])
  qed (use 16(1) in \<open>auto simp: disjoint_iff\<close>)
next
  case (18 seen k v fs)
  show ?case
  proof (cases "canon seen v")
    case (Inr p)
    obtain s seen1 where p: "p = (s, seen1)" by force
    obtain F where F: "F = concat (map (\<lambda>(k, v). refsOf v) fs)" by simp
    show ?thesis using 18(1) 18(2) [of seen1, folded F] Inr p
      by (cases "canonFields seen1 fs", auto simp: F [symmetric])
  qed (use 18(1) in \<open>auto simp: disjoint_iff\<close>)
qed (simp_all add: serErr_def)

lemma firstBadKey_None: "firstBadKey ks = None \<longleftrightarrow> list_all (\<lambda>k. assertValidContextKey k = None) ks"
  by (induction ks) (auto split: option.splits)

lemma reordered_keys: "reordered (CObj r fs) (CObj r gs) \<Longrightarrow> set (keys gs) = set (keys fs)"
proof (erule reordered.cases)
  fix fs' gs' hs' r'
  assume l: "list_all2 (\<lambda>a b. fst a = fst b \<and> reordered (snd a) (snd b)) fs' gs'" and m: "mset gs' = mset hs'"
    and e: "CObj r fs = CObj r' fs'" "CObj r gs = CObj r' hs'"
  have "keys fs' = keys gs'" using l by (induction rule: list_all2_induct) auto
  then show ?thesis using e mset_eq_setD [OF m] by (metis ctxval.inject(5) list.set_map)
qed auto

text \<open>
  C20. A context is accepted exactly when its top-level keys are safe identifiers, it holds no
  function, symbol, bigint, Date, RegExp, Map or Set, and no array or object occurs in it twice. So
  a value that is merely shared between two fields is refused as a circular reference.
\<close>

theorem canonicalize_accepts:
  "isOk (canonicalizeContext (r, fs)) \<longleftrightarrow>
     list_all (\<lambda>k. assertValidContextKey k = None) (keys fs) \<and>
     serializable (CObj r fs) \<and> distinct (refsOf (CObj r fs))"
  using canon_accepts(1) [where seen = "[]" and v = "CObj r fs"] firstBadKey_None [of "keys fs"]
  by (cases "canon [] (CObj r fs)"; cases "firstBadKey (keys fs)")
    (auto simp: canonicalizeContext_def simp del: canon.simps serializable.simps refsOf.simps)

text \<open>
  The canonical text does not depend on the order in which the fields of a context, at any
  depth, were inserted: contexts that differ only in it share their cached isolates.
\<close>

theorem canonicalize_order:
  assumes "reordered (CObj r fs) (CObj r gs)" "canonicalizeContext (r, fs) = Inr s"
  shows "canonicalizeContext (r, gs) = Inr s"
proof -
  have "firstBadKey (keys fs) = None" using assms(2) by (auto simp: canonicalizeContext_def split: option.splits)
  then have "firstBadKey (keys gs) = None"
    using reordered_keys [OF assms(1)] by (simp add: firstBadKey_None list_all_iff)
  then show ?thesis using assms reordered_canon [OF assms(1), of "[]"]
    by (auto simp: canonicalizeContext_def simp del: canon.simps split: option.splits)
qed

theorem canonicalize_order_witness:
  "canonicalizeContext (0, [(''b'', CNum 1), (''a'', CObj 1 [(''y'', CNull), (''x'', CStr ''s'')])]) =
   Inr ([CHR ''{''] @ quoted ''a'' @ '':'' @ [CHR ''{''] @ quoted ''x'' @ '':'' @ quoted ''s'' @ '','' @ quoted ''y'' @
     '':null},'' @ quoted ''b'' @ '':1}'')"
proof (rule canonicalize_order)
  show "reordered (CObj 0 [(''a'', CObj 1 [(''y'', CNull), (''x'', CStr ''s'')]), (''b'', CNum 1)])
      (CObj 0 [(''b'', CNum 1), (''a'', CObj 1 [(''y'', CNull), (''x'', CStr ''s'')])])"
    by (rule fields [OF list_all2_refl]) (auto intro: same)
qed code_simp

section \<open>Properties of cache keys\<close>

text \<open>
  C21. Two submissions share a cached isolate exactly when their sources and contexts have the same
  hash and they agree on the rest of the key: the fresh counter, or the 60 second window and the
  slot, or the slot alone. Keys of different strategies never collide.
\<close>

theorem cacheKey_shared:
  "fst (buildCacheKey now a c) = fst (buildCacheKey now' b c') \<longleftrightarrow>
     hashSource (ckFnSource a @ '':'' @ ckContextHash a) = hashSource (ckFnSource b @ '':'' @ ckContextHash b) \<and>
     keyShape now a c = keyShape now' b c'"
proof -
  have "hashSource (ckFnSource a @ '':'' @ ckContextHash a) = hashSource (ckFnSource b @ '':'' @ ckContextHash b) \<and>
     keyShape now a c = keyShape now' b c' \<Longrightarrow> fst (buildCacheKey now a c) = fst (buildCacheKey now' b c')"
    by (auto simp: buildCacheKey_def keyShape_def Let_def split: if_splits)
  moreover have "fst (buildCacheKey now a c) = fst (buildCacheKey now' b c') \<Longrightarrow>
     hashSource (ckFnSource a @ '':'' @ ckContextHash a) = hashSource (ckFnSource b @ '':'' @ ckContextHash b) \<and>
     keyShape now a c = keyShape now' b c'"
    using splitOn_key [of now a c] splitOn_key [of now' b c'] by (simp add: shapeParts_inject)
  ultimately show ?thesis by blast
qed

text \<open>
  The fn-shape hash can be read back from every cache key, and it has at most seven characters,
  all of them digits or lower-case letters.
\<close>

theorem cacheKey_hash:
  "extractFnShapeHash (fst (buildCacheKey now inp c)) =
     Some (hashSource (ckFnSource inp @ '':'' @ ckContextHash inp)) \<and>
   length (hashSource s) \<le> 7 \<and> set (hashSource s) \<subseteq> set ''0123456789abcdefghijklmnopqrstuvwxyz''"
proof -
  have "unat (foldl djb2Step 5381 s) < 2 ^ 32"
    using unsigned_less [of "foldl djb2Step 5381 s"] by simp
  then have "length (hashSource s) \<le> Suc 6" unfolding hashSource_def
    by (intro length_renderBase) simp_all
  then show ?thesis using set_hashSource
    by (simp add: extractFnShapeHash_def splitOn_key)
qed

end
