(* ===== verification/Cancel.thy ===== *)
theory Cancel
  imports Errors
begin

text \<open>
  Cancellation: the one-shot cancel streams that travel to the isolates
  (\<open>src/transport/cancel-stream.ts\<close>), the signal that the prologue of the generated module builds
  from them (\<open>src/loader/codegen.ts\<close>), and the hierarchical tokens of the public API
  (\<open>src/api/cancel.ts\<close>).

  A stream is represented by what its first read delivers, which is all that any reader in the
  program looks at: \<open>Pending\<close> while nothing has been written, and it may change to one of the others
  later. Encoding and decoding of the reason as UTF-8 are inverse to each other.
\<close>

section \<open>Cancel streams\<close>

datatype Delivery = Pending | Chunk string | Closed | Errored

record CancelStreamWriter =
  csSettled :: bool
  csStream :: Delivery

definition createCancelStream :: CancelStreamWriter where
  "createCancelStream = \<lparr>csSettled = False, csStream = Pending\<rparr>"

definition writerCancel :: "string option \<Rightarrow> CancelStreamWriter \<Rightarrow> CancelStreamWriter" where
  "writerCancel reason w =
     (if csSettled w then w
      else w\<lparr>csSettled := True, csStream := Chunk (nullish reason ''cancelled'')\<rparr>)"

definition writerClose :: "CancelStreamWriter \<Rightarrow> CancelStreamWriter" where
  "writerClose w = (if csSettled w then w else w\<lparr>csSettled := True, csStream := Closed\<rparr>)"

text \<open>The underlying source's \<open>cancel\<close>: the consumer gave up reading.\<close>

definition consumerCancel :: "CancelStreamWriter \<Rightarrow> CancelStreamWriter" where
  "consumerCancel w = w\<lparr>csSettled := True\<rparr>"

text \<open>What the pump of \<open>forkCancelStream\<close> does to one child writer.\<close>

definition pump :: "Delivery \<Rightarrow> CancelStreamWriter \<Rightarrow> CancelStreamWriter" where
  "pump up w =
     (case up of
        Pending \<Rightarrow> w
      | Chunk reason \<Rightarrow> writerCancel (Some reason) w
      | Closed \<Rightarrow> writerClose w
      | Errored \<Rightarrow> writerClose w)"

definition forkCancelStream :: "Delivery option \<Rightarrow> nat \<Rightarrow> Delivery option list" where
  "forkCancelStream upstream n =
     (case upstream of
        None \<Rightarrow> replicate n None
      | Some up \<Rightarrow> map (\<lambda>w. Some (csStream (pump up w))) (replicate n createCancelStream))"

text \<open>
  \<open>cfpMakeAbortSignal\<close> of the generated module: the reason with which \<open>env.signal\<close> aborts, if it does.
  The snapshot of the envelope trips in a microtask, ahead of the stream.
\<close>

definition cfpMakeAbortSignal :: "bool \<times> string option \<Rightarrow> Delivery option \<Rightarrow> string option" where
  "cfpMakeAbortSignal envelopeSignal stream =
     (if fst envelopeSignal then Some (nullish (snd envelopeSignal) ''Cancelled'')
      else case stream of Some (Chunk r) \<Rightarrow> Some r | _ \<Rightarrow> None)"

section \<open>Tokens\<close>

text \<open>
  The tokens of a program live in a store and are named by their index. \<open>ctAborted\<close> is the state of
  the token's controller, \<open>ctChildren\<close> the set of its live children in insertion order. The abort
  listener that \<open>child()\<close> installs on a child (it leaves its parent's set) is part of \<open>cancel\<close>.
\<close>

record CancelToken =
  ctAborted :: bool
  ctRawReason :: "string option"
  ctChildren :: "nat list"

type_synonym tokens = "CancelToken list"

definition freshToken :: CancelToken where
  "freshToken = \<lparr>ctAborted = False, ctRawReason = None, ctChildren = []\<rparr>"

definition newToken :: "tokens \<Rightarrow> nat \<times> tokens" where
  "newToken h = (length h, h @ [freshToken])"

definition leaveParent :: "nat \<Rightarrow> tokens \<Rightarrow> tokens" where
  "leaveParent i h = map (\<lambda>t. t\<lparr>ctChildren := filter (\<lambda>c. c \<noteq> i) (ctChildren t)\<rparr>) h"

definition abortOne :: "string option \<Rightarrow> nat \<Rightarrow> tokens \<Rightarrow> tokens" where
  "abortOne reason i h =
     (let h1 = leaveParent i h
      in h1[i := (h1 ! i)\<lparr>ctAborted := True, ctRawReason := reason, ctChildren := []\<rparr>])"

definition live :: "tokens \<Rightarrow> nat" where
  "live h = length (filter (\<lambda>t. \<not> ctAborted t) h)"

text \<open>
  \<open>cancel(reason)\<close> with its recursion over the children as a stack of tokens still to cancel: a token
  that is aborted already returns at once; otherwise its children come next, in order.
\<close>

function cancelTokens :: "string option \<Rightarrow> nat list \<Rightarrow> tokens \<Rightarrow> tokens" where
  "cancelTokens reason [] h = h"
| "cancelTokens reason (i # stack) h =
     (if length h \<le> i \<or> ctAborted (h ! i) then cancelTokens reason stack h
      else cancelTokens reason (ctChildren (h ! i) @ stack) (abortOne reason i h))"
  by pat_completeness auto

lemma length_abortOne [simp]: "length (abortOne r i h) = length h"
  by (simp add: abortOne_def leaveParent_def Let_def)

lemma nth_abortOne:
  "k < length h \<Longrightarrow> abortOne r i h ! k =
     (if k = i then (h ! k)\<lparr>ctAborted := True, ctRawReason := r, ctChildren := []\<rparr>
      else (h ! k)\<lparr>ctChildren := filter (\<lambda>c. c \<noteq> i) (ctChildren (h ! k))\<rparr>)"
  by (simp add: abortOne_def leaveParent_def Let_def nth_list_update)

lemma live_alt: "live h = card {k. k < length h \<and> \<not> ctAborted (h ! k)}"
  by (simp add: live_def length_filter_conv_card)

lemma live_abortOne:
  assumes "i < length h" "\<not> ctAborted (h ! i)"
  shows "live (abortOne r i h) < live h"
proof -
  let ?L = "\<lambda>g. {k. k < length g \<and> \<not> ctAborted (g ! k)}"
  have ab: "ctAborted (abortOne r i h ! k) \<longleftrightarrow> k = i \<or> ctAborted (h ! k)" if "k < length h" for k
    using nth_abortOne [OF that, of r i] by simp
  have "?L (abortOne r i h) = ?L h - {i}" using ab by auto
  moreover have "i \<in> ?L h" using assms by simp
  moreover have "finite (?L h)" by simp
  ultimately show ?thesis unfolding live_alt by (metis card_Diff1_less)
qed

termination cancelTokens
proof (relation "inv_image (less_than <*lex*> less_than) (\<lambda>(r, stack, h). (live h, length stack))", goal_cases)
  case (3 reason i stack h)
  then show ?case using live_abortOne [of i h reason] by simp
qed auto

definition cancel :: "nat \<Rightarrow> string option \<Rightarrow> tokens \<Rightarrow> tokens" where
  "cancel i reason h = cancelTokens reason [i] h"

text \<open>\<open>reasonOf(signal)\<close> of an aborted token: the message of its \<open>CancelledError\<close>.\<close>

definition signalReason :: "CancelToken \<Rightarrow> string option" where
  "signalReason t = (if ctAborted t then Some (errMessage (CancelledError (ctRawReason t) None)) else None)"

definition childToken :: "nat \<Rightarrow> tokens \<Rightarrow> nat \<times> tokens" where
  "childToken p h =
     (case newToken h of (c, h1) \<Rightarrow>
        if ctAborted (h ! p) then (c, cancel c (signalReason (h ! p)) h1)
        else (c, h1[p := (h1 ! p)\<lparr>ctChildren := ctChildren (h1 ! p) @ [c]\<rparr>]))"

definition poll :: "nat \<Rightarrow> tokens \<Rightarrow> bool \<times> string option" where
  "poll i h = (ctAborted (h ! i), ctRawReason (h ! i))"

text \<open>\<open>CancelToken.withTimeout(ms)\<close>; the timer is an event that cancels with the reason in the pair.\<close>

definition withTimeout :: "int \<Rightarrow> tokens \<Rightarrow> nat \<times> tokens \<times> string option" where
  "withTimeout ms h =
     (case newToken h of (t, h1) \<Rightarrow>
        let why = ''timeout after '' @ showInt ms @ ''ms'' in
        if ms \<le> 0 then (t, cancel t (Some why) h1, None) else (t, h1, Some why))"

section \<open>Who is cancelled\<close>

definition childRel :: "tokens \<Rightarrow> (nat \<times> nat) set" where
  "childRel h = {(a, b). a < length h \<and> b \<in> set (ctChildren (h ! a))}"

text \<open>An aborted token has dropped its children.\<close>

definition wfTokens :: "tokens \<Rightarrow> bool" where
  "wfTokens h \<longleftrightarrow> list_all (\<lambda>t. ctAborted t \<longrightarrow> ctChildren t = []) h"

lemma wfTokens_nth: "wfTokens h \<Longrightarrow> k < length h \<Longrightarrow> ctAborted (h ! k) \<Longrightarrow> ctChildren (h ! k) = []"
  by (simp add: wfTokens_def list_all_length)

lemma wfTokens_abortOne [invs]: "wfTokens h \<Longrightarrow> wfTokens (abortOne r i h)"
  by (auto simp: wfTokens_def list_all_length nth_abortOne)

lemma childRel_abortOne:
  "childRel (abortOne r i h) = {(a, b) \<in> childRel h. a \<noteq> i \<and> b \<noteq> i}"
proof -
  have "(a, b) \<in> childRel (abortOne r i h) \<longleftrightarrow> (a, b) \<in> childRel h \<and> a \<noteq> i \<and> b \<noteq> i" for a b
  proof (cases "a < length h")
    case True
    then show ?thesis by (auto simp: childRel_def nth_abortOne [OF True] split: if_splits)
  qed (simp add: childRel_def)
  then show ?thesis by auto
qed

lemma rtrancl_avoid:
  assumes "(x, k) \<in> E\<^sup>*"
  shows "k = i \<or> (x, k) \<in> {(a, b) \<in> E. a \<noteq> i \<and> b \<noteq> i}\<^sup>* \<or>
     (\<exists>c. (i, c) \<in> E \<and> (c, k) \<in> {(a, b) \<in> E. a \<noteq> i \<and> b \<noteq> i}\<^sup>*)"
  using assms
proof (induction rule: rtrancl_induct)
  case (step y z)
  show ?case
  proof (cases "z = i \<or> y = i")
    case True
    then show ?thesis using step.hyps(2) by blast
  next
    case False
    then have "(y, z) \<in> {(a, b) \<in> E. a \<noteq> i \<and> b \<noteq> i}" using step.hyps(2) by blast
    then show ?thesis using step.IH False by (meson rtrancl.rtrancl_into_rtrancl)
  qed
qed blast

lemma reach_step:
  assumes "i < length h"
  shows "(\<exists>x \<in> set (i # stack). (x, k) \<in> (childRel h)\<^sup>*) \<longleftrightarrow>
     k = i \<or> (\<exists>x \<in> set (ctChildren (h ! i) @ stack). (x, k) \<in> (childRel (abortOne r i h))\<^sup>*)"
proof -
  let ?E = "childRel h" and ?F = "childRel (abortOne r i h)"
  have F: "?F = {(a, b) \<in> ?E. a \<noteq> i \<and> b \<noteq> i}" by (rule childRel_abortOne)
  have sub: "(x, k) \<in> ?F\<^sup>* \<Longrightarrow> (x, k) \<in> ?E\<^sup>*" for x
    by (rule rtrancl_mono [THEN subsetD]) (auto simp: F)
  have ch: "(i, c) \<in> ?E \<longleftrightarrow> c \<in> set (ctChildren (h ! i))" for c
    using assms by (simp add: childRel_def)
  show ?thesis
  proof
    assume "\<exists>x \<in> set (i # stack). (x, k) \<in> ?E\<^sup>*"
    then obtain x where x: "x = i \<or> x \<in> set stack" "(x, k) \<in> ?E\<^sup>*" by auto
    have "(i, k) \<in> ?F\<^sup>* \<Longrightarrow> k = i" by (auto simp: F elim: converse_rtranclE)
    then show "k = i \<or> (\<exists>x \<in> set (ctChildren (h ! i) @ stack). (x, k) \<in> ?F\<^sup>*)"
      using rtrancl_avoid [OF x(2), of i] x(1) unfolding F [symmetric] ch by auto
  next
    assume "k = i \<or> (\<exists>x \<in> set (ctChildren (h ! i) @ stack). (x, k) \<in> ?F\<^sup>*)"
    moreover have "(i, k) \<in> ?E\<^sup>*" if "c \<in> set (ctChildren (h ! i))" "(c, k) \<in> ?F\<^sup>*" for c
      using that sub ch by (meson converse_rtrancl_into_rtrancl)
    ultimately show "\<exists>x \<in> set (i # stack). (x, k) \<in> ?E\<^sup>*" using sub by auto
  qed
qed

lemma reach_aborted:
  assumes "wfTokens h" "length h \<le> i \<or> ctAborted (h ! i)" "(i, k) \<in> (childRel h)\<^sup>*"
  shows "k = i"
  using assms(3)
proof (cases rule: converse_rtranclE)
  case (step y)
  then show ?thesis using assms(1,2) wfTokens_nth [of h i] by (auto simp: childRel_def)
qed simp

lemma cancelTokens_exact:
  assumes "wfTokens h" "k < length h"
  shows "wfTokens (cancelTokens r stack h) \<and> length (cancelTokens r stack h) = length h \<and>
    ctAborted (cancelTokens r stack h ! k) =
      (ctAborted (h ! k) \<or> (\<exists>x \<in> set stack. (x, k) \<in> (childRel h)\<^sup>*)) \<and>
    ctRawReason (cancelTokens r stack h ! k) =
      (if \<not> ctAborted (h ! k) \<and> (\<exists>x \<in> set stack. (x, k) \<in> (childRel h)\<^sup>*) then r
       else ctRawReason (h ! k))"
  using assms
proof (induction r stack h rule: cancelTokens.induct)
  case (2 reason i stack h)
  show ?case
  proof (cases "length h \<le> i \<or> ctAborted (h ! i)")
    case True
    have "(i, k) \<in> (childRel h)\<^sup>* \<Longrightarrow> ctAborted (h ! k)"
      using reach_aborted [OF 2(3) True, of k] True 2(4) by (metis not_le)
    then show ?thesis using True 2(1) [OF True 2(3,4)] by auto
  next
    case False
    then have i: "i < length h" "\<not> ctAborted (h ! i)" by auto
    have "ctAborted (abortOne reason i h ! k) = (k = i \<or> ctAborted (h ! k))"
      "ctRawReason (abortOne reason i h ! k) = (if k = i then reason else ctRawReason (h ! k))"
      using nth_abortOne [OF 2(4), of reason i] by auto
    then show ?thesis
      using 2(2) [OF False wfTokens_abortOne [OF 2(3)]] 2(4) i False
        reach_step [OF i(1), of stack k reason]
      by (auto simp del: set_append)
  qed
qed simp

lemma wfTokens_new [invs]: "wfTokens h \<Longrightarrow> wfTokens (snd (newToken h))"
  by (simp add: wfTokens_def newToken_def freshToken_def)

lemma wfTokens_cancel [invs]: "wfTokens h \<Longrightarrow> wfTokens (cancel i r h)"
proof (cases "h = []")
  case False
  moreover assume "wfTokens h"
  ultimately show ?thesis using cancelTokens_exact [of h 0 r "[i]"] by (simp add: cancel_def)
qed (simp add: cancel_def)

lemma wfTokens_child [invs]: "wfTokens h \<Longrightarrow> p < length h \<Longrightarrow> wfTokens (snd (childToken p h))"
  using wfTokens_new [of h] wfTokens_cancel [of "snd (newToken h)"]
  by (auto simp: childToken_def newToken_def wfTokens_def list_all_length nth_list_update nth_append)

text \<open>
  C23. \<open>cancel\<close> always terminates and reaches exactly the token and its live descendants: those are
  aborted with the given reason, every other token keeps its state, and a token that was aborted
  before keeps its first reason.
\<close>

theorem cancel_exact:
  assumes "wfTokens h" "k < length h"
  shows "poll k (cancel i reason h) =
     (if \<not> ctAborted (h ! k) \<and> (i, k) \<in> (childRel h)\<^sup>* then (True, reason) else poll k h)"
  using cancelTokens_exact [OF assms, of reason "[i]"] by (auto simp: poll_def cancel_def)

theorem cancel_exact_witness:
  "poll 1 (cancel 0 (Some ''bye'') (snd (childToken 0 (snd (newToken []))))) = (True, Some ''bye'')"
proof -
  let ?h = "snd (childToken 0 (snd (newToken [])))"
  have w: "wfTokens ?h"
    by (intro wfTokens_child wfTokens_new) (simp_all add: wfTokens_def newToken_def)
  have l: "1 < length ?h" and a: "\<not> ctAborted (?h ! 1)" and c: "1 \<in> set (ctChildren (?h ! 0))" by code_simp+
  have "(0, 1) \<in> (childRel ?h)\<^sup>*" using c l by (intro r_into_rtrancl) (auto simp: childRel_def)
  then show ?thesis using cancel_exact [OF w l] a by simp
qed

text \<open>
  A child made after the cancellation is born cancelled, but with the message of the parent's
  error as its reason, so the reason differs from the one an earlier child sees.
\<close>

lemma late_child:
  assumes "p < length h" "ctAborted (h ! p)"
  shows "poll (fst (childToken p h)) (snd (childToken p h)) =
     (True, Some (errMessage (CancelledError (ctRawReason (h ! p)) None)))"
  using assms
  by (simp add: childToken_def newToken_def poll_def cancel_def nth_append freshToken_def signalReason_def
      nth_abortOne)

section \<open>Forks\<close>

lemma fork_some: "forkCancelStream (Some up) n = replicate n (Some (if up = Errored then Closed else up))"
  by (cases up) (simp_all add: forkCancelStream_def pump_def createCancelStream_def writerCancel_def
      writerClose_def)

lemma length_fork [simp]: "length (forkCancelStream up n) = n"
  by (cases up) (simp_all add: forkCancelStream_def)

lemma nth_fork:
  "i < n \<Longrightarrow> forkCancelStream up n ! i = map_option (\<lambda>u. if u = Errored then Closed else u) up"
  by (cases up) (simp_all add: fork_some forkCancelStream_def [of None])

end
