(* ===== verification/Sandbox.thy ===== *)
theory Sandbox
  imports Serialize Cancel
begin

text \<open>
  What may cross into a loaded isolate: the binding filter (\<open>src/loader/sandbox.ts\<close>), the bindings
  declared on a pool (\<open>src/api/bindings.ts\<close>), the wire shape of the worker options
  (\<open>src/coordinator/internal.ts\<close>), and the checks on the value that comes back
  (\<open>src/loader/return-validator.ts\<close>). An \<open>env\<close> is a dictionary of its own properties.
\<close>

section \<open>Bindings\<close>

text \<open>\<open>Fetcher\<close>: a binding with a \<open>fetch\<close> method; \<open>StreamBinding\<close>: the cancel stream in an isolate's env.\<close>

datatype binding = Fetcher string | PlainBinding jsval | StreamBinding Delivery

type_synonym jsenv = "(string \<times> binding) list"

definition isUpper :: "char \<Rightarrow> bool" where
  "isUpper c \<longleftrightarrow> (let n = of_char c :: nat in 65 \<le> n \<and> n \<le> 90)"

definition isLibraryInternalKey :: "string \<Rightarrow> bool" where
  "isLibraryInternalKey key \<longleftrightarrow>
     startsWith ''Cfp'' key \<and> 3 < length key \<and> isUpper (key ! 3) \<or> startsWith ''cfp'' key"

definition NON_CLONEABLE_BINDINGS :: "string list" where
  "NON_CLONEABLE_BINDINGS = [''LOADER'']"

definition isUnforwardableBindingKey :: "string \<Rightarrow> bool" where
  "isUnforwardableBindingKey key \<longleftrightarrow> isLibraryInternalKey key \<or> key \<in> set NON_CLONEABLE_BINDINGS"

definition sanitizeBindings :: "jsenv option \<Rightarrow> string list option \<Rightarrow> jsenv" where
  "sanitizeBindings bindings allowList =
     (case bindings of
        None \<Rightarrow> []
      | Some env \<Rightarrow>
          fold (\<lambda>(key, value) out.
              if isUnforwardableBindingKey key then out
              else case allowList of
                     Some allow \<Rightarrow> if key \<in> set allow then AList.update key value out else out
                   | None \<Rightarrow> AList.update key value out) env [])"

definition assertNoLibraryInternalBindings :: "jsenv option \<Rightarrow> ParallelError option" where
  "assertNoLibraryInternalBindings bindings =
     (case bindings of
        None \<Rightarrow> None
      | Some env \<Rightarrow>
          (case find isLibraryInternalKey (keys env) of
             None \<Rightarrow> None
           | Some key \<Rightarrow> Some (BindingError
               (''Binding '' @ [CHR 0x27] @ key @ [CHR 0x27] @ '' is library-internal and cannot be forwarded to '' @
                ''a dynamic worker. Remove it from `bindings:`.'') None)))"

definition pickBindings :: "jsenv \<Rightarrow> string list \<Rightarrow> jsenv" where
  "pickBindings env ks =
     fold (\<lambda>key out. case map_of env key of Some v \<Rightarrow> AList.update key v out | None \<Rightarrow> out) ks []"

definition bindingAllowList :: "jsenv option \<Rightarrow> string list option" where
  "bindingAllowList bindings = map_option keys bindings"

section \<open>Worker options\<close>

text \<open>
  \<open>globalOutbound\<close> of an options object: no such property, the property \<open>undefined\<close>, \<open>null\<close>, or a
  service stub.
\<close>

datatype outbound = OutAbsent | OutUndefined | OutNull | OutStub string

record WorkerOptions =
  woCompatibilityDate :: "string option"
  woCompatibilityFlags :: "string list option"
  woGlobalOutbound :: outbound
  woTails :: "string list option"
  woLimits :: "(int option \<times> int option) option"
  woTailBindingName :: "string option"

datatype wireOutbound = Inherit | Sandboxed

record WireWorkerOptions =
  wwCompatibilityDate :: "string option"
  wwCompatibilityFlags :: "string list option"
  wwGlobalOutbound :: "wireOutbound option"
  wwLimits :: "(int option \<times> int option) option"
  wwTailBindingName :: "string option"

definition wireToWorkerOptions :: "WireWorkerOptions option \<Rightarrow> jsenv option \<Rightarrow> WorkerOptions option" where
  "wireToWorkerOptions wire env =
     (case wire of
        None \<Rightarrow> None
      | Some w \<Rightarrow>
          Some \<lparr>woCompatibilityDate = wwCompatibilityDate w, woCompatibilityFlags = wwCompatibilityFlags w,
                woGlobalOutbound = (case wwGlobalOutbound w of
                    Some Sandboxed \<Rightarrow> OutNull | Some Inherit \<Rightarrow> OutUndefined | None \<Rightarrow> OutNull),
                woTails = (case env of
                    None \<Rightarrow> None
                  | Some e \<Rightarrow>
                      if nullish (wwTailBindingName w) [] = [] then None
                      else case map_of e (nullish (wwTailBindingName w) []) of
                             Some (Fetcher s) \<Rightarrow> Some [s] | _ \<Rightarrow> None),
                woLimits = wwLimits w, woTailBindingName = None\<rparr>)"

definition workerOptionsToWire :: "WorkerOptions option \<Rightarrow> WireWorkerOptions option" where
  "workerOptionsToWire opts =
     (case opts of
        None \<Rightarrow> None
      | Some w \<Rightarrow>
          Some \<lparr>wwCompatibilityDate = woCompatibilityDate w, wwCompatibilityFlags = woCompatibilityFlags w,
                wwGlobalOutbound = Some (case woGlobalOutbound w of
                    OutNull \<Rightarrow> Sandboxed | OutUndefined \<Rightarrow> Inherit | OutAbsent \<Rightarrow> Inherit
                  | OutStub s \<Rightarrow> Sandboxed),
                wwLimits = woLimits w, wwTailBindingName = woTailBindingName w\<rparr>)"

section \<open>Returned values\<close>

text \<open>
  The values a user function can return, as the size estimate sees them. Composite values carry the
  identity that the \<open>seen\<close> set compares; \<open>RObject\<close> also has the name of its prototype's constructor.
\<close>

datatype rval = RNull | RUndef | RBool bool | RNumber int | RBigInt int | RString string | RSymbol
  | RFunction | RBytes nat | RDate int | RRegExp string | RStream
  | RMap nat "(rval \<times> rval) list" | RSet nat "rval list" | RArray nat "rval list"
  | RObject nat string "(string \<times> rval) list"

definition HARD_RPC_PAYLOAD_BYTES :: nat where
  "HARD_RPC_PAYLOAD_BYTES = 33554432"

function estimateBytes :: "nat list \<Rightarrow> rval \<Rightarrow> nat \<times> nat list"
  and estimateList :: "nat list \<Rightarrow> rval list \<Rightarrow> nat \<times> nat list"
  and estimatePairs :: "nat list \<Rightarrow> (rval \<times> rval) list \<Rightarrow> nat \<times> nat list"
  and estimateFields :: "nat list \<Rightarrow> (string \<times> rval) list \<Rightarrow> nat \<times> nat list" where
  "estimateBytes seen RNull = (4, seen)"
| "estimateBytes seen RUndef = (4, seen)"
| "estimateBytes seen (RBool b) = (4, seen)"
| "estimateBytes seen (RNumber i) = (8, seen)"
| "estimateBytes seen (RBigInt i) = (16, seen)"
| "estimateBytes seen (RString s) = (2 + length s * 2, seen)"
| "estimateBytes seen RSymbol = (0, seen)"
| "estimateBytes seen RFunction = (0, seen)"
| "estimateBytes seen (RBytes n) = (n, seen)"
| "estimateBytes seen (RDate t) = (16, seen)"
| "estimateBytes seen (RRegExp s) = (32, seen)"
| "estimateBytes seen RStream = (16, seen)"
| "estimateBytes seen (RMap r kvs) =
     (if r \<in> set seen then (0, seen)
      else case estimatePairs (r # seen) kvs of (n, seen') \<Rightarrow> (32 + n, seen'))"
| "estimateBytes seen (RSet r vs) =
     (if r \<in> set seen then (0, seen)
      else case estimateList (r # seen) vs of (n, seen') \<Rightarrow> (32 + n, seen'))"
| "estimateBytes seen (RArray r vs) =
     (if r \<in> set seen then (0, seen)
      else case estimateList (r # seen) vs of (n, seen') \<Rightarrow> (16 + n, seen'))"
| "estimateBytes seen (RObject r c fs) =
     (if r \<in> set seen then (0, seen)
      else case estimateFields (r # seen) fs of (n, seen') \<Rightarrow> (16 + n, seen'))"
| "estimateList seen [] = (0, seen)"
| "estimateList seen (v # vs) =
     (case estimateBytes seen v of (m, seen1) \<Rightarrow>
        case estimateList seen1 vs of (n, seen2) \<Rightarrow> (m + n, seen2))"
| "estimatePairs seen [] = (0, seen)"
| "estimatePairs seen ((k, v) # kvs) =
     (case estimateBytes seen k of (l, seen1) \<Rightarrow>
        case estimateBytes seen1 v of (m, seen2) \<Rightarrow>
          case estimatePairs seen2 kvs of (n, seen3) \<Rightarrow> (l + m + n, seen3))"
| "estimateFields seen [] = (0, seen)"
| "estimateFields seen ((k, v) # fs) =
     (case estimateBytes seen v of (m, seen1) \<Rightarrow>
        case estimateFields seen1 fs of (n, seen2) \<Rightarrow> (length k * 2 + m + n, seen2))"
  by pat_completeness auto
termination
  by (relation "measure (\<lambda>x. case x of
      Inl (Inl (_, v)) \<Rightarrow> size v
    | Inl (Inr (_, vs)) \<Rightarrow> size_list size vs
    | Inr (Inl (_, kvs)) \<Rightarrow> size_list (size_prod size size) kvs
    | Inr (Inr (_, fs)) \<Rightarrow> size_list (size_prod (\<lambda>_. 0) size) fs)") auto

definition validateReturn :: "rval \<Rightarrow> ParallelError + rval" where
  "validateReturn v =
     (if v = RStream then Inr v
      else let bytes = fst (estimateBytes [] v) in
           if HARD_RPC_PAYLOAD_BYTES < bytes then Inl (ReturnTooLargeError (int bytes) None) else Inr v)"

fun rejectIfRpcStub :: "rval \<Rightarrow> ParallelError option" where
  "rejectIfRpcStub (RObject r ctor fs) =
     (if ctor \<in> set [''RpcStub'', ''RpcTarget'', ''RpcPromise'']
      then Some (SerializationError ''returned values cannot include RPC stubs'' None) else None)"
| "rejectIfRpcStub _ = None"

section \<open>Lemmas\<close>

lemma image_fst_update: "fst ` set (AList.update k v m) = insert k (fst ` set m)"
proof -
  have "set (keys (AList.update k v m)) = insert k (set (keys m))" by (auto simp: keys_update)
  then show ?thesis by simp
qed

lemma keys_fold_update:
  "set (keys (fold (\<lambda>(k, v) out. if P k then AList.update k v out else out) env out)) =
   set (keys out) \<union> {k \<in> set (keys env). P k}"
proof (induction env arbitrary: out)
  case (Cons kv env)
  obtain a b where kv: "kv = (a, b)" by force
  have "set (keys (if P a then AList.update a b out else out)) =
      (if P a then insert a (set (keys out)) else set (keys out))"
    using image_fst_update [of a b out] by simp
  then show ?case using Cons [of "if P a then AList.update a b out else out"]
    by (simp add: kv) auto
qed simp

lemma distinct_fold_update:
  "distinct (keys out) \<Longrightarrow>
   distinct (keys (fold (\<lambda>(k, v) out. if P k then AList.update k v out else out) env out))"
  by (induction env arbitrary: out) (auto simp: distinct_update split: prod.splits)

lemma map_of_fold_update:
  "distinct (keys env) \<Longrightarrow>
   map_of (fold (\<lambda>(k, v) out. if P k then AList.update k v out else out) env out) k =
     (if P k \<and> k \<in> set (keys env) then map_of env k else map_of out k)"
proof (induction env arbitrary: out)
  case (Cons kv env)
  then show ?case by (cases kv) (auto simp: image_iff)
qed simp

definition forwardable :: "string list option \<Rightarrow> string \<Rightarrow> bool" where
  "forwardable allowList k \<longleftrightarrow>
     \<not> isUnforwardableBindingKey k \<and> (case allowList of None \<Rightarrow> True | Some allow \<Rightarrow> k \<in> set allow)"

lemma sanitizeBindings_fold:
  "sanitizeBindings (Some env) allowList =
     fold (\<lambda>(k, v) out. if forwardable allowList k then AList.update k v out else out) env []"
proof -
  have "(\<lambda>(key, value) out. if isUnforwardableBindingKey key then out
          else case allowList of
                 Some allow \<Rightarrow> if key \<in> set allow then AList.update key value out else out
               | None \<Rightarrow> AList.update key value out) =
        (\<lambda>(k, v) out. if forwardable allowList k then AList.update k v out else out)"
    by (intro ext) (auto simp: forwardable_def split: option.splits)
  then show ?thesis unfolding sanitizeBindings_def option.case by (rule arg_cong)
qed

lemma sanitizeBindings_lookup:
  "distinct (keys env) \<Longrightarrow> map_of (sanitizeBindings (Some env) allowList) k =
     (if forwardable allowList k then map_of env k else None)"
  using map_of_eq_None_iff [of env k] by (auto simp: sanitizeBindings_fold map_of_fold_update)

lemma sanitizeBindings_keys:
  "k \<in> set (keys (sanitizeBindings b allowList)) \<Longrightarrow> forwardable allowList k"
proof (cases b)
  case (Some env)
  assume "k \<in> set (keys (sanitizeBindings b allowList))"
  then show ?thesis unfolding Some sanitizeBindings_fold keys_fold_update by simp
qed (simp add: sanitizeBindings_def)

lemma pickBindings_lookup: "map_of (pickBindings env ks) k = (if k \<in> set ks then map_of env k else None)"
proof -
  have "map_of (fold (\<lambda>key out. case map_of env key of Some v \<Rightarrow> AList.update key v out | None \<Rightarrow> out) ks out) k =
      (if k \<in> set ks \<and> map_of env k \<noteq> None then map_of env k else map_of out k)" for out
    by (induction ks arbitrary: out) (auto split: option.splits)
  then show ?thesis by (auto simp: pickBindings_def)
qed

lemma wire_options:
  "wireToWorkerOptions (workerOptionsToWire (Some w)) (Some env) =
     Some (w\<lparr>woGlobalOutbound := (if woGlobalOutbound w \<in> {OutNull} \<union> range OutStub then OutNull else OutUndefined),
             woTails := (if nullish (woTailBindingName w) [] = [] then None
                         else case map_of env (nullish (woTailBindingName w) []) of
                                Some (Fetcher s) \<Rightarrow> Some [s] | _ \<Rightarrow> None),
             woTailBindingName := None\<rparr>)"
  by (cases "woGlobalOutbound w") (auto simp: wireToWorkerOptions_def workerOptionsToWire_def)

end
