(* ===== verification/Semaphore.thy ===== *)
theory Semaphore
  imports Prelude
begin

text \<open>
  The per-isolate loader budget (\<open>src/loader/loader-budget.ts\<close>): the FIFO semaphore that every
  \<open>LoaderRunner\<close> call holds while its isolate runs, and its lookup on \<open>globalThis\<close>. A call is cut at
  its only suspension point: it either gets a permit at once or waits for a hand-over. The client
  view, a set of calls of which some run and some wait, is stated over the interface \<open>permits\<close> and
  refined to a specification that keeps the earliest calls running.
\<close>

section \<open>The semaphore\<close>

datatype CallSiteKind = FetchHandler | DoMethod

fun defaultCapFor :: "CallSiteKind \<Rightarrow> int" where
  "defaultCapFor DoMethod = 4"
| "defaultCapFor FetchHandler = 3"

text \<open>A waiter is represented by the call that its \<open>resolve\<close> continues.\<close>

record LoaderSemaphore =
  smCap :: nat
  smInFlight :: nat
  smWaiters :: "nat list"

text \<open>\<open>globalThis\<close> of one isolate.\<close>

record LoaderBudgetGlobals =
  cfpLoaderCap :: "int option"
  cfpLoaderSem :: "LoaderSemaphore option"

definition getMeasuredCap :: "CallSiteKind \<Rightarrow> LoaderBudgetGlobals \<Rightarrow> int" where
  "getMeasuredCap kind g =
     (case cfpLoaderCap g of
        Some m \<Rightarrow> if 0 < m then m else defaultCapFor kind
      | None \<Rightarrow> defaultCapFor kind)"

definition newSemaphore :: "int \<Rightarrow> string + LoaderSemaphore" where
  "newSemaphore cap =
     (if cap < 1 then Inl (''LoaderSemaphore cap must be >= 1, got '' @ showInt cap)
      else Inr \<lparr>smCap = nat cap, smInFlight = 0, smWaiters = []\<rparr>)"

text \<open>\<open>True\<close>: the permit is granted at once.\<close>

definition acquire :: "nat \<Rightarrow> LoaderSemaphore \<Rightarrow> bool \<times> LoaderSemaphore" where
  "acquire i s =
     (if smInFlight s < smCap s then (True, s\<lparr>smInFlight := smInFlight s + 1\<rparr>)
      else (False, s\<lparr>smWaiters := smWaiters s @ [i]\<rparr>))"

text \<open>The call that is resumed, if one was waiting.\<close>

definition release :: "LoaderSemaphore \<Rightarrow> nat option \<times> LoaderSemaphore" where
  "release s =
     (case smWaiters s of
        nxt # ws \<Rightarrow> (Some nxt, s\<lparr>smWaiters := ws\<rparr>)
      | [] \<Rightarrow> (None, s\<lparr>smInFlight := smInFlight s - 1\<rparr>))"

definition isolateSemaphore :: "CallSiteKind \<Rightarrow> LoaderBudgetGlobals \<Rightarrow>
    (string + LoaderSemaphore) \<times> LoaderBudgetGlobals" where
  "isolateSemaphore kind g =
     (case cfpLoaderSem g of
        Some s \<Rightarrow> (Inr s, g)
      | None \<Rightarrow>
          (case newSemaphore (getMeasuredCap kind g) of
             Inl e \<Rightarrow> (Inl e, g)
           | Inr s \<Rightarrow> (Inr s, g\<lparr>cfpLoaderSem := Some s\<rparr>)))"

section \<open>Calls through \<open>run\<close>\<close>

text \<open>
  \<open>run(task)\<close> of the calls of an isolate: a call arrives (and starts or waits), and the task of a
  running call settles, whatever its outcome (the \<open>finally\<close> of \<open>run\<close>). \<open>R\<close> lists the calls whose
  task runs. A settlement of a call that does not run does not occur.
\<close>

datatype SemEvent = Arrive nat | Settle nat

fun callEvent :: "(nat \<Rightarrow> 's \<Rightarrow> bool \<times> 's) \<Rightarrow> ('s \<Rightarrow> nat option \<times> 's) \<Rightarrow> SemEvent \<Rightarrow>
    's \<times> nat list \<Rightarrow> 's \<times> nat list" where
  "callEvent acq rel (Arrive i) (s, R) =
     (case acq i s of (granted, s') \<Rightarrow> (s', if granted then R @ [i] else R))"
| "callEvent acq rel (Settle i) (s, R) =
     (if i \<in> set R then
        (case rel s of (nxt, s') \<Rightarrow>
           (s', remove1 i R @ (case nxt of None \<Rightarrow> [] | Some j \<Rightarrow> [j])))
      else (s, R))"

section \<open>Specification\<close>

text \<open>At most \<open>cap\<close> calls run; whenever there is room the call that has waited longest starts.\<close>

definition startWaiting :: "nat \<Rightarrow> nat list \<times> nat list \<Rightarrow> nat list \<times> nat list" where
  "startWaiting cap q =
     (case q of (R, W) \<Rightarrow> (R @ take (cap - length R) W, drop (cap - length R) W))"

fun specEvent :: "nat \<Rightarrow> SemEvent \<Rightarrow> nat list \<times> nat list \<Rightarrow> nat list \<times> nat list" where
  "specEvent cap (Arrive i) (R, W) = startWaiting cap (R, W @ [i])"
| "specEvent cap (Settle i) (R, W) = (if i \<in> set R then startWaiting cap (remove1 i R, W) else (R, W))"

section \<open>The interface\<close>

locale permits =
  fixes acq :: "nat \<Rightarrow> 's \<Rightarrow> bool \<times> 's"
    and rel :: "'s \<Rightarrow> nat option \<times> 's"
    and cap :: "'s \<Rightarrow> nat" and held :: "'s \<Rightarrow> nat" and waiting :: "'s \<Rightarrow> nat list"
  assumes acq_grant: "held s < cap s \<Longrightarrow> fst (acq i s) \<and> held (snd (acq i s)) = Suc (held s) \<and>
      waiting (snd (acq i s)) = waiting s \<and> cap (snd (acq i s)) = cap s"
    and acq_wait: "cap s \<le> held s \<Longrightarrow> \<not> fst (acq i s) \<and> held (snd (acq i s)) = held s \<and>
      waiting (snd (acq i s)) = waiting s @ [i] \<and> cap (snd (acq i s)) = cap s"
    and rel_free: "waiting s = [] \<Longrightarrow> fst (rel s) = None \<and> held (snd (rel s)) = held s - 1 \<and>
      waiting (snd (rel s)) = [] \<and> cap (snd (rel s)) = cap s"
    and rel_hand: "waiting s = j # js \<Longrightarrow> fst (rel s) = Some j \<and> held (snd (rel s)) = held s \<and>
      waiting (snd (rel s)) = js \<and> cap (snd (rel s)) = cap s"
begin

text \<open>The permits held are the running calls, and calls wait only while all permits are held.\<close>

definition consistent :: "'s \<times> nat list \<Rightarrow> bool" where
  "consistent x \<longleftrightarrow> (case x of (s, R) \<Rightarrow>
     held s = length R \<and> length R \<le> cap s \<and> (waiting s \<noteq> [] \<longrightarrow> length R = cap s))"

definition absCalls :: "'s \<times> nat list \<Rightarrow> nat list \<times> nat list" where
  "absCalls x = (snd x, waiting (fst x))"

lemma event_refines:
  assumes "consistent x"
  shows "consistent (callEvent acq rel ev x) \<and> cap (fst (callEvent acq rel ev x)) = cap (fst x) \<and>
    absCalls (callEvent acq rel ev x) = specEvent (cap (fst x)) ev (absCalls x)"
proof (cases ev)
  case (Arrive i)
  obtain s R where x: "x = (s, R)" by force
  show ?thesis
  proof (cases "held s < cap s")
    case True
    then show ?thesis using assms acq_grant [OF True, of i] unfolding x Arrive
      by (auto simp: consistent_def absCalls_def startWaiting_def split: prod.splits)
  next
    case False
    then show ?thesis using assms acq_wait [of s i] unfolding x Arrive
      by (auto simp: consistent_def absCalls_def startWaiting_def split: prod.splits)
  qed
next
  case (Settle i)
  obtain s R where x: "x = (s, R)" by force
  show ?thesis
  proof (cases "i \<in> set R")
    case True
    then obtain n where n: "length R = Suc n" by (cases R) auto
    show ?thesis using assms True n unfolding x Settle
      by (cases "waiting s") (use rel_free [of s] rel_hand [of s] in
        \<open>auto simp: consistent_def absCalls_def startWaiting_def length_remove1 split: prod.splits\<close>)
  qed (use assms in \<open>auto simp: x Settle absCalls_def\<close>)
qed

lemma events_refine:
  assumes "consistent x"
  shows "consistent (fold (callEvent acq rel) evs x) \<and>
    absCalls (fold (callEvent acq rel) evs x) = fold (specEvent (cap (fst x))) evs (absCalls x)"
  using assms
proof (induction evs arbitrary: x)
  case (Cons ev evs)
  then show ?case using event_refines [OF Cons.prems, of ev] Cons.IH [of "callEvent acq rel ev x"] by simp
qed simp

end

interpretation ls: permits acquire release smCap smInFlight smWaiters
  by unfold_locales (auto simp: acquire_def release_def split: list.splits)

section \<open>Properties\<close>

text \<open>
  C22. The semaphore refines the specification: along every sequence of arrivals and settlements the
  running and the waiting calls are those of a server that never runs more than \<open>cap\<close> calls and always
  starts the one that has waited longest. A permit is neither lost nor duplicated, however tasks end.
\<close>

theorem semaphore_refines:
  assumes "newSemaphore c = Inr s0" "fold (callEvent acquire release) evs (s0, []) = (s, R)"
  shows "(R, smWaiters s) = fold (specEvent (nat c)) evs ([], []) \<and> smInFlight s = length R \<and>
    length R \<le> nat c \<and> (if smWaiters s = [] then True else length R = nat c)"
proof -
  have s0: "smCap s0 = nat c" "smInFlight s0 = 0" "smWaiters s0 = []" "1 \<le> c"
    using assms(1) by (auto simp: newSemaphore_def split: if_splits)
  then have "ls.consistent (s0, [])" by (simp add: ls.consistent_def)
  note e = ls.events_refine [OF this, of evs, unfolded assms(2)]
  have "smCap (fst (fold (callEvent acquire release) evs x)) = smCap (fst x)" for x
  proof (induction evs arbitrary: x)
    case (Cons ev evs)
    have "smCap (fst (callEvent acquire release ev x)) = smCap (fst x)"
      by (cases ev; cases x) (auto simp: acquire_def release_def split: list.splits prod.splits)
    then show ?case using Cons.IH by simp
  qed simp
  from this [of "(s0, [])"] e show ?thesis
    by (auto simp: assms(2) s0 ls.consistent_def ls.absCalls_def)
qed

theorem semaphore_refines_witness:
  "fst (fold (specEvent 1) [Arrive 7, Arrive 8, Arrive 9, Settle 7] ([], [])) = [8]"
proof -
  define s0 where "s0 = \<lparr>smCap = 1, smInFlight = 0, smWaiters = []\<rparr>"
  have "newSemaphore 1 = Inr s0" by (simp add: newSemaphore_def s0_def)
  moreover have "fold (callEvent acquire release) [Arrive 7, Arrive 8, Arrive 9, Settle 7] (s0, []) =
      (s0\<lparr>smInFlight := 1, smWaiters := [9]\<rparr>, [8])"
    by (simp add: s0_def acquire_def release_def)
  ultimately show ?thesis using semaphore_refines [of 1 s0] by (metis fst_conv nat_one_as_int)
qed

text \<open>
  The cap of an isolate is the one of the first call site that asked for its semaphore: a fetch
  handler that comes first limits later DO methods to three loaders, and a DO method that comes
  first lets the fetch handler run four.
\<close>

theorem isolate_cap_sticks:
  "(case isolateSemaphore k1 \<lparr>cfpLoaderCap = None, cfpLoaderSem = None\<rparr> of (r, g) \<Rightarrow>
      isOk r \<and> isolateSemaphore k2 g = (r, g) \<and>
      map_option smCap (cfpLoaderSem g) = Some (nat (defaultCapFor k1)))"
  by (cases k1) (simp_all add: isolateSemaphore_def getMeasuredCap_def newSemaphore_def)

end
