(* ===== verification/Loader.thy ===== *)
theory Loader
  imports Sandbox Semaphore
begin

text \<open>
  The loader of an isolate: the generated module and the worker code around it
  (\<open>src/loader/codegen.ts\<close>) and one dispatch of a task (\<open>src/loader/runner.ts\<close>). The Worker Loader
  binding itself is the platform's: it is the parameter \<open>load\<close>, which receives the cache key, the
  outcome of the code callback and the entrypoint call, and answers with a value or what it throws.
  A dispatch holds one permit of the isolate's semaphore (\<open>Semaphore\<close>) from before the cache key is
  built until its outcome is known.

  The text of the generated lines is kept, with \<open>--\<close> for the dash of two comment lines.
\<close>

section \<open>The generated module\<close>

definition DEFAULT_COMPAT_DATE :: string where
  "DEFAULT_COMPAT_DATE = ''2026-01-20''"

datatype CodegenMode = PoolFn | ActorClass

record GenerateSourceOptions =
  gsMode :: CodegenMode
  gsContext :: "jscontext option"
  gsInjectCancelSignal :: bool
  gsPassEnv :: bool
  gsSealGlobals :: bool

text \<open>
  The literal of one context value: \<open>canonicalizeContext({ v: value }).slice(5, -1)\<close>. The wrapper
  object is new, so its identity differs from every one inside the value.
\<close>

definition embedValue :: "ctxval \<Rightarrow> ParallelError + string" where
  "embedValue v =
     bindE (canonicalizeContext (Suc (fold max (refsOf v) 0), [(''v'', v)])) (\<lambda>s. Inr (drop 5 (butlast s)))"

fun contextLines :: "(string \<times> ctxval) list \<Rightarrow> ParallelError + string list" where
  "contextLines [] = Inr []"
| "contextLines ((key, v) # fs) =
     (case assertValidContextKey key of
        Some e \<Rightarrow> Inl e
      | None \<Rightarrow> bindE (embedValue v) (\<lambda>lit.
          bindE (contextLines fs) (\<lambda>ls. Inr ((''const '' @ key @ '' = '' @ lit @ '';'') # ls))))"

definition sealLines :: "string list" where
  \<open>sealLines =
    [''(() => {'',
     ''  const seal = (obj, name, msg) => {'',
     ''    try {'',
     ''      Object.defineProperty(obj, name, {'',
     ''        get() { throw new Error(msg); },'',
     ''        configurable: false,'',
     ''      });'',
     ''    } catch (_) { /* already non-configurable, fine */ }'',
     ''  };'',
     ''  if (typeof caches !== "undefined") {'',
     ''    seal(caches, "default", "caches.default is sealed (globalOutbound: null)");'',
     ''  }'',
     ''})();'',
     '''']\<close>

definition signalLines :: "string list" where
  \<open>signalLines =
    [''function cfpMakeAbortSignal(envelopeSignal, cancelStream) {'',
     ''  const controller = new AbortController();'',
     ''  const trip = (reason) => {'',
     ''    if (controller.signal.aborted) return;'',
     ''    const err = Object.assign(new Error(reason ?? "Cancelled"), { name: "CancelledError" });'',
     ''    controller.abort(err);'',
     ''  };'',
     ''  if (envelopeSignal?.cancelled) {'',
     ''    queueMicrotask(() => trip(envelopeSignal.reason));'',
     ''  }'',
     ''  if (cancelStream) {'',
     ''    (async () => {'',
     ''      try {'',
     ''        const reader = cancelStream.getReader();'',
     ''        const { value, done } = await reader.read();'',
     ''        if (!done && value) {'',
     ''          const reason = new TextDecoder().decode(value);'',
     ''          trip(reason);'',
     ''        }'',
     ''        try { reader.releaseLock(); } catch (_) {}'',
     ''      } catch (_) {'',
     ''        // Reader errors when the producer aborts the stream -- treat as no-op.'',
     ''      }'',
     ''    })();'',
     ''  }'',
     ''  return controller.signal;'',
     ''}'',
     '''']\<close>

definition validateLines :: "string list" where
  \<open>validateLines =
    [''function cfpValidateReturn(value) {'',
     ''  if (value == null) return value;'',
     ''  if (value instanceof ReadableStream) return value;'',
     ''  // Surface RPC-stub returns as a serialization error.'',
     ''  if (typeof value === "object") {'',
     ''    const proto = Object.getPrototypeOf(value);'',
     ''    const ctorName = proto?.constructor?.name;'',
     ''    if (ctorName === "RpcStub" || ctorName === "RpcTarget" || ctorName === "RpcPromise") {'',
     ''      const err = new Error("returned values cannot include RPC stubs");'',
     ''      err.name = "SerializationError";'',
     ''      throw err;'',
     ''    }'',
     ''  }'',
     ''  // Size check is best-effort: sample via JSON length where possible.'',
     ''  // Coordinator side does the authoritative measurement after structured-clone.'',
     ''  return value;'',
     ''}'',
     '''']\<close>

definition emitEnvSetup :: "GenerateSourceOptions \<Rightarrow> string list" where
  \<open>emitEnvSetup opts =
     (if gsInjectCancelSignal opts then
        [''    const __signal__ = cfpMakeAbortSignal(envelope?.signal, this.env?.cancelStream);'',
         ''    const __env__ = Object.assign({}, this.env, { signal: __signal__ });'',
         ''    // Hide library-internal env entries from user code (defense in depth).'',
         ''    delete __env__.cancelStream;'',
         ''    delete __env__.cfpSql;'']
      else if gsPassEnv opts then [''    const __env__ = this.env;'']
      else [''    const __env__ = {};''])\<close>

definition entrypointLines :: "string option \<Rightarrow> GenerateSourceOptions \<Rightarrow> string list" where
  \<open>entrypointLines fnSource opts =
     (if nullish fnSource [] = [] then []
      else case gsMode opts of
        PoolFn \<Rightarrow>
          [''const __fn__ = '' @ nullish fnSource [] @ '';'', '''',
           ''export default class extends WorkerEntrypoint {'',
           ''  async execute(envelope, ...args) {''] @
          emitEnvSetup opts @
          [''    const __result__ = await __fn__(...args, __env__);'',
           ''    return cfpValidateReturn(__result__);'', ''  }'', ''}'']
      | ActorClass \<Rightarrow>
          [''const __fn__ = '' @ nullish fnSource [] @ '';'', '''',
           ''export default class extends WorkerEntrypoint {'',
           ''  async submit(envelope, _fnSource, state, args) {''] @
          emitEnvSetup opts @
          [''    // Synthesize a capability-restricted SQL proxy. The actor'',
           ''    // coordinator fences this to its own namespace.'',
           ''    const sql = this.env?.cfpSql ?? null;'',
           ''    const result = await __fn__(state, sql, ...args, __env__);'',
           ''    return { state, value: cfpValidateReturn(result) };'',
           ''  }'', ''}''])\<close>

definition newline :: string where "newline = [char_of (10 :: nat)]"

definition moduleLines :: "string option \<Rightarrow> GenerateSourceOptions \<Rightarrow> ParallelError + string list" where
  \<open>moduleLines fnSource opts =
     bindE (case gsContext opts of
              None \<Rightarrow> Inr []
            | Some ctx \<Rightarrow>
                if snd ctx = [] then Inr [] else bindE (contextLines (snd ctx)) (\<lambda>ls. Inr (ls @ [''''])))
       (\<lambda>consts. Inr
         ([''// AUTO-GENERATED by cloudflare-parallel -- do not edit'',
           ''import { WorkerEntrypoint } from "cloudflare:workers";'', ''''] @ consts @
          (if gsSealGlobals opts then sealLines else []) @
          (if gsInjectCancelSignal opts then signalLines else []) @
          validateLines @ entrypointLines fnSource opts))\<close>

definition generateWorkerSource :: "string option \<Rightarrow> GenerateSourceOptions \<Rightarrow> ParallelError + string" where
  "generateWorkerSource fnSource opts =
     bindE (moduleLines fnSource opts) (\<lambda>ls. Inr (join newline ls))"

section \<open>Worker code\<close>

record WorkerCode =
  wcCompatibilityDate :: string
  wcCompatibilityFlags :: "string list option"
  wcMainModule :: string
  wcModules :: "(string \<times> string) list"
  wcEnv :: "jsenv option"
  wcGlobalOutbound :: outbound
  wcTails :: "string list option"
  wcLimits :: "(int option \<times> int option) option"

text \<open>
  \<open>OutAbsent\<close> in the code means that the property is missing: the isolate inherits the network of its
  parent.
\<close>

definition buildWorkerCode :: "string option \<Rightarrow> GenerateSourceOptions \<Rightarrow> (WorkerOptions \<times> jsenv option) option \<Rightarrow>
    ParallelError + WorkerCode" where
  "buildWorkerCode fnSource src worker =
     bindE (generateWorkerSource fnSource src) (\<lambda>moduleSource. Inr
       \<lparr>wcCompatibilityDate = nullish (Option.bind worker (\<lambda>(w, env). woCompatibilityDate w)) DEFAULT_COMPAT_DATE,
        wcCompatibilityFlags = Option.bind worker (\<lambda>(w, env). woCompatibilityFlags w),
        wcMainModule = ''worker.js'', wcModules = [(''worker.js'', moduleSource)],
        wcEnv = Option.bind worker snd,
        wcGlobalOutbound = (case worker of
            None \<Rightarrow> OutNull
          | Some (w, env) \<Rightarrow>
              (case woGlobalOutbound w of
                 OutAbsent \<Rightarrow> OutNull | OutUndefined \<Rightarrow> OutAbsent | OutNull \<Rightarrow> OutNull | OutStub s \<Rightarrow> OutStub s)),
        wcTails = Option.bind worker (\<lambda>(w, env). woTails w),
        wcLimits = Option.bind worker (\<lambda>(w, env). woLimits w)\<rparr>)"

section \<open>The runner\<close>

record RpcEnvelope =
  reDeadlineEpochMs :: int
  reCancelTokenId :: "string option"
  reMode :: CodegenMode
  reSignal :: "bool \<times> string option"

record RunnerOptions =
  roCallSite :: CallSiteKind
  roCacheKeyStrategy :: CacheKeyStrategy
  roWorkerOptions :: "WorkerOptions option"
  roAllowList :: "string list option"

record RunOneInput =
  riFnSource :: string
  riFnHash :: string
  riContext :: "jscontext option"
  riBindings :: "jsenv option"
  riEnvelope :: RpcEnvelope
  riArgs :: "rval list"
  riFreshIsolate :: bool
  riTaskSlot :: "nat option"
  riCancelStream :: "Delivery option"
  riState :: "rval option"

datatype EntryCall = Execute RpcEnvelope "rval list" | Submit RpcEnvelope string rval "rval list"

type_synonym loadFn = "string \<Rightarrow> ParallelError + WorkerCode \<Rightarrow> EntryCall \<Rightarrow> thrown + rval"

definition emptyWorkerOptions :: WorkerOptions where
  "emptyWorkerOptions = \<lparr>woCompatibilityDate = None, woCompatibilityFlags = None,
     woGlobalOutbound = OutAbsent, woTails = None, woLimits = None, woTailBindingName = None\<rparr>"

text \<open>The \<open>env\<close> of the loaded isolate: the filtered bindings, then the cancel stream.\<close>

definition isolateEnv :: "RunnerOptions \<Rightarrow> RunOneInput \<Rightarrow> jsenv" where
  "isolateEnv opts input =
     (let sanitized = sanitizeBindings (riBindings input) (roAllowList opts) in
      case riCancelStream input of
        None \<Rightarrow> sanitized
      | Some s \<Rightarrow> AList.update ''cancelStream'' (StreamBinding s) sanitized)"

text \<open>The code callback of \<open>loader.get\<close>.\<close>

definition isolateCode :: "RunnerOptions \<Rightarrow> RunOneInput \<Rightarrow> CodegenMode \<Rightarrow> ParallelError + WorkerCode" where
  "isolateCode opts input mode =
     buildWorkerCode (Some (riFnSource input))
       \<lparr>gsMode = mode, gsContext = riContext input, gsInjectCancelSignal = True, gsPassEnv = True,
        gsSealGlobals = (case roWorkerOptions opts of
            None \<Rightarrow> False | Some w \<Rightarrow> woGlobalOutbound w = OutNull)\<rparr>
       (Some (nullish (roWorkerOptions opts) emptyWorkerOptions, Some (isolateEnv opts input)))"

definition contextHash :: "jscontext option \<Rightarrow> ParallelError + string" where
  "contextHash ctx =
     (case ctx of None \<Rightarrow> Inr [] | Some c \<Rightarrow> bindE (canonicalizeContext c) (\<lambda>s. Inr (hashSource s)))"

definition checkResult :: "rval \<Rightarrow> ParallelError + rval" where
  "checkResult v = (case rejectIfRpcStub v of Some e \<Rightarrow> Inl e | None \<Rightarrow> validateReturn v)"

text \<open>
  The \<open>try\<close> block of a dispatch; \<open>cpuPattern\<close> is the marker that \<open>marshalError\<close> reads from
  \<open>globalThis\<close>.
\<close>

definition loadAndCall :: "loadFn \<Rightarrow> string option \<Rightarrow> RunnerOptions \<Rightarrow> RunOneInput \<Rightarrow> CodegenMode \<Rightarrow> string \<Rightarrow>
    ParallelError + rval" where
  "loadAndCall load cpuPattern opts input mode cacheKey =
     (let call = (case mode of
            PoolFn \<Rightarrow> Execute (riEnvelope input) (riArgs input)
          | ActorClass \<Rightarrow> Submit (riEnvelope input) (riFnSource input)
                            (case riState input of Some RNull \<Rightarrow> RObject 0 ''Object'' []
                             | Some RUndef \<Rightarrow> RObject 0 ''Object'' [] | Some s \<Rightarrow> s
                             | None \<Rightarrow> RObject 0 ''Object'' []) (riArgs input))
      in case load cacheKey (isolateCode opts input mode) call of
           Inl thrown \<Rightarrow> Inl (marshalError cpuPattern thrown)
         | Inr result \<Rightarrow>
             (case checkResult result of
                Inl e \<Rightarrow> Inl (marshalError cpuPattern (Lib e))
              | Inr v \<Rightarrow> Inr v))"

definition runWithMode :: "loadFn \<Rightarrow> string option \<Rightarrow> int \<Rightarrow> RunnerOptions \<Rightarrow> RunOneInput \<Rightarrow> CodegenMode \<Rightarrow>
    nat \<Rightarrow> (ParallelError + rval) \<times> nat" where
  "runWithMode load cpuPattern now opts input mode counter =
     (case contextHash (riContext input) of
        Inl e \<Rightarrow> (Inl e, counter)
      | Inr h \<Rightarrow>
          (case buildCacheKey now
              \<lparr>ckFnSource = riFnSource input, ckContextHash = h, ckStrategy = roCacheKeyStrategy opts,
               ckForceFresh = riFreshIsolate input, ckTaskSlot = riTaskSlot input\<rparr> counter of
             (cacheKey, counter') \<Rightarrow>
               (loadAndCall load cpuPattern opts input mode cacheKey, counter')))"

section \<open>The env of an isolate\<close>

lemma isolateCode_fields:
  assumes "isolateCode opts input mode = Inr code"
  shows "wcEnv code = Some (isolateEnv opts input)"
    "wcGlobalOutbound code = (case roWorkerOptions opts of
        None \<Rightarrow> OutNull
      | Some w \<Rightarrow> (case woGlobalOutbound w of
          OutAbsent \<Rightarrow> OutNull | OutUndefined \<Rightarrow> OutAbsent | OutNull \<Rightarrow> OutNull | OutStub s \<Rightarrow> OutStub s))"
  using assms
  by (auto simp: isolateCode_def buildWorkerCode_def emptyWorkerOptions_def split: option.splits)

text \<open>
  What an isolate can reach: its \<open>env\<close> has, besides the cancel stream, exactly the entries of the
  coordinator's own \<open>env\<close> that the allow-list names, and never a library-internal \<open>Cfp*\<close> or \<open>cfp*\<close>
  binding or the loader itself, whatever the allow-list says.
\<close>

theorem isolate_env_safe:
  assumes "isolateCode opts input mode = Inr code" "riBindings input = Some env" "distinct (keys env)"
  shows "map_of (nullish (wcEnv code) []) k =
     (if k = ''cancelStream'' \<and> riCancelStream input \<noteq> None
      then map_option StreamBinding (riCancelStream input)
      else if \<not> isLibraryInternalKey k \<and> k \<noteq> ''LOADER'' \<and>
              (case roAllowList opts of None \<Rightarrow> True | Some allow \<Rightarrow> k \<in> set allow)
      then map_of env k else None)"
  using isolateCode_fields(1) [OF assms(1)] sanitizeBindings_lookup [OF assms(3), of "roAllowList opts" k]
  by (auto simp: isolateEnv_def Let_def assms(2) forwardable_def isUnforwardableBindingKey_def
      NON_CLONEABLE_BINDINGS_def split: option.splits)

definition sampleInput :: RunOneInput where
  "sampleInput =
     \<lparr>riFnSource = ''() => 1'', riFnHash = ''h'', riContext = None,
      riBindings = Some [(''KV'', PlainBinding (JStr ''kv'')), (''CfpCoordinator'', PlainBinding JNull),
                         (''LOADER'', PlainBinding JNull)],
      riEnvelope = \<lparr>reDeadlineEpochMs = 0, reCancelTokenId = None, reMode = PoolFn, reSignal = (False, None)\<rparr>,
      riArgs = [], riFreshIsolate = False, riTaskSlot = Some 0, riCancelStream = None, riState = None\<rparr>"

definition sampleOptions :: "WorkerOptions option \<Rightarrow> RunnerOptions" where
  "sampleOptions w = \<lparr>roCallSite = DoMethod, roCacheKeyStrategy = Stable, roWorkerOptions = w,
     roAllowList = Some [''KV'', ''CfpCoordinator'']\<rparr>"

lemma isolateCode_no_context:
  "riContext input = None \<Longrightarrow> \<exists>code. isolateCode opts input mode = Inr code"
  by (simp add: isolateCode_def buildWorkerCode_def generateWorkerSource_def moduleLines_def)

theorem isolate_env_safe_witness:
  "\<exists>code. isolateCode (sampleOptions None) sampleInput PoolFn = Inr code \<and>
     map_of (nullish (wcEnv code) []) ''CfpCoordinator'' = None"
proof -
  obtain code where c: "isolateCode (sampleOptions None) sampleInput PoolFn = Inr code"
    using isolateCode_no_context [of sampleInput] by (auto simp: sampleInput_def)
  have i: "isLibraryInternalKey ''CfpCoordinator''" by code_simp
  obtain env where e: "riBindings sampleInput = Some env" "distinct (keys env)"
    by (simp add: sampleInput_def)
  have "riCancelStream sampleInput = None" by (simp add: sampleInput_def)
  then have "map_of (nullish (wcEnv code) []) ''CfpCoordinator'' = None"
    using isolate_env_safe [OF c e, of "''CfpCoordinator''"] i by simp
  then show ?thesis using c by blast
qed

text \<open>
  The network policy of an isolate behind the wire: it inherits the network exactly when the
  caller left \<open>globalOutbound\<close> out or set it to \<open>undefined\<close>, and is cut off otherwise. A service stub
  that the caller gave as a proxy does not survive the wire; the isolate gets no network instead.
\<close>

theorem network_policy:
  assumes "roWorkerOptions opts = wireToWorkerOptions (workerOptionsToWire (Some w)) (Some env)"
    and "isolateCode opts input mode = Inr code"
  shows "wcGlobalOutbound code =
     (case woGlobalOutbound w of
        OutAbsent \<Rightarrow> OutAbsent | OutUndefined \<Rightarrow> OutAbsent | OutNull \<Rightarrow> OutNull | OutStub s \<Rightarrow> OutNull)"
  using isolateCode_fields(2) [OF assms(2)]
  by (cases "woGlobalOutbound w") (auto simp: assms(1) wire_options)

theorem network_policy_witness:
  "\<exists>code. isolateCode (sampleOptions (wireToWorkerOptions (workerOptionsToWire
       (Some (emptyWorkerOptions\<lparr>woGlobalOutbound := OutStub ''PROXY''\<rparr>))) (Some []))) sampleInput PoolFn = Inr code \<and>
     wcGlobalOutbound code = OutNull"
  (is "\<exists>code. isolateCode ?o _ _ = _ \<and> _")
proof -
  obtain code where c: "isolateCode ?o sampleInput PoolFn = Inr code"
    using isolateCode_no_context [of sampleInput] by (auto simp: sampleInput_def)
  have "roWorkerOptions ?o = wireToWorkerOptions (workerOptionsToWire
      (Some (emptyWorkerOptions\<lparr>woGlobalOutbound := OutStub ''PROXY''\<rparr>))) (Some [])"
    by (simp add: sampleOptions_def)
  from network_policy [OF this c] have "wcGlobalOutbound code = OutNull"
    by (simp add: emptyWorkerOptions_def)
  then show ?thesis using c by blast
qed

text \<open>
  Without worker options the network is cut off as well, but the module is not sealed: the seal is
  emitted for an explicit \<open>null\<close> only.
\<close>

lemma default_not_sealed:
  assumes "roWorkerOptions opts = None" "isolateCode opts input mode = Inr code"
  shows "wcGlobalOutbound code = OutNull \<and>
   (\<exists>ls. moduleLines (Some (riFnSource input)) \<lparr>gsMode = mode, gsContext = riContext input,
      gsInjectCancelSignal = True, gsPassEnv = True, gsSealGlobals = False\<rparr> = Inr ls \<and>
      wcModules code = [(''worker.js'', join newline ls)])"
  using assms isolateCode_fields(2) [OF assms(2)]
  by (auto simp: isolateCode_def buildWorkerCode_def generateWorkerSource_def)

section \<open>Embedded context\<close>

abbreviation printable :: "string \<Rightarrow> bool" where
  "printable s \<equiv> list_all (\<lambda>c. 32 \<le> (of_char c :: nat)) s"

lemma printable_digit: "d < 36 \<Longrightarrow> 32 \<le> (of_char (digitChar d) :: nat)"
  by (simp add: digitChar_def)

lemma printable_showNat: "printable (showNat n)"
proof -
  have "\<forall>c \<in> set ''0123456789''. 32 \<le> (of_char c :: nat)" by code_simp
  then show ?thesis using set_showNat [of n] by (auto simp: list_all_iff)
qed

lemma printable_showInt: "printable (showInt i)"
  using printable_showNat by (simp add: showInt_def)

lemma printable_jsonChar: "printable (jsonChar c)"
proof -
  have "of_char c div 16 < (36 :: nat)" "of_char c mod 16 < (36 :: nat)" if "of_char c < (32 :: nat)"
    using that by (auto simp: less_mult_imp_div_less)
  then show ?thesis
    by (auto simp: jsonChar_def Let_def hexByte_def printable_digit not_less)
qed

lemma printable_jsonString: "printable (jsonString s)"
  using printable_jsonChar by (induction s) (auto simp: jsonString_def quoted_def list_all_iff)

lemma printable_join: "list_all printable ss \<Longrightarrow> printable sep \<Longrightarrow> printable (join sep ss)"
  by (induction sep ss rule: join.induct) auto

lemma canon_printable:
  "canon seen v = Inr (s, seen') \<Longrightarrow> printable s"
  "canonElems seen vs = Inr (ss, seen') \<Longrightarrow> list_all printable ss"
  "canonFields seen fs = Inr (ss, seen') \<Longrightarrow> list_all printable ss"
proof (induction seen v and seen vs and seen fs arbitrary: s seen' and ss seen' and ss seen'
    rule: canon_canonElems_canonFields.induct)
  case (13 seen r vs)
  then show ?case by (auto simp: serErr_def intro!: printable_join split: if_splits)
next
  case (14 seen r fs)
  then show ?case by (auto simp: serErr_def intro!: printable_join split: if_splits)
qed (auto simp: serErr_def printable_showInt printable_jsonString)

lemma embedValue_text:
  assumes "embedValue v = Inr lit"
  shows "\<exists>seen. canon [Suc (fold max (refsOf v) 0)] v = Inr (lit, seen) \<and> printable lit"
proof -
  have "firstBadKey [''v''] = None" by code_simp
  then obtain t seen where t: "canon [Suc (fold max (refsOf v) 0)] v = Inr (t, seen)"
    "lit = drop 5 (butlast ([CHR ''{''] @ jsonString ''v'' @ '':'' @ t @ [CHR ''}'']))"
    using assms by (auto simp: embedValue_def canonicalizeContext_def)
  have "jsonString ''v'' = quoted ''v''" by code_simp
  then have "lit = t" using t(2) by (simp add: quoted_def butlast_append)
  then show ?thesis using t(1) canon_printable(1) by blast
qed

text \<open>
  No injection through the context: every line that a context contributes to the generated module
  declares one constant, whose name is a plain identifier, no reserved word and not of the library's
  own prefix, and whose value is the canonical text of the context value, without any line break or
  other control character.
\<close>

theorem context_lines_safe:
  assumes "contextLines fs = Inr ls"
  shows "list_all2 (\<lambda>(key, v) line. \<exists>lit seen.
      line = ''const '' @ key @ '' = '' @ lit @ '';'' \<and>
      canon [Suc (fold max (refsOf v) 0)] v = Inr (lit, seen) \<and> printable lit \<and>
      validIdentifier key \<and> key \<notin> set RESERVED_WORDS \<and> \<not> startsWith ''Cfp'' key \<and> \<not> startsWith ''cfp'' key)
    fs ls"
  using assms
proof (induction fs arbitrary: ls rule: contextLines.induct)
  case (2 key v fs)
  then obtain lit ls' where *: "assertValidContextKey key = None" "embedValue v = Inr lit"
    "contextLines fs = Inr ls'" "ls = (''const '' @ key @ '' = '' @ lit @ '';'') # ls'"
    by (auto split: option.splits)
  then show ?case using embedValue_text [OF *(2)] 2(1)
    by (auto simp: assertValidContextKey_def split: if_splits)
qed simp

theorem context_lines_safe_witness:
  "\<exists>ls. contextLines [(''k'', CStr (''a'' @ newline))] = Inr ls \<and> list_all printable ls"
proof -
  have "isOk (contextLines [(''k'', CStr (''a'' @ newline))])" by code_simp
  then obtain ls where l: "contextLines [(''k'', CStr (''a'' @ newline))] = Inr ls"
    by (auto simp: isOk_iff)
  from context_lines_safe [OF l] have "list_all printable ls"
    by (auto simp: list_all2_Cons1)
  then show ?thesis using l by blast
qed

section \<open>Errors of a dispatch\<close>

lemma contextHash_error: "contextHash ctx = Inl e \<Longrightarrow> passThrough (Lib e)"
proof -
  have K: "firstBadKey ks = Some e \<Longrightarrow> passThrough (Lib e)" for ks
    by (induction ks) (auto simp: assertValidContextKey_def split: if_splits option.splits)
  have C: "canon seen v = Inl e \<Longrightarrow> passThrough (Lib e)" "canonElems seen vs = Inl e \<Longrightarrow> passThrough (Lib e)"
    "canonFields seen fs = Inl e \<Longrightarrow> passThrough (Lib e)" for seen v vs fs
  proof (induction seen v and seen vs and seen fs rule: canon_canonElems_canonFields.induct)
  qed (auto simp: serErr_def bindE_Inl_iff split: if_splits)
  assume "contextHash ctx = Inl e"
  then show ?thesis using K C(1)
    by (auto simp: contextHash_def canonicalizeContext_def bindE_Inl_iff
        simp del: canon.simps passThrough.simps split: option.splits)
qed

lemma runWithMode_error:
  "fst (runWithMode load p now opts input mode c) = Inl e \<Longrightarrow> passThrough (Lib e)"
  by (auto simp: runWithMode_def loadAndCall_def Let_def contextHash_error marshalError_passes
      simp del: passThrough.simps split: sum.splits prod.splits)

end
