(* ===== verification/Transport.thy ===== *)
theory Transport
  imports Loader
begin

text \<open>
  The caller's side of an RPC: the envelope with its deadline (\<open>src/transport/deadline-prop.ts\<close>), and
  the race against timeout, deadline and cancel with the retry loop around it
  (\<open>src/transport/rpc-client.ts\<close>).

  Time is in milliseconds. A task is what its promise does: the time at which it settles, if it ever
  does, and how. The cancel token of a dispatch is the time at which it fires and the reason. When
  two racers settle in the same millisecond the one that comes first in the array wins.
\<close>

section \<open>Envelopes\<close>

definition MIN_DEADLINE_BUDGET_MS :: int where "MIN_DEADLINE_BUDGET_MS = 1000"

definition computeMinBudget :: "int \<Rightarrow> int" where
  "computeMinBudget treeDepth =
     (if treeDepth \<le> 1 then MIN_DEADLINE_BUDGET_MS else max MIN_DEADLINE_BUDGET_MS (200 * treeDepth))"

record EnvelopeOptions =
  eoCancel :: "(string \<times> bool \<times> string option) option"
  eoDeadline :: "int option"
  eoDeadlineMs :: "int option"
  eoMode :: CodegenMode
  eoTreeDepth :: "int option"

definition buildEnvelope :: "int \<Rightarrow> EnvelopeOptions \<Rightarrow> ParallelError + RpcEnvelope" where
  "buildEnvelope now opts =
     (if eoDeadline opts \<noteq> None \<and> eoDeadlineMs opts \<noteq> None then
        Inl (SerializationError ''Specify either `deadline` or `deadlineMs`, not both'' None)
      else
        let deadline = (case eoDeadline opts of
                Some d \<Rightarrow> d
              | None \<Rightarrow> (case eoDeadlineMs opts of Some ms \<Rightarrow> now + ms | None \<Rightarrow> 0));
            minBudget = computeMinBudget (nullish (eoTreeDepth opts) 0)
        in if 0 < deadline \<and> deadline - now < minBudget
           then Inl (DeadlineTooShortError (deadline - now) minBudget None)
           else Inr \<lparr>reDeadlineEpochMs = deadline, reCancelTokenId = map_option fst (eoCancel opts),
                     reMode = eoMode opts,
                     reSignal = nullish (map_option snd (eoCancel opts)) (False, None)\<rparr>)"

section \<open>Races\<close>

record DispatchOptions =
  doTimeout :: "int option"
  doRetries :: "int option"
  doRetryDelay :: "int option"
  doCancel :: "(int \<times> string option) option"
  doDeadlineEpochMs :: "int option"

type_synonym 'a settlement = "int option \<times> (thrown + 'a)"

text \<open>\<open>Promise.race\<close> started at \<open>now\<close>: the earliest settlement; one before \<open>now\<close> counts as at \<open>now\<close>.\<close>

fun race :: "int \<Rightarrow> 'a settlement list \<Rightarrow> (int \<times> (thrown + 'a)) option" where
  "race now [] = None"
| "race now ((None, r) # rs) = race now rs"
| "race now ((Some t, r) # rs) =
     (case race now rs of
        Some (t', r') \<Rightarrow> if t' < max now t then Some (t', r') else Some (max now t, r)
      | None \<Rightarrow> Some (max now t, r))"

definition racers :: "int \<Rightarrow> 'a settlement \<Rightarrow> DispatchOptions \<Rightarrow> 'a settlement list" where
  "racers now task opts =
     [task] @
     (if 0 < nullish (doTimeout opts) 0
      then [(Some (now + nullish (doTimeout opts) 0), Inl (Lib (TimeoutError (nullish (doTimeout opts) 0) None)))]
      else []) @
     (if 0 < nullish (doDeadlineEpochMs opts) 0
      then [(Some (nullish (doDeadlineEpochMs opts) 0),
             Inl (Lib (DeadlineExceededError (nullish (doDeadlineEpochMs opts) 0) None)))]
      else []) @
     (case doCancel opts of
        Some (t, reason) \<Rightarrow> [(Some t, Inl (Lib (CancelledError reason None)))]
      | None \<Rightarrow> [])"

definition withRaces :: "int \<Rightarrow> 'a settlement \<Rightarrow> DispatchOptions \<Rightarrow> (int \<times> (thrown + 'a)) option" where
  "withRaces now task opts =
     (if 0 < nullish (doDeadlineEpochMs opts) 0 \<and> nullish (doDeadlineEpochMs opts) 0 - now \<le> 0
      then Some (now, Inl (Lib (DeadlineExceededError (nullish (doDeadlineEpochMs opts) 0) None)))
      else race now (racers now task opts))"

section \<open>Retries\<close>

text \<open>The backoff before the next attempt; \<open>jitter\<close> is \<open>0.5 + Math.random()\<close>.\<close>

definition dispatchBackoff :: "int \<Rightarrow> ParallelError \<Rightarrow> nat \<Rightarrow> rat \<Rightarrow> int" where
  "dispatchBackoff base err attempt jitter =
     max 0 \<lfloor>min (of_int base * (if isBackpressure err then 3 / 2 else 2) ^ attempt * jitter) 5000\<rfloor>"

definition isCancelledAt :: "int \<Rightarrow> DispatchOptions \<Rightarrow> bool" where
  "isCancelledAt now opts = (case doCancel opts of Some (t, _) \<Rightarrow> t \<le> now | None \<Rightarrow> False)"

text \<open>
  \<open>Never\<close>: the promise never settles. The loop also returns how many tasks it started. \<open>left\<close> counts
  the iterations that remain, \<open>lastError\<close> is \<open>None\<close> while no attempt has failed.
\<close>

datatype 'a dispatched = Never | Settled int "thrown + 'a"

fun dispatchLoop :: "string option \<Rightarrow> (nat \<Rightarrow> int \<Rightarrow> 'a settlement) \<Rightarrow> (nat \<Rightarrow> rat) \<Rightarrow> DispatchOptions \<Rightarrow>
    nat \<Rightarrow> nat \<Rightarrow> int \<Rightarrow> ParallelError option \<Rightarrow> nat \<times> 'a dispatched" where
  "dispatchLoop p task jitter opts attempt 0 now lastError =
     (0, Settled now (Inl
       (let lst = (case lastError of Some e \<Rightarrow> Lib e | None \<Rightarrow> NonError ''undefined'')
        in if 1 < attempt then Lib (RetryExhaustedError (int attempt) lst) else lst)))"
| "dispatchLoop p task jitter opts attempt (Suc left) now lastError =
     (if isCancelledAt now opts then
        (0, Settled now (Inl (Lib (CancelledError (Option.bind (doCancel opts) snd) None))))
      else case withRaces now (task attempt now) opts of
        None \<Rightarrow> (1, Never)
      | Some (t, Inr v) \<Rightarrow> (1, Settled t (Inr v))
      | Some (t, Inl raw) \<Rightarrow>
          (let err = marshalError p raw in
           if isDeadlineExceeded err \<or> isCancelled err \<or> \<not> isRetryable err
           then (1, Settled t (Inl (Lib err)))
           else
             (let t' = (if 0 < left then t + dispatchBackoff (nullish (doRetryDelay opts) 100) err attempt (jitter attempt)
                        else t)
              in case dispatchLoop p task jitter opts (Suc attempt) left t' (Some err) of
                   (n, r) \<Rightarrow> (Suc n, r))))"

definition dispatchWithResilience :: "string option \<Rightarrow> (nat \<Rightarrow> int \<Rightarrow> 'a settlement) \<Rightarrow> (nat \<Rightarrow> rat) \<Rightarrow>
    DispatchOptions \<Rightarrow> int \<Rightarrow> nat \<times> 'a dispatched" where
  "dispatchWithResilience p task jitter opts now =
     dispatchLoop p task jitter opts 0 (nat (1 + nullish (doRetries opts) 0)) now None"

section \<open>Lemmas\<close>

lemma race_le:
  assumes "(Some t, r) \<in> set rs"
  shows "\<exists>t' r'. race now rs = Some (t', r') \<and> t' \<le> max now t"
  using assms
proof (induction now rs rule: race.induct)
  case (3 now u q rs)
  show ?case
  proof (cases "(Some t, r) = (Some u, q)")
    case True
    then show ?thesis by (auto split: option.splits)
  next
    case False
    then obtain t' r' where "race now rs = Some (t', r')" "t' \<le> max now t" using 3 by auto
    then show ?thesis by auto
  qed
qed auto

lemma withRaces_timeout:
  assumes "doTimeout opts = Some T" "0 < T"
  shows "\<exists>t r. withRaces now task opts = Some (t, r) \<and> t \<le> now + T"
proof -
  have "(Some (now + T), Inl (Lib (TimeoutError T None))) \<in> set (racers now task opts)"
    using assms by (simp add: racers_def)
  from race_le [OF this, of now] show ?thesis using assms
    by (auto simp: withRaces_def)
qed

lemma dispatchBackoff_le: "0 \<le> dispatchBackoff b e k j" "dispatchBackoff b e k j \<le> 5000"
proof -
  have "\<lfloor>min x 5000\<rfloor> \<le> \<lfloor>5000 :: rat\<rfloor>" for x :: rat by (rule floor_mono) simp
  then show "dispatchBackoff b e k j \<le> 5000" by (simp add: dispatchBackoff_def)
qed (simp add: dispatchBackoff_def)

lemma dispatchLoop_bounded:
  assumes "doTimeout opts = Some T" "0 < T"
  shows "\<exists>n t r. dispatchLoop p task jitter opts attempt left now lastError = (n, Settled t r) \<and>
    n \<le> left \<and> t \<le> now + int left * (T + 5000)"
proof (induction left arbitrary: attempt now lastError)
  case (Suc left)
  obtain t r where w: "withRaces now (task attempt now) opts = Some (t, r)" "t \<le> now + T"
    using withRaces_timeout [OF assms] by blast
  have le: "t + dispatchBackoff b e k j \<le> now + (T + 5000)" "t \<le> now + (T + 5000)" for b e k j
    using w(2) dispatchBackoff_le(2) [of b e k j] by linarith+
  have nn: "0 \<le> int left * (T + 5000)" using assms(2) by simp
  show ?case
  proof (cases "isCancelledAt now opts")
    case True
    have "0 \<le> int (Suc left) * (T + 5000)" using assms(2) by (simp del: of_nat_Suc)
    then show ?thesis using True by (simp del: of_nat_Suc)
  next
    case False
    have single: "t \<le> now + int (Suc left) * (T + 5000)"
      using le(2) nn by (simp add: algebra_simps)
    show ?thesis
    proof (cases r)
      case (Inr v)
      then show ?thesis using False w(1) single by simp
    next
      case (Inl raw)
      let ?err = "marshalError p raw"
      let ?t = "if 0 < left then t + dispatchBackoff (nullish (doRetryDelay opts) 100) ?err attempt (jitter attempt) else t"
      obtain n t2 r2 where ih: "dispatchLoop p task jitter opts (Suc attempt) left ?t (Some ?err) = (n, Settled t2 r2)"
        "n \<le> left" "t2 \<le> ?t + int left * (T + 5000)"
        using Suc.IH by blast
      have "?t \<le> now + (T + 5000)" using le by simp
      then have "t2 \<le> now + int (Suc left) * (T + 5000)" using ih(3) by (simp add: algebra_simps)
      then show ?thesis using False w(1) Inl ih(1,2) single by (auto simp: Let_def)
    qed
  qed
qed simp

lemma passThrough_plain:
  assumes "passThrough (Lib e)"
  shows "\<not> isCancelled e \<and> \<not> isDeadlineExceeded e \<and>
    (case e of RetryExhaustedError k c \<Rightarrow> False | _ \<Rightarrow> True)"
  using assms by (cases e) auto

lemma dispatchLoop_errors:
  assumes "dispatchLoop p task jitter opts attempt left now lastError = (n, Settled t (Inl (Lib e)))"
    "pred_option (\<lambda>x. passThrough (Lib x) \<and> isRetryable x) lastError"
  shows "(isCancelled e \<longrightarrow> isCancelledAt t opts) \<and> \<not> isDeadlineExceeded e \<and>
    (case e of RetryExhaustedError k c \<Rightarrow> n = left \<and> k = int (attempt + left) \<and> 1 < k \<and>
         (left \<noteq> 0 \<or> lastError \<noteq> None \<longrightarrow> (\<exists>x. c = Lib x \<and> isRetryable x))
     | _ \<Rightarrow> True)"
  using assms
proof (induction left arbitrary: attempt now lastError n)
  case 0
  then show ?case
    by (cases lastError; cases e) (auto simp: Let_def split: if_splits)
next
  case (Suc left)
  show ?case
  proof (cases "isCancelledAt now opts")
    case True
    then show ?thesis using Suc.prems(1) by auto
  next
    case False
    obtain u r where w: "withRaces now (task attempt now) opts = Some (u, r)"
      using Suc.prems(1) False by (auto split: option.splits)
    obtain raw where r: "r = Inl raw" using Suc.prems(1) False w by (cases r) auto
    let ?err = "marshalError p raw"
    have pass: "passThrough (Lib ?err)" by (rule marshalError_passes)
    show ?thesis
    proof (cases "isDeadlineExceeded ?err \<or> isCancelled ?err \<or> \<not> isRetryable ?err")
      case True
      then have "e = ?err" using Suc.prems(1) False w r by (simp add: Let_def)
      then have "passThrough (Lib e)" using pass by simp
      from passThrough_plain [OF this] show ?thesis by (cases e) auto
    next
      case False2: False
      obtain m t' where rec: "dispatchLoop p task jitter opts (Suc attempt) left t' (Some ?err) =
          (m, Settled t (Inl (Lib e)))" "n = Suc m"
        using Suc.prems(1) False False2 w r by (auto simp: Let_def split: prod.splits)
      from Suc.IH [OF rec(1)] False2 pass show ?thesis using rec(2)
        by (cases e) auto
    qed
  qed
qed

section \<open>Properties\<close>

text \<open>
  C24. With a timeout a dispatch always settles, after at most \<open>1 + retries\<close> tasks and within
  \<open>(1 + retries) * (timeout + 5000)\<close> milliseconds, whatever its tasks do.
\<close>

theorem dispatch_settles:
  assumes "doTimeout opts = Some T" "0 < T" "nullish (doRetries opts) 0 = int r"
  shows "\<exists>n t res. dispatchWithResilience p task jitter opts now = (n, Settled t res) \<and>
     n \<le> 1 + r \<and> t \<le> now + int (1 + r) * (T + 5000)"
  using dispatchLoop_bounded [OF assms(1,2), of p task jitter 0 "1 + r" now None]
  by (simp add: dispatchWithResilience_def assms(3) nat_add_distrib)

definition sampleDispatch :: DispatchOptions where
  "sampleDispatch = \<lparr>doTimeout = Some 30, doRetries = Some 2, doRetryDelay = None,
     doCancel = None, doDeadlineEpochMs = None\<rparr>"

theorem dispatch_settles_witness:
  "\<exists>n t res. dispatchWithResilience None (\<lambda>_ _. (None, Inr ())) (\<lambda>_. 1) sampleDispatch 0 = (n, Settled t res) \<and>
     n \<le> 3 \<and> t \<le> 15090"
proof -
  have s: "doTimeout sampleDispatch = Some 30" "nullish (doRetries sampleDispatch) 0 = int 2"
    by (simp_all add: sampleDispatch_def)
  show ?thesis
    using dispatch_settles [OF s(1) _ s(2), of None "\<lambda>_ _. (None, Inr ())" "\<lambda>_. 1" 0]
    by (simp add: numeral_3_eq_3)
qed

text \<open>
  What a dispatch rejects with: a \<open>CancelledError\<close> only if the token had fired, never a
  \<open>DeadlineExceededError\<close> (a deadline that passes in flight comes out as an \<open>ExecutionError\<close>), and a
  \<open>RetryExhaustedError\<close> exactly after \<open>1 + retries\<close> tasks of which the last failed retryably.
\<close>

theorem dispatch_errors:
  assumes "dispatchWithResilience p task jitter opts now = (n, Settled t (Inl (Lib e)))"
  shows "(if isCancelled e then isCancelledAt t opts else True) \<and> \<not> isDeadlineExceeded e \<and>
    (case e of RetryExhaustedError k c \<Rightarrow>
        int n = 1 + nullish (doRetries opts) 0 \<and> k = int n \<and> 1 < k \<and> (\<exists>x. c = Lib x \<and> isRetryable x)
     | _ \<Rightarrow> True)"
proof -
  let ?m = "1 + nullish (doRetries opts) 0"
  have "int (nat ?m) = ?m \<and> nat ?m \<noteq> 0 \<or> int (nat ?m) = 0" by simp
  then show ?thesis
    using dispatchLoop_errors [OF assms [unfolded dispatchWithResilience_def]]
    by (cases e) auto
qed

theorem dispatch_errors_witness:
  "\<exists>e. dispatchWithResilience None (\<lambda>_ now. (Some now, Inl (Lib (DisconnectedError ''x'' None)) :: thrown + unit))
       (\<lambda>_. 1) sampleDispatch 0 = (3, Settled 300 (Inl (Lib e))) \<and> \<not> isDeadlineExceeded e"
proof -
  have "dispatchWithResilience None (\<lambda>_ now. (Some now, Inl (Lib (DisconnectedError ''x'' None)) :: thrown + unit))
       (\<lambda>_. 1) sampleDispatch 0 =
     (3, Settled 300 (Inl (Lib (RetryExhaustedError 3 (Lib (DisconnectedError ''x'' None))))))"
    by code_simp
  from dispatch_errors [OF this] this show ?thesis by blast
qed

text \<open>
  A token that fires while the task runs does not surface as a \<open>CancelledError\<close>: the error of the
  race goes through \<open>marshalError\<close> first and comes out as an error of another class with the same
  message, so the caller's \<open>name === 'CancelledError'\<close> tests miss it.
\<close>

theorem cancel_midflight:
  assumes "doCancel opts = Some (tc, reason)" "now < tc"
    and "doTimeout opts = None" "doDeadlineEpochMs opts = None" "doRetries opts = None"
  shows "\<exists>e t. snd (dispatchWithResilience p (\<lambda>_ _. (None, Inr ())) jitter opts now) = Settled t (Inl (Lib e)) \<and>
     t = tc \<and> \<not> isCancelled e \<and> errMessage e = errMessage (CancelledError reason None)"
proof -
  let ?c = "Lib (CancelledError reason None)"
  have w: "withRaces now (None, Inr ()) opts = Some (tc, Inl ?c)"
    using assms by (simp add: withRaces_def racers_def)
  have m: "\<not> isCancelled (marshalError p ?c)" "\<not> isDeadlineExceeded (marshalError p ?c)"
    using marshalError_passes [of p ?c] by (cases "marshalError p ?c"; simp)+
  have msg: "errMessage (marshalError p ?c) = errMessage (CancelledError reason None)"
    by (simp add: marshalError_def del: errMessage.simps)
  show ?thesis using assms w m msg
    by (simp add: dispatchWithResilience_def Let_def isCancelledAt_def split: prod.splits)
qed

definition cancelAt50 :: DispatchOptions where
  "cancelAt50 = \<lparr>doTimeout = None, doRetries = None, doRetryDelay = None,
     doCancel = Some (50, Some ''stop''), doDeadlineEpochMs = None\<rparr>"

theorem cancel_midflight_witness:
  "\<exists>e. snd (dispatchWithResilience None (\<lambda>_ _. (None, Inr ())) (\<lambda>_. 1) cancelAt50 0) = Settled 50 (Inl (Lib e)) \<and>
     \<not> isCancelled e"
  using cancel_midflight [of cancelAt50 50 "Some ''stop''" 0 None "\<lambda>_. 1"]
  by (auto simp: cancelAt50_def)

end
