(* ===== verification/Topology.thy ===== *)
theory Topology
  imports ErrorMarshal
begin

text \<open>
  Execution plans and the topology selector (\<open>src/topology/plan.ts\<close>, \<open>src/topology/selector.ts\<close>).
  Sizes are non-negative integers once \<open>selectTopology\<close> has accepted them; a fractional or
  non-finite size does not occur because every caller passes an array length.

  The depth of a tree is \<open>max(1, ceil(log(size / maxFanOut) / log F))\<close>. ECMAScript leaves the
  rounding of \<open>Math.log\<close> to the implementation, so the quotient's ceiling is a parameter \<open>lg\<close> of
  the selector, with \<open>logAccurate\<close> as the documented accuracy: it is never below the exact ceiling
  and at most one above it. \<open>ceilLog\<close> computes the exact ceiling.
\<close>

section \<open>Plans\<close>

datatype TopologyPlan =
    InDoPlan nat
  | HybridPlan nat "nat list"
  | TreePlan nat nat nat "TopologyPlan list"

fun planSize :: "TopologyPlan \<Rightarrow> nat" where
  "planSize (InDoPlan n) = n"
| "planSize (HybridPlan n _) = n"
| "planSize (TreePlan n _ _ _) = n"

fun planDepth :: "TopologyPlan \<Rightarrow> nat" where
  "planDepth (InDoPlan _) = 0"
| "planDepth (HybridPlan _ _) = 0"
| "planDepth (TreePlan _ _ k _) = k"

datatype Topology = Auto | InDo | Hybrid | Tree

record SelectorOptions =
  soTopology :: "Topology option"
  soMaxFanOut :: "int option"
  soBranchingFactor :: "int option"
  soTreeThreshold :: "int option"

section \<open>balancedFill\<close>

text \<open>
  The slots for a positive size; the loop writes \<open>base + 1\<close> into the first \<open>extras\<close> slots and
  \<open>base\<close> into the others.
\<close>

definition balancedFill :: "nat \<Rightarrow> nat \<Rightarrow> nat list" where
  "balancedFill sz n =
     (if n = 0 then [] else if sz = 0 then replicate n 0
      else map (\<lambda>i. sz div n + (if i < sz mod n then 1 else 0)) [0..<n])"

definition balancedFillMax :: "nat \<Rightarrow> nat \<Rightarrow> nat option \<Rightarrow> string + nat list" where
  "balancedFillMax sz n maxPerSlot =
     (if n = 0 then Inr [] else if sz = 0 then Inr (replicate n 0)
      else case maxPerSlot of
             None \<Rightarrow> Inr (balancedFill sz n)
           | Some m \<Rightarrow>
               if n * m < sz then
                 Inl (''balancedFill: n='' @ showNat n @ '' slots x maxPerSlot='' @ showNat m @
                      '' < size='' @ showNat sz)
               else case find (\<lambda>v. v > m) (balancedFill sz n) of
                      Some v \<Rightarrow> Inl (''balancedFill: slot value '' @ showNat v @
                                     '' exceeds maxPerSlot='' @ showNat m)
                    | None \<Rightarrow> Inr (balancedFill sz n))"

section \<open>The selector\<close>

definition DEFAULT_MAX_FAN_OUT :: int where "DEFAULT_MAX_FAN_OUT = 32"
definition DEFAULT_BRANCHING_FACTOR :: int where "DEFAULT_BRANCHING_FACTOR = 8"

type_synonym logFn = "nat \<Rightarrow> nat \<Rightarrow> nat \<Rightarrow> int"

definition buildHybridPlan :: "nat \<Rightarrow> TopologyPlan" where
  "buildHybridPlan sz = HybridPlan sz (replicate sz 1)"

text \<open>The recursion of \<open>buildTreePlan\<close> with \<open>K = Suc k\<close>; the recursive call forces the depth \<open>K - 1\<close>.\<close>

fun buildTreeLevels :: "nat \<Rightarrow> nat \<Rightarrow> nat \<Rightarrow> nat \<Rightarrow> TopologyPlan" where
  "buildTreeLevels 0 sz F m =
     TreePlan sz F 1
       (map (\<lambda>slice. buildHybridPlan (min slice m)) (filter (\<lambda>s. s > 0) (balancedFill sz F)))"
| "buildTreeLevels (Suc k) sz F m =
     TreePlan sz F (Suc (Suc k))
       (map (\<lambda>slice. buildTreeLevels k slice F m) (filter (\<lambda>s. s > 0) (balancedFill sz F)))"

definition buildTreePlan :: "logFn \<Rightarrow> nat \<Rightarrow> nat \<Rightarrow> nat \<Rightarrow> TopologyPlan" where
  "buildTreePlan lg sz F m =
     (let K = max 1 (lg sz (max 1 m) F) in buildTreeLevels (nat K - 1) sz F m)"

definition buildPinnedPlan ::
  "logFn \<Rightarrow> nat \<Rightarrow> Topology \<Rightarrow> nat \<Rightarrow> nat \<Rightarrow> ParallelError + TopologyPlan" where
  "buildPinnedPlan lg sz requested F m =
     (if requested = InDo then
        (if sz > 1 then
           Inl (TopologyError
             (''topology: '' @ [CHR 0x27] @ ''in-do'' @ [CHR 0x27] @
              '' supports size <= 1 (single-shot loaded isolate); got '' @ showNat sz @ ''. '' @
              ''Use '' @ [CHR 0x27] @ ''auto'' @ [CHR 0x27] @ '' or '' @ [CHR 0x27] @ ''hybrid'' @ [CHR 0x27] @
              '' for larger fan-outs -- each leaf DO is a separate workerd '' @
              ''process with its own V8 scheduler thread, which is where CPU parallelism comes from.'') None)
         else Inr (InDoPlan sz))
      else if requested = Hybrid then
        (if sz > m then
           Inl (TopologyError
             (''topology: '' @ [CHR 0x27] @ ''hybrid'' @ [CHR 0x27] @ '' with maxFanOut='' @ showNat m @
              '' supports size <= '' @ showNat m @ ''; got '' @ showNat sz @ ''. Use '' @ [CHR 0x27] @
              ''tree'' @ [CHR 0x27] @ '' or raise maxFanOut.'') None)
         else Inr (buildHybridPlan sz))
      else Inr (buildTreePlan lg sz F m))"

definition selectTopology :: "logFn \<Rightarrow> int \<Rightarrow> SelectorOptions \<Rightarrow> ParallelError + TopologyPlan" where
  "selectTopology lg sz opts =
     (if sz < 0 then
        Inl (TopologyError (''size must be a non-negative integer, got '' @ showInt sz) None)
      else
        let requested = nullish (soTopology opts) Auto;
            F = nullish (soBranchingFactor opts) DEFAULT_BRANCHING_FACTOR;
            m = nullish (soMaxFanOut opts) DEFAULT_MAX_FAN_OUT;
            thr = nullish (soTreeThreshold opts) m
        in if F < 4 \<or> F > 16 then
             Inl (TopologyError (''branchingFactor must be in [4,16], got '' @ showInt F) None)
           else if m < 1 \<or> m > 256 then
             Inl (TopologyError (''maxFanOut must be in [1,256], got '' @ showInt m) None)
           else if sz = 0 then Inr (InDoPlan 0)
           else if requested \<noteq> Auto then buildPinnedPlan lg (nat sz) requested (nat F) (nat m)
           else if sz = 1 then Inr (InDoPlan 1)
           else if sz \<le> thr then Inr (buildHybridPlan (nat sz))
           else Inr (buildTreePlan lg (nat sz) (nat F) (nat m)))"

section \<open>The exact depth\<close>

text \<open>The least \<open>k\<close> with \<open>sz \<le> m * F ^ k\<close>, for \<open>F \<ge> 2\<close> and \<open>m \<ge> 1\<close>.\<close>

function leastLevel :: "nat \<Rightarrow> nat \<Rightarrow> nat \<Rightarrow> nat" where
  "leastLevel sz m F =
     (if sz \<le> m \<or> F < 2 \<or> m = 0 then 0 else Suc (leastLevel sz (m * F) F))"
  by pat_completeness auto
termination
proof (relation "measure (\<lambda>(sz, m, F). sz - m)", goal_cases)
  case (2 sz m F)
  then have "m < sz" "m < m * F" by simp_all
  then have "sz - m * F < sz - m" by linarith
  then show ?case by simp
qed simp

declare leastLevel.simps [simp del]

definition ceilLog :: logFn where
  "ceilLog sz m F = int (leastLevel sz m F)"

definition logAccurate :: "logFn \<Rightarrow> bool" where
  "logAccurate lg \<longleftrightarrow> (\<forall>sz m F. 2 \<le> F \<longrightarrow> 1 \<le> m \<longrightarrow> 1 \<le> sz \<longrightarrow>
     \<lceil>ln (real sz / real m) / ln (real F)\<rceil> \<le> lg sz m F \<and>
     lg sz m F \<le> max 0 (\<lceil>ln (real sz / real m) / ln (real F)\<rceil> + 1))"


section \<open>balancedFill: nothing lost, evenly spread\<close>

lemma balancedFill_replicate:
  assumes "0 < n"
  shows "balancedFill sz n = replicate (sz mod n) (sz div n + 1) @ replicate (n - sz mod n) (sz div n)"
proof (cases "sz = 0")
  case True
  then show ?thesis using assms by (simp add: balancedFill_def)
next
  case False
  have "sz mod n \<le> n" using assms by (simp add: less_imp_le)
  then show ?thesis using False assms
    by (intro nth_equalityI) (auto simp: balancedFill_def nth_append)
qed

lemma length_balancedFill [simp]: "length (balancedFill sz n) = n"
  by (simp add: balancedFill_def)

lemma sum_balancedFill: "0 < n \<Longrightarrow> sum_list (balancedFill sz n) = sz"
  using div_mult_mod_eq [of sz n] mod_less_divisor [of n sz]
  by (simp add: balancedFill_replicate sum_list_replicate algebra_simps diff_mult_distrib2)

lemma balancedFill_le:
  assumes "v \<in> set (balancedFill sz n)" "sz \<le> n * c"
  shows "v \<le> c"
proof -
  from assms have n: "0 < n" by (auto simp: balancedFill_def split: if_splits)
  from assms have "v = sz div n \<or> v = Suc (sz div n) \<and> sz mod n \<noteq> 0"
    by (auto simp: balancedFill_replicate [OF n] split: if_splits)
  then show ?thesis
  proof
    assume "v = Suc (sz div n) \<and> sz mod n \<noteq> 0"
    then have "n * (sz div n) < n * c"
      using assms(2) by (metis less_le_trans minus_mod_eq_mult_div diff_less mod_greater_zero_iff_not_dvd
          dvd_imp_mod_0 gr0I mod_0)
    then show ?thesis using \<open>v = _ \<and> _\<close> n by simp
  next
    assume "v = sz div n"
    moreover have "sz div n \<le> n * c div n" using assms(2) by (rule div_le_mono)
    ultimately show ?thesis using n by simp
  qed
qed

section \<open>Depth\<close>

lemma leastLevel_bound:
  assumes "2 \<le> F" "1 \<le> m"
  shows "sz \<le> m * F ^ leastLevel sz m F"
  using assms
proof (induction sz m F rule: leastLevel.induct)
  case (1 sz m F)
  then show ?case
    by (subst leastLevel.simps) (auto simp: mult.assoc not_le)
qed

lemma leastLevel_least:
  assumes "2 \<le> F" "1 \<le> m" "sz \<le> m * F ^ k"
  shows "leastLevel sz m F \<le> k"
  using assms
proof (induction sz m F arbitrary: k rule: leastLevel.induct)
  case (1 sz m F)
  show ?case
  proof (cases "sz \<le> m")
    case False
    then obtain j where k: "k = Suc j" using 1 by (cases k) auto
    then have "leastLevel sz (m * F) F \<le> j"
      using 1 False by (auto simp: mult.assoc)
    then show ?thesis using k by (subst leastLevel.simps) auto
  qed (subst leastLevel.simps, simp)
qed

lemma leastLevel_ceiling:
  assumes "2 \<le> F" "1 \<le> m" "1 \<le> sz"
  shows "int (leastLevel sz m F) = max 0 \<lceil>ln (real sz / real m) / ln (real F)\<rceil>"
proof -
  have lnF: "0 < ln (real F)" using assms by simp
  have le: "ln (real sz / real m) / ln (real F) \<le> real k \<longleftrightarrow> sz \<le> m * F ^ k" for k
  proof -
    have "ln (real sz / real m) / ln (real F) \<le> real k \<longleftrightarrow> ln (real sz / real m) \<le> ln (real F ^ k)"
      using lnF assms by (simp add: pos_divide_le_eq ln_realpow)
    also have "\<dots> \<longleftrightarrow> real sz / real m \<le> real F ^ k"
      using assms by (intro ln_le_cancel_iff) auto
    also have "\<dots> \<longleftrightarrow> real sz \<le> real (m * F ^ k)"
      using assms by (simp add: pos_divide_le_eq mult.commute)
    finally show ?thesis by (simp only: of_nat_le_iff)
  qed
  let ?c = "\<lceil>ln (real sz / real m) / ln (real F)\<rceil>"
  have "?c \<le> int (leastLevel sz m F)"
    using le [of "leastLevel sz m F"] leastLevel_bound [OF assms(1,2)] by (simp add: ceiling_le_iff)
  moreover have "leastLevel sz m F \<le> nat ?c"
  proof (rule leastLevel_least [OF assms(1,2)])
    have "ln (real sz / real m) / ln (real F) \<le> real (nat ?c)"
      by (metis le_of_int_ceiling nat_0_le of_int_of_nat_eq of_nat_0_le_iff of_nat_nat order_trans
          real_nat_ceiling_ge)
    then show "sz \<le> m * F ^ nat ?c" by (simp add: le)
  qed
  ultimately show ?thesis by linarith
qed

lemma logAccurate_ceilLog: "logAccurate ceilLog"
  unfolding logAccurate_def ceilLog_def
  by (auto simp: leastLevel_ceiling)

section \<open>Well-formed plans\<close>

text \<open>
  \<open>planOk m F p\<close>: an in-do plan has at most one job; a hybrid plan has one leaf per job and at
  most \<open>m\<close> of them; a tree has between one and \<open>F\<close> children, none empty, whose sizes add up to
  its own, one level less deep than itself and well-formed.
\<close>

fun planOk :: "nat \<Rightarrow> nat \<Rightarrow> TopologyPlan \<Rightarrow> bool" where
  "planOk m F (InDoPlan n) \<longleftrightarrow> n \<le> 1"
| "planOk m F (HybridPlan n shape) \<longleftrightarrow> shape = replicate n 1 \<and> n \<le> m"
| "planOk m F (TreePlan n F' K cs) \<longleftrightarrow> F' = F \<and> 0 < K \<and> length cs \<le> F \<and>
     sum_list (map planSize cs) = n \<and>
     list_all (\<lambda>c. 0 < planSize c \<and> planDepth c = K - 1 \<and> planOk m F c) cs"

text \<open>The sizes of the hybrid leaf tiers, left to right.\<close>

fun leafTiers :: "TopologyPlan \<Rightarrow> nat list" where
  "leafTiers (InDoPlan n) = [n]"
| "leafTiers (HybridPlan n _) = [n]"
| "leafTiers (TreePlan _ _ _ cs) = concat (map leafTiers cs)"

lemma sum_filter_pos [simp]: "sum_list (filter (\<lambda>s. 0 < s) ns) = sum_list ns" for ns :: "nat list"
  by (induction ns) auto

lemma planSize_buildHybrid [simp]: "planSize (buildHybridPlan n) = n"
  by (simp add: buildHybridPlan_def)

lemma planDepth_buildHybrid [simp]: "planDepth (buildHybridPlan n) = 0"
  by (simp add: buildHybridPlan_def)

lemma planSize_levels [simp]: "planSize (buildTreeLevels k sz F m) = sz"
  by (cases k) simp_all

lemma planDepth_levels [simp]: "planDepth (buildTreeLevels k sz F m) = Suc k"
  by (cases k) simp_all

lemma slice_le:
  assumes "v \<in> set (balancedFill sz F)" "sz \<le> m * F ^ Suc k"
  shows "v \<le> m * F ^ k"
  using assms by (intro balancedFill_le [of v sz F]) (simp_all add: mult.left_commute)

lemma map_min_slices:
  assumes "sz \<le> m * F"
  shows "map (planSize \<circ> (\<lambda>s. buildHybridPlan (min s m))) (filter (\<lambda>s. 0 < s) (balancedFill sz F)) =
         filter (\<lambda>s. 0 < s) (balancedFill sz F)"
  using slice_le [where k = 0 and F = F and m = m and sz = sz] assms
  by (intro map_idI) (auto simp: min_def)

lemma levels_ok:
  assumes "sz \<le> m * F ^ Suc k" "2 \<le> F"
  shows "planOk m F (buildTreeLevels k sz F m)"
  using assms
proof (induction k arbitrary: sz)
  case 0
  then have "sz \<le> m * F" by simp
  moreover have "\<And>v. v \<in> set (balancedFill sz F) \<Longrightarrow> 0 < v \<Longrightarrow> 0 < m"
    using slice_le [where k = 0 and F = F and m = m and sz = sz] \<open>sz \<le> m * F\<close> by fastforce
  ultimately show ?case using 0 map_min_slices [of sz m F]
    by (auto simp: sum_balancedFill list_all_iff buildHybridPlan_def length_filter_le
        intro: order_trans [OF length_filter_le])
next
  case (Suc k)
  have "planOk m F (buildTreeLevels k v F m)" if "v \<in> set (balancedFill sz F)" for v
    using slice_le [OF that Suc.prems(1)] Suc by simp
  moreover have "map (planSize \<circ> (\<lambda>s. buildTreeLevels k s F m)) xs = xs" for xs
    by (rule map_idI) simp
  ultimately show ?case using Suc.prems
    by (auto simp: sum_balancedFill list_all_iff intro: order_trans [OF length_filter_le])
qed

lemma planOk_leafTiers:
  "planOk m F p \<Longrightarrow> sum_list (leafTiers p) = planSize p"
  "planOk m F p \<Longrightarrow> 1 \<le> m \<Longrightarrow> n \<in> set (leafTiers p) \<Longrightarrow> n \<le> m"
proof (induction p)
  case (TreePlan n F' K cs)
  { case 1
    then have e: "map (sum_list \<circ> leafTiers) cs = map planSize cs"
      using TreePlan(1) by (auto simp: list_all_iff)
    show ?case using 1 unfolding leafTiers.simps sum_list_concat_map e by simp }
  { case 2 then show ?case using TreePlan(2) by (fastforce simp: list_all_iff) }
qed auto

lemma needed_levels:
  assumes "logAccurate lg" "2 \<le> F" "1 \<le> m" "1 \<le> sz"
  shows "sz \<le> m * F ^ nat (max 1 (lg sz (max 1 m) F))"
proof -
  have "int (leastLevel sz m F) \<le> max 0 (lg sz m F)"
  proof -
    have "\<lceil>ln (real sz / real m) / ln (real F)\<rceil> \<le> lg sz m F"
      using assms unfolding logAccurate_def by blast
    then show ?thesis using assms(2-4) by (simp add: leastLevel_ceiling)
  qed
  then have "leastLevel sz m F \<le> nat (max 1 (lg sz (max 1 m) F))"
    using assms(3) by (auto simp: max_def split: if_splits)
  then have "F ^ leastLevel sz m F \<le> F ^ nat (max 1 (lg sz (max 1 m) F))"
    using assms(2) by (simp add: power_increasing)
  then show ?thesis using leastLevel_bound [OF assms(2,3), of sz]
    by (meson le_trans mult_le_mono2)
qed

lemma buildTreePlan_ok:
  assumes "logAccurate lg" "2 \<le> F" "1 \<le> m" "1 \<le> sz"
  shows "planOk m F (buildTreePlan lg sz F m)"
proof -
  let ?K = "max 1 (lg sz (max 1 m) F)"
  have "Suc (nat ?K - 1) = nat ?K" by simp
  then show ?thesis
    using levels_ok [of sz m F "nat ?K - 1"] needed_levels [OF assms] assms(2)
    by (simp add: buildTreePlan_def Let_def)
qed

lemma planSize_buildTree [simp]: "planSize (buildTreePlan lg sz F m) = sz"
  by (simp add: buildTreePlan_def)

text \<open>
  \<open>balancedFill\<close> returns \<open>n\<close> slots: \<open>size mod n\<close> slots with \<open>size div n + 1\<close> jobs followed by
  slots with \<open>size div n\<close> jobs; together they hold exactly \<open>size\<close> jobs, and the checked variant
  returns the same slots whenever it does not throw.
\<close>

theorem balancedFill_even:
  assumes "0 < n"
  shows "balancedFill sz n = replicate (sz mod n) (sz div n + 1) @ replicate (n - sz mod n) (sz div n) \<and>
         sum_list (balancedFill sz n) = sz \<and>
         (case balancedFillMax sz n cap of Inr xs \<Rightarrow> xs = balancedFill sz n | Inl _ \<Rightarrow>
            (case cap of None \<Rightarrow> False | Some c \<Rightarrow> n * c < sz))"
proof -
  have "find (\<lambda>v. c < v) (balancedFill sz n) = None" if "\<not> n * c < sz" for c
    unfolding find_None_iff using balancedFill_le [where sz = sz and n = n and c = c] that
    by (meson leD leI)
  moreover have "balancedFill 0 n = replicate n 0" by (simp add: balancedFill_def)
  ultimately show ?thesis using assms balancedFill_replicate [OF assms] sum_balancedFill [OF assms]
    by (cases cap) (simp_all add: balancedFillMax_def del: balancedFill_replicate)
qed

theorem balancedFill_even_witness: "balancedFill 17 5 = [4, 4, 3, 3, 3]"
proof -
  have "balancedFill 17 5 =
      replicate (17 mod 5) (17 div 5 + 1) @ replicate (5 - 17 mod 5) (17 div 5)"
    using balancedFill_even [of 5 17 None] by simp
  also have "\<dots> = [4, 4, 3, 3, 3]" by code_simp
  finally show ?thesis .
qed

lemma selectTopology_wf:
  assumes "logAccurate lg" and "selectTopology lg sz opts = Inr p"
    and m: "m = nullish (soMaxFanOut opts) DEFAULT_MAX_FAN_OUT"
    and F: "F = nullish (soBranchingFactor opts) DEFAULT_BRANCHING_FACTOR"
  shows "planOk (nat (max m (nullish (soTreeThreshold opts) m))) (nat F) p \<and>
         planSize p = nat sz \<and> sum_list (leafTiers p) = nat sz"
proof -
  let ?m = "nat (max m (nullish (soTreeThreshold opts) m))"
  have mono: "planOk a f q \<Longrightarrow> a \<le> b \<Longrightarrow> planOk b f q" for a b f q
    by (induction q) (auto simp: list_all_iff)
  have "planOk ?m (nat F) p \<and> planSize p = nat sz"
  proof -
    have tree: "planOk ?m (nat F) (buildTreePlan lg (nat sz) (nat F) (nat m))"
      if "4 \<le> F" "1 \<le> m" "0 < sz"
      using that by (intro mono [OF buildTreePlan_ok [OF assms(1)]]) auto
    have hybrid: "planOk ?m (nat F) (buildHybridPlan (nat sz))" if "sz \<le> b" "b \<le> max m (nullish (soTreeThreshold opts) m)" for b
      using that by (auto simp: buildHybridPlan_def intro: nat_mono)
    have sel: "selectTopology lg sz opts = Inr p" by fact
    show ?thesis
    proof (cases "sz = 0 \<or> sz = 1")
      case True
      then show ?thesis using sel tree hybrid [of m]
        by (auto simp: selectTopology_def buildPinnedPlan_def Let_def simp flip: m F split: if_splits)
    next
      case False
      then have sz: "1 < sz" using sel by (auto simp: selectTopology_def split: if_splits)
      have "4 \<le> F" "1 \<le> m" using sel False
        by (auto simp: selectTopology_def Let_def simp flip: m F split: if_splits)
      with sz tree have tree': "planOk ?m (nat F) (buildTreePlan lg (nat sz) (nat F) (nat m))" by simp
      from sel sz have "p = buildTreePlan lg (nat sz) (nat F) (nat m) \<or>
          (p = buildHybridPlan (nat sz) \<and> (sz \<le> m \<or> sz \<le> nullish (soTreeThreshold opts) m))"
        by (cases "nullish (soTopology opts) Auto")
          (auto simp: selectTopology_def buildPinnedPlan_def Let_def simp flip: m F split: if_splits)
      then show ?thesis using tree' hybrid [of m] hybrid [of "nullish (soTreeThreshold opts) m"] by auto
    qed
  qed
  then show ?thesis using planOk_leafTiers(1) by auto
qed

text \<open>
  The exact bound on a leaf tier: \<open>treeThreshold\<close> (which defaults to \<open>maxFanOut\<close>) for a hybrid plan
  that \<open>auto\<close> chose, \<open>maxFanOut\<close> for every other plan.
\<close>

definition leafCap :: "SelectorOptions \<Rightarrow> TopologyPlan \<Rightarrow> nat" where
  "leafCap opts p =
     (let m = nullish (soMaxFanOut opts) DEFAULT_MAX_FAN_OUT
      in nat (case p of
                HybridPlan _ _ \<Rightarrow>
                  if nullish (soTopology opts) Auto = Auto then nullish (soTreeThreshold opts) m else m
              | _ \<Rightarrow> m))"

lemma buildTreeLevels_tree: "\<exists>K cs. buildTreeLevels k sz F m = TreePlan sz F K cs"
  by (cases k) auto

lemma buildTreePlan_tree: "\<exists>K cs. buildTreePlan lg sz F m = TreePlan sz F K cs"
  unfolding buildTreePlan_def Let_def by (rule buildTreeLevels_tree)

lemma leafCap_tree [simp]:
  "leafCap opts (buildTreePlan lg sz F m) = nat (nullish (soMaxFanOut opts) DEFAULT_MAX_FAN_OUT)"
  using buildTreePlan_tree [of lg sz F m] by (auto simp: leafCap_def Let_def)

lemma leafCap_hybrid [simp]:
  "leafCap opts (buildHybridPlan n) =
     nat (if nullish (soTopology opts) Auto = Auto
          then nullish (soTreeThreshold opts) (nullish (soMaxFanOut opts) DEFAULT_MAX_FAN_OUT)
          else nullish (soMaxFanOut opts) DEFAULT_MAX_FAN_OUT)"
  by (simp add: leafCap_def Let_def buildHybridPlan_def)

lemma planOk_hybrid [simp]: "planOk c F (buildHybridPlan n) \<longleftrightarrow> n \<le> c"
  by (simp add: buildHybridPlan_def)

lemma selectTopology_cap:
  assumes lg: "logAccurate lg" and sel: "selectTopology lg sz opts = Inr p"
  shows "planOk (leafCap opts p) (nat (nullish (soBranchingFactor opts) DEFAULT_BRANCHING_FACTOR)) p"
proof (cases "sz = 0")
  case True
  then show ?thesis using sel by (auto simp: selectTopology_def Let_def split: if_splits)
next
  case False
  with sel show ?thesis
    by (cases "nullish (soTopology opts) Auto")
      (auto simp: selectTopology_def buildPinnedPlan_def Let_def nat_mono
        intro!: buildTreePlan_ok [OF lg] split: if_splits)
qed

text \<open>
  C1. Every plan that \<open>selectTopology\<close> returns covers the requested size exactly: the leaf tiers
  sum up to \<open>size\<close>, every tree level has at most \<open>branchingFactor\<close> non-empty children one level
  shallower, and no leaf tier has more than \<open>maxFanOut\<close> jobs, except that a hybrid plan chosen by
  \<open>auto\<close> is bounded by \<open>treeThreshold\<close> instead, which may be larger. This holds for every rounding
  of \<open>Math.log\<close> that is accurate.
\<close>

theorem selectTopology_covers:
  assumes "logAccurate lg" and "selectTopology lg sz opts = Inr p"
  shows "planOk
           (let m = nullish (soMaxFanOut opts) 32
            in nat (case p of
                      HybridPlan _ _ \<Rightarrow>
                        if nullish (soTopology opts) Auto = Auto then nullish (soTreeThreshold opts) m else m
                    | _ \<Rightarrow> m))
           (nat (nullish (soBranchingFactor opts) 8)) p \<and>
         planSize p = nat sz \<and> sum_list (leafTiers p) = nat sz"
  using selectTopology_cap [OF assms] selectTopology_wf [OF assms refl refl]
  by (simp add: leafCap_def DEFAULT_MAX_FAN_OUT_def DEFAULT_BRANCHING_FACTOR_def)

theorem selectTopology_covers_witness:
  "\<exists>p. selectTopology ceilLog 512 \<lparr>soTopology = None, soMaxFanOut = None, soBranchingFactor = Some 4,
        soTreeThreshold = None\<rparr> = Inr p \<and> planOk 32 4 p \<and> sum_list (leafTiers p) = 512"
proof -
  let ?o = "\<lparr>soTopology = None, soMaxFanOut = None, soBranchingFactor = Some 4, soTreeThreshold = None\<rparr>"
  have sel: "selectTopology ceilLog 512 ?o = Inr (buildTreePlan ceilLog 512 4 32)"
    by (simp add: selectTopology_def DEFAULT_MAX_FAN_OUT_def)
  obtain K cs where t: "buildTreePlan ceilLog 512 4 32 = TreePlan 512 4 K cs"
    using buildTreePlan_tree by blast
  from selectTopology_covers [OF logAccurate_ceilLog sel] sel show ?thesis unfolding t by simp
qed

text \<open>
  C2. \<open>selectTopology\<close> rejects a request with a \<open>TopologyError\<close> in exactly these cases: a negative
  size, a branching factor outside 4..16, a fan-out cap outside 1..256, more than one job pinned to
  \<open>in-do\<close>, more than the cap pinned to \<open>hybrid\<close>; every other request gets a plan.
\<close>

theorem selectTopology_accepts:
  "let F = nullish (soBranchingFactor opts) 8; m = nullish (soMaxFanOut opts) 32;
       t = nullish (soTopology opts) Auto;
       valid = (0 \<le> sz \<and> 4 \<le> F \<and> F \<le> 16 \<and> 1 \<le> m \<and> m \<le> 256 \<and>
                (if t = InDo then sz \<le> 1 else if t = Hybrid then sz \<le> m else True))
   in case selectTopology lg sz opts of
        Inr p \<Rightarrow> valid
      | Inl e \<Rightarrow> \<not> valid \<and> (\<exists>msg. e = TopologyError msg None)"
  by (cases "nullish (soTopology opts) Auto")
    (auto simp: selectTopology_def buildPinnedPlan_def Let_def DEFAULT_MAX_FAN_OUT_def
      DEFAULT_BRANCHING_FACTOR_def)

text \<open>
  With the exact logarithm the depth of a tree plan is \<open>max(1, ceil(log_F(size / maxFanOut)))\<close>,
  and it is the least depth whose \<open>F ^ K\<close> leaf tiers of \<open>maxFanOut\<close> jobs can hold all jobs.
\<close>

theorem tree_depth:
  assumes "2 \<le> F" "1 \<le> m" "1 \<le> sz"
  shows "int (planDepth (buildTreePlan ceilLog sz F m)) = max 1 \<lceil>ln (real sz / real m) / ln (real F)\<rceil> \<and>
         sz \<le> m * F ^ planDepth (buildTreePlan ceilLog sz F m) \<and>
         (\<forall>K. K < planDepth (buildTreePlan ceilLog sz F m) \<longrightarrow> K = 0 \<or> m * F ^ K < sz)"
proof -
  have d: "planDepth (buildTreePlan ceilLog sz F m) = max 1 (leastLevel sz m F)"
    using assms(2) by (auto simp: buildTreePlan_def ceilLog_def Let_def max_def)
  have "int (max 1 (leastLevel sz m F)) = max 1 \<lceil>ln (real sz / real m) / ln (real F)\<rceil>"
    using leastLevel_ceiling [OF assms] by linarith
  moreover have "sz \<le> m * F ^ max 1 (leastLevel sz m F)"
    using leastLevel_bound [OF assms(1,2), of sz] assms(1)
    by (meson le_trans max.cobounded2 mult_le_mono2 one_le_numeral order_trans power_increasing)
  moreover have "m * F ^ K < sz" if "K < max 1 (leastLevel sz m F)" "K \<noteq> 0" for K
    using leastLevel_least [OF assms(1,2), of sz K] that
    by (cases "m * F ^ K < sz") (auto simp: not_less)
  ultimately show ?thesis unfolding d by blast
qed

theorem tree_depth_witness: "planDepth (buildTreePlan ceilLog 512 4 32) = 2"
proof -
  define d where "d = planDepth (buildTreePlan ceilLog 512 4 32)"
  have d: "(512::nat) \<le> 32 * 4 ^ d" "\<forall>K. K < d \<longrightarrow> K = 0 \<or> (32::nat) * 4 ^ K < 512"
    using tree_depth [of 4 32 512] unfolding d_def by simp_all
  have "\<not> 2 < d" using d(2) [rule_format, of 2] by auto
  moreover have "d \<noteq> 0" "d \<noteq> 1" using d(1) by (cases "d = 0"; auto)+
  ultimately show ?thesis unfolding d_def by linarith
qed

end
