(* ===== verification/LeafDO.thy ===== *)
theory LeafDO
  imports Transport Topology
begin

text \<open>
  The durable object of a leaf and everything the tiers above it share: the wire shapes
  (\<open>src/coordinator/protocol.ts\<close>), the transient errors and the retry loop around an RPC
  (\<open>src/coordinator/transient.ts\<close>, \<open>src/coordinator/coordinator.ts\<close>), the batch runner
  (\<open>src/coordinator/worker-do.ts\<close>) and the in-process coordinator
  (\<open>src/coordinator/in-process.ts\<close>).

  The platform is a parameter: for the object with a given name, reached along a given path of retry
  attempts (latest first), whether the RPC to it fails, how its loader answers, its clock, the
  cache-key counter of its isolate, and, by the text of its id, the children that the instance has
  prewarmed before; and for every object its \<open>env\<close> and the text of its id. A failing
  RPC may or may not have run on the other side. What happens is recorded as a list of events: RPCs
  issued, tasks handed to a runner, and the \<open>noop\<close>s of the prewarm passes, which nobody awaits. Calls
  that the code makes in parallel are listed in slice order.
\<close>

section \<open>Wire shapes\<close>

datatype RunOneResult = ROk rval | RFail FailRecord

definition errorToFailedResult :: "thrown \<Rightarrow> RunOneResult" where
  "errorToFailedResult err = RFail (errorToRecord err)"

text \<open>
  The fields that \<open>RunOneRequest\<close>, \<open>RunBatchRequest\<close>, \<open>DispatchTreeRequest\<close> and
  \<open>CoordinatorFanOutRequest\<close> have in common; the requests below hold them as one component.
\<close>

record TaskSpec =
  tsFnSource :: string
  tsFnHash :: string
  tsContext :: "jscontext option"
  tsCacheKeyStrategy :: "CacheKeyStrategy option"
  tsWorkerOptions :: "WireWorkerOptions option"
  tsAllowList :: "string list option"
  tsEnvelope :: RpcEnvelope
  tsFreshIsolate :: bool
  tsCancelStream :: "Delivery option"

record CoordinatorRunRequest =
  crSpec :: TaskSpec
  crArgs :: "rval list"
  crTaskSlot :: "nat option"

record RunBatchRequest =
  rbSpec :: TaskSpec
  rbArgsList :: "rval list list"
  rbTaskSlotBase :: "nat option"

record CoordinatorFanOutRequest =
  cfSpec :: TaskSpec
  cfArgsList :: "rval list list"
  cfSelector :: SelectorOptions
  cfLocationHint :: "string option"

record FanOutResponse =
  frResults :: "RunOneResult list"
  frTopology :: Topology
  frFanOutPerLevel :: "nat list"
  frTreeDepth :: nat

section \<open>The platform\<close>

record Platform =
  plRpc :: "string \<Rightarrow> nat list \<Rightarrow> (bool \<times> thrown) option"
  plLoad :: "string \<Rightarrow> nat list \<Rightarrow> loadFn"
  plNow :: "string \<Rightarrow> nat list \<Rightarrow> int"
  plCounter :: "string \<Rightarrow> nat list \<Rightarrow> nat"
  plPrewarmed :: "string \<Rightarrow> nat list \<Rightarrow> string list"
  plEnv :: "string \<Rightarrow> jsenv"
  plId :: "string \<Rightarrow> string"
  plCpu :: "string option"

datatype event = Rpc string "nat list" | Ran string nat "rval list" "Delivery option" | Noop string

type_synonym 'r logged = "event list \<times> 'r"

definition callRpc :: "Platform \<Rightarrow> string \<Rightarrow> nat list \<Rightarrow> 'r logged \<Rightarrow> (thrown + 'r) logged" where
  "callRpc pl name path answer =
     (case plRpc pl name path of
        None \<Rightarrow> (Rpc name path # fst answer, Inr (snd answer))
      | Some (delivered, err) \<Rightarrow> (Rpc name path # (if delivered then fst answer else []), Inl err))"

text \<open>
  The loop of a prewarm pass over the names of the children: one \<open>noop\<close> to each that is not in the
  prewarm set yet, which it enters. The stub caches that the loop fills are in \<open>Placement\<close>.
\<close>

fun prewarmNoops :: "string list \<Rightarrow> string list \<Rightarrow> event list" where
  "prewarmNoops prewarmed [] = []"
| "prewarmNoops prewarmed (name # names) =
     (if name \<in> set prewarmed then prewarmNoops prewarmed names
      else Noop name # prewarmNoops (prewarmed @ [name]) names)"

section \<open>Transient errors\<close>

definition MAX_TRANSIENT_RETRIES :: nat where "MAX_TRANSIENT_RETRIES = 4"

definition TRANSIENT_LEAF_RETRY_PATTERNS :: "string list" where
  "TRANSIENT_LEAF_RETRY_PATTERNS =
     [''caused object to be reset'', ''durable object reset'', ''durable object storage'',
      ''network connection lost'', ''the script will never generate a response'']"

definition transientMessage :: "string \<Rightarrow> bool" where
  "transientMessage msg = anyIn TRANSIENT_LEAF_RETRY_PATTERNS (toLowerCase msg)"

text \<open>A thrown value that is no \<open>Error\<close> is a string here; other values never match a pattern.\<close>

definition isTransientLeafError :: "thrown \<Rightarrow> bool" where
  "isTransientLeafError err = transientMessage (thrownMessage err)"

fun transientFailure :: "RunOneResult \<Rightarrow> bool" where
  "transientFailure (ROk _) = False"
| "transientFailure (RFail rec) = transientMessage (frMessage rec)"

definition hasTransientRunFailure :: "RunOneResult list \<Rightarrow> bool" where
  "hasTransientRunFailure results = list_ex transientFailure results"

text \<open>The delay before the next attempt in milliseconds; \<open>jitter\<close> is \<open>Math.random()\<close>.\<close>

definition transientBackoff :: "nat \<Rightarrow> rat \<Rightarrow> rat" where
  "transientBackoff attempt jitter = of_nat (100 + attempt * 150) + jitter * 150"

section \<open>The retry loop\<close>

text \<open>
  The loop of \<open>invokeLeafBatchWithRetry\<close>. \<open>call k\<close> is the RPC of attempt \<open>k\<close>; \<open>exhausted\<close> is the error
  after the loop.
\<close>

function retryTransient ::
  "thrown \<Rightarrow> (nat \<Rightarrow> (thrown + RunOneResult list) logged) \<Rightarrow> nat \<Rightarrow> (thrown + RunOneResult list) logged" where
  "retryTransient exhausted call attempt =
     (if MAX_TRANSIENT_RETRIES < attempt then ([], Inl exhausted)
      else case call attempt of
        (es, Inr results) \<Rightarrow>
          if hasTransientRunFailure results \<and> attempt < MAX_TRANSIENT_RETRIES
          then (case retryTransient exhausted call (Suc attempt) of (es', r) \<Rightarrow> (es @ es', r))
          else (es, Inr results)
      | (es, Inl err) \<Rightarrow>
          if \<not> isTransientLeafError err \<or> attempt = MAX_TRANSIENT_RETRIES then (es, Inl err)
          else (case retryTransient exhausted call (Suc attempt) of (es', r) \<Rightarrow> (es @ es', r)))"
  by pat_completeness auto
termination by (relation "measure (\<lambda>(x, call, attempt). Suc MAX_TRANSIENT_RETRIES - attempt)") auto

declare retryTransient.simps [simp del]

text \<open>A slice whose RPC failed for good gets the error on each of its indices.\<close>

definition settleSlice :: "'a list \<Rightarrow> (thrown + RunOneResult list) logged \<Rightarrow> RunOneResult list logged" where
  "settleSlice part r =
     (fst r, case snd r of Inr results \<Rightarrow> results | Inl err \<Rightarrow> map (\<lambda>_. errorToFailedResult err) part)"

section \<open>Running tasks on a durable object\<close>

definition runnerFor :: "TaskSpec \<Rightarrow> jsenv \<Rightarrow> RunnerOptions" where
  "runnerFor spec env =
     \<lparr>roCallSite = DoMethod, roCacheKeyStrategy = nullish (tsCacheKeyStrategy spec) Stable,
      roWorkerOptions = wireToWorkerOptions (tsWorkerOptions spec) (Some env),
      roAllowList = tsAllowList spec\<rparr>"

definition taskInput :: "TaskSpec \<Rightarrow> jsenv \<Rightarrow> RpcEnvelope \<Rightarrow> rval list \<Rightarrow> nat \<Rightarrow> Delivery option \<Rightarrow> RunOneInput" where
  "taskInput spec env envelope args slot stream =
     \<lparr>riFnSource = tsFnSource spec, riFnHash = tsFnHash spec, riContext = tsContext spec,
      riBindings = Some env, riEnvelope = envelope\<lparr>reMode := PoolFn\<rparr>, riArgs = args,
      riFreshIsolate = tsFreshIsolate spec, riTaskSlot = Some slot, riCancelStream = stream,
      riState = None\<rparr>"

definition toResult :: "ParallelError + rval \<Rightarrow> RunOneResult" where
  "toResult r = (case r of Inr v \<Rightarrow> ROk v | Inl e \<Rightarrow> errorToFailedResult (Lib e))"

definition runTask :: "Platform \<Rightarrow> string \<Rightarrow> nat list \<Rightarrow> TaskSpec \<Rightarrow> RpcEnvelope \<Rightarrow> rval list \<Rightarrow> nat \<Rightarrow>
    Delivery option \<Rightarrow> nat \<Rightarrow> RunOneResult \<times> nat" where
  "runTask pl name path spec envelope args slot stream counter =
     (case runWithMode (plLoad pl name path) (plCpu pl) (plNow pl name path)
             (runnerFor spec (plEnv pl name)) (taskInput spec (plEnv pl name) envelope args slot stream)
             PoolFn counter of
        (r, counter') \<Rightarrow> (toResult r, counter'))"

text \<open>The tasks of a batch: arguments, slots and cancel streams in order.\<close>

fun runTasks :: "Platform \<Rightarrow> string \<Rightarrow> nat list \<Rightarrow> TaskSpec \<Rightarrow> nat \<Rightarrow> nat \<Rightarrow>
    (rval list \<times> Delivery option) list \<Rightarrow> RunOneResult list logged" where
  "runTasks pl name path spec slot counter [] = ([], [])"
| "runTasks pl name path spec slot counter ((args, stream) # rest) =
     (case runTask pl name path spec ((tsEnvelope spec)\<lparr>reCancelTokenId := None\<rparr>) args slot stream counter of
        (r, counter') \<Rightarrow>
          (case runTasks pl name path spec (Suc slot) counter' rest of
             (es, rs) \<Rightarrow> (Ran name slot args stream # es, r # rs)))"

definition runBatchOnEnv :: "Platform \<Rightarrow> string \<Rightarrow> nat list \<Rightarrow> RunBatchRequest \<Rightarrow> RunOneResult list logged" where
  "runBatchOnEnv pl name path req =
     (let slotBase = nullish (rbTaskSlotBase req) 0;
          streams = (if length (rbArgsList req) = 1 then [tsCancelStream (rbSpec req)]
                     else forkCancelStream (tsCancelStream (rbSpec req)) (length (rbArgsList req)))
      in runTasks pl name path (rbSpec req) slotBase (plCounter pl name path)
           (zip (rbArgsList req) streams))"

text \<open>\<open>runOne\<close> of the coordinator and of the in-process coordinator.\<close>

definition runOne :: "Platform \<Rightarrow> string \<Rightarrow> nat list \<Rightarrow> CoordinatorRunRequest \<Rightarrow> RunOneResult logged" where
  "runOne pl name path req =
     (let slot = nullish (crTaskSlot req) 0; stream = tsCancelStream (crSpec req) in
      ([Ran name slot (crArgs req) stream],
       fst (runTask pl name path (crSpec req) (tsEnvelope (crSpec req)) (crArgs req) slot stream
              (plCounter pl name path))))"

definition emptyResponse :: FanOutResponse where
  "emptyResponse = \<lparr>frResults = [], frTopology = InDo, frFanOutPerLevel = [], frTreeDepth = 1\<rparr>"

text \<open>The message contains one character outside ASCII, written as its UTF-8 bytes.\<close>

definition inProcessRunMany :: "Platform \<Rightarrow> string \<Rightarrow> nat list \<Rightarrow> CoordinatorFanOutRequest \<Rightarrow>
    (thrown + FanOutResponse) logged" where
  "inProcessRunMany pl name path req =
     (case cfArgsList req of
        [] \<Rightarrow> ([], Inr emptyResponse)
      | [args] \<Rightarrow>
          (case runOne pl name path \<lparr>crSpec = cfSpec req, crArgs = args, crTaskSlot = Some 0\<rparr> of
             (es, r) \<Rightarrow> (es, Inr \<lparr>frResults = [r], frTopology = InDo, frFanOutPerLevel = [1], frTreeDepth = 1\<rparr>))
      | _ \<Rightarrow> ([], Inl (PlainError ''Error''
          (''CfpInProcessCoordinator.runMany: size='' @ showNat (length (cfArgsList req)) @
           '' unsupported; the loopback is single-job only. Fan-outs of size '' @ [CHR 0xE2, CHR 0x89, CHR 0xA5] @
           '' 2 must route through CfpCoordinator '' @
           ''so each task lands in its own leaf DO process for real CPU parallelism.'') None)))"

section \<open>Lemmas on the retry loop\<close>

text \<open>How the loop ends: with the answer of one of its attempts, never with \<open>exhausted\<close>.\<close>

lemma retryTransient_ends:
  assumes "attempt \<le> MAX_TRANSIENT_RETRIES"
  shows "\<exists>k es. attempt \<le> k \<and> k \<le> MAX_TRANSIENT_RETRIES \<and> call k = (es, snd (retryTransient x call attempt)) \<and>
    (k = MAX_TRANSIENT_RETRIES \<or>
     (case snd (retryTransient x call attempt) of
        Inr rs \<Rightarrow> \<not> hasTransientRunFailure rs | Inl e \<Rightarrow> \<not> isTransientLeafError e))"
  using assms
proof (induction x call attempt rule: retryTransient.induct)
  case (1 x call attempt)
  obtain es r where c: "call attempt = (es, r)" by (cases "call attempt")
  show ?case
  proof (cases "attempt < MAX_TRANSIENT_RETRIES \<and>
      (case r of Inr rs \<Rightarrow> hasTransientRunFailure rs | Inl e \<Rightarrow> isTransientLeafError e)")
    case True
    then have n: "\<not> MAX_TRANSIENT_RETRIES < attempt" "Suc attempt \<le> MAX_TRANSIENT_RETRIES" by auto
    have s: "snd (retryTransient x call attempt) = snd (retryTransient x call (Suc attempt))"
      using True c by (subst retryTransient.simps) (auto split: sum.splits prod.splits)
    have "\<exists>k es. Suc attempt \<le> k \<and> k \<le> MAX_TRANSIENT_RETRIES \<and>
        call k = (es, snd (retryTransient x call (Suc attempt))) \<and>
        (k = MAX_TRANSIENT_RETRIES \<or>
         (case snd (retryTransient x call (Suc attempt)) of
            Inr rs \<Rightarrow> \<not> hasTransientRunFailure rs | Inl e \<Rightarrow> \<not> isTransientLeafError e))"
    proof (cases r)
      case (Inl e)
      then show ?thesis using "1.IH"(1) [OF n(1) c [symmetric] Inl _ n(2)] True by auto
    next
      case (Inr rs)
      then show ?thesis using "1.IH"(2) [OF n(1) c [symmetric] Inr _ n(2)] True by auto
    qed
    then show ?thesis unfolding s using Suc_leD by blast
  next
    case False
    then have "retryTransient x call attempt = (es, r)"
      using "1.prems" c by (subst retryTransient.simps) (auto split: sum.splits)
    then show ?thesis using False "1.prems" c by (auto split: sum.splits)
  qed
qed

lemma retryTransient_first:
  assumes "call 0 = (es, r)"
    and "case r of Inr rs \<Rightarrow> \<not> hasTransientRunFailure rs | Inl e \<Rightarrow> \<not> isTransientLeafError e"
  shows "retryTransient x call 0 = (es, r)"
  using assms by (subst retryTransient.simps) (auto split: sum.splits)

text \<open>What accumulates over the attempts is at most five times what one attempt adds.\<close>

lemma retryTransient_count:
  assumes "\<And>k. length (filter P (fst (call k))) \<le> b" "attempt \<le> MAX_TRANSIENT_RETRIES"
  shows "length (filter P (fst (retryTransient x call attempt))) \<le> (Suc MAX_TRANSIENT_RETRIES - attempt) * b"
  using assms
proof (induction x call attempt rule: retryTransient.induct)
  case (1 x call attempt)
  obtain es r where c: "call attempt = (es, r)" by (cases "call attempt")
  have es: "length (filter P es) \<le> b" using "1.prems"(1) [of attempt] c by simp
  have one: "b \<le> (Suc MAX_TRANSIENT_RETRIES - attempt) * b"
    using "1.prems"(2) by (simp add: Suc_diff_le)
  show ?case
  proof (cases "attempt < MAX_TRANSIENT_RETRIES \<and>
      (case r of Inr rs \<Rightarrow> hasTransientRunFailure rs | Inl e \<Rightarrow> isTransientLeafError e)")
    case True
    then have n: "\<not> MAX_TRANSIENT_RETRIES < attempt" "Suc attempt \<le> MAX_TRANSIENT_RETRIES" by auto
    have s: "fst (retryTransient x call attempt) = es @ fst (retryTransient x call (Suc attempt))"
      using True c by (subst retryTransient.simps) (auto split: sum.splits prod.splits)
    have ih: "length (filter P (fst (retryTransient x call (Suc attempt)))) \<le>
        (Suc MAX_TRANSIENT_RETRIES - Suc attempt) * b"
    proof (cases r)
      case (Inl e)
      then show ?thesis using "1.IH"(1) [OF n(1) c [symmetric] Inl _ "1.prems"(1) n(2)] True by auto
    next
      case (Inr rs)
      then show ?thesis using "1.IH"(2) [OF n(1) c [symmetric] Inr _ "1.prems"(1) n(2)] True by auto
    qed
    have "Suc MAX_TRANSIENT_RETRIES - attempt = Suc (Suc MAX_TRANSIENT_RETRIES - Suc attempt)"
      using True by linarith
    then show ?thesis using ih es by (simp add: s)
  next
    case False
    then have "retryTransient x call attempt = (es, r)"
      using "1.prems"(2) c by (subst retryTransient.simps) (auto split: sum.splits)
    then show ?thesis using order_trans [OF es one] by simp
  qed
qed

end
