(* ===== verification/ClientOptions.thy ===== *)
theory ClientOptions
  imports LeafDO
begin

text \<open>
  What a client turns its options into: the options of a pool, an actor or a single call
  (\<open>src/api/options.ts\<close>), the merged context (\<open>src/api/context-merge.ts\<close>), the trailing options bag of
  a submit (\<open>src/api/submit-options.ts\<close>), and from these the \<open>TaskSpec\<close> on the wire and the options of
  the RPC client (\<open>src/api/pool.ts\<close>, \<open>src/api/actor.ts\<close>).

  A cancel token is the time at which it fires and the reason. The cancel stream of a call delivers the
  reason when the token has fired before the call and is pending otherwise.
\<close>

section \<open>Options\<close>

record ClientOptions =
  coBindings :: "jsenv option"
  coContext :: "jscontext option"
  coTimeout :: "int option"
  coRetries :: "int option"
  coRetryDelay :: "int option"
  coGlobalOutbound :: outbound
  coLimits :: "(int option \<times> int option) option"
  coCacheKeyStrategy :: "CacheKeyStrategy option"
  coWorkerOptions :: "WorkerOptions option"
  coTailBindingName :: "string option"

record SubmitOptions =
  sbTimeout :: "int option"
  sbRetries :: "int option"
  sbRetryDelay :: "int option"
  sbContext :: "jscontext option"
  sbCancel :: "(int \<times> string option) option"
  sbCancelId :: string
  sbDeadline :: "int option"
  sbDeadlineMs :: "int option"
  sbFreshIsolate :: bool

definition noSubmitOptions :: SubmitOptions where
  "noSubmitOptions = \<lparr>sbTimeout = None, sbRetries = None, sbRetryDelay = None, sbContext = None,
     sbCancel = None, sbCancelId = [], sbDeadline = None, sbDeadlineMs = None, sbFreshIsolate = False\<rparr>"

section \<open>Context\<close>

text \<open>The merged context is a new object; its identity differs from every one inside its values.\<close>

definition freshRef :: "(string \<times> ctxval) list \<Rightarrow> nat" where
  "freshRef fs = Suc (fold max (concat (map (refsOf \<circ> snd) fs)) 0)"

definition spread :: "('k \<times> 'v) list \<Rightarrow> ('k \<times> 'v) list \<Rightarrow> ('k \<times> 'v) list" where
  "spread base over = fold (\<lambda>(k, v) m. AList.update k v m) over base"

definition mergeContext :: "jscontext option \<Rightarrow> jscontext option \<Rightarrow> jscontext option" where
  "mergeContext poolContext perCall =
     (case poolContext of
        None \<Rightarrow> perCall
      | Some (r, base) \<Rightarrow>
          (case perCall of
             None \<Rightarrow> poolContext
           | Some (r', over) \<Rightarrow> Some (freshRef (spread base over), spread base over)))"

section \<open>The options bag\<close>

definition SUBMIT_OPTION_KEYS :: "string list" where
  "SUBMIT_OPTION_KEYS =
     [''timeout'', ''retries'', ''retryDelay'', ''context'', ''cancel'', ''deadline'', ''deadlineMs'',
      ''freshIsolate'', ''meta'']"

text \<open>
  Of the values only an object has own enumerable keys that can be option names; the keys of a byte
  array are indices, and arrays, dates, regular expressions, maps and sets are excluded.
\<close>

fun isSubmitOptionsBag :: "rval \<Rightarrow> bool" where
  "isSubmitOptionsBag (RObject r ctor fs) =
     (fs \<noteq> [] \<and> list_all (\<lambda>(k, v). k \<in> set SUBMIT_OPTION_KEYS) fs)"
| "isSubmitOptionsBag _ = False"

definition splitSubmitOptions :: "rval list \<Rightarrow> rval list \<times> rval option" where
  "splitSubmitOptions rest =
     (if rest = [] then ([], None)
      else if isSubmitOptionsBag (last rest) then (butlast rest, Some (last rest))
      else (rest, None))"

section \<open>From options to requests\<close>

definition clientWorkerOptions :: "ClientOptions \<Rightarrow> WorkerOptions" where
  "clientWorkerOptions co =
     \<lparr>woCompatibilityDate = Option.bind (coWorkerOptions co) woCompatibilityDate,
      woCompatibilityFlags = Option.bind (coWorkerOptions co) woCompatibilityFlags,
      woGlobalOutbound =
        (if coGlobalOutbound co \<notin> {OutAbsent, OutUndefined} then coGlobalOutbound co
         else case coWorkerOptions co of
                None \<Rightarrow> OutUndefined
              | Some w \<Rightarrow> (if woGlobalOutbound w = OutAbsent then OutUndefined else woGlobalOutbound w)),
      woTails = None,
      woLimits = (if coLimits co = None then Option.bind (coWorkerOptions co) woLimits else coLimits co),
      woTailBindingName = coTailBindingName co\<rparr>"

text \<open>The stream a call hands out: \<open>createCancelStream\<close> and its wiring to the token.\<close>

definition callStream :: "int \<Rightarrow> (int \<times> string option) option \<Rightarrow> Delivery option" where
  "callStream now token =
     (case token of
        None \<Rightarrow> None
      | Some (t, reason) \<Rightarrow>
          Some (csStream (if t \<le> now then writerCancel reason createCancelStream else createCancelStream)))"

definition callEnvelope :: "int \<Rightarrow> CodegenMode \<Rightarrow> SubmitOptions \<Rightarrow> ParallelError + RpcEnvelope" where
  "callEnvelope now mode opts =
     buildEnvelope now
       \<lparr>eoCancel = map_option (\<lambda>(t, reason). (sbCancelId opts, if t \<le> now then (True, reason) else (False, None)))
                     (sbCancel opts),
        eoDeadline = sbDeadline opts, eoDeadlineMs = sbDeadlineMs opts, eoMode = mode, eoTreeDepth = None\<rparr>"

definition clientSpec :: "ClientOptions \<Rightarrow> string \<Rightarrow> SubmitOptions \<Rightarrow> RpcEnvelope \<Rightarrow> Delivery option \<Rightarrow> TaskSpec" where
  "clientSpec co fnSource opts envelope stream =
     \<lparr>tsFnSource = fnSource, tsFnHash = hashSource fnSource,
      tsContext = mergeContext (coContext co) (sbContext opts),
      tsCacheKeyStrategy = Some (nullish (coCacheKeyStrategy co) Stable),
      tsWorkerOptions = workerOptionsToWire (Some (clientWorkerOptions co)),
      tsAllowList = bindingAllowList (coBindings co),
      tsEnvelope = envelope, tsFreshIsolate = sbFreshIsolate opts, tsCancelStream = stream\<rparr>"

text \<open>A deadline of 0 is none: \<open>envelope.deadlineEpochMs || undefined\<close>.\<close>

definition callDispatchOptions :: "ClientOptions \<Rightarrow> SubmitOptions \<Rightarrow> RpcEnvelope \<Rightarrow> DispatchOptions" where
  "callDispatchOptions co opts envelope =
     \<lparr>doTimeout = (if sbTimeout opts = None then coTimeout co else sbTimeout opts),
      doRetries = Some (nullish (sbRetries opts) (nullish (coRetries co) 0)),
      doRetryDelay = Some (nullish (sbRetryDelay opts) (nullish (coRetryDelay co) 100)),
      doCancel = sbCancel opts,
      doDeadlineEpochMs = (if reDeadlineEpochMs envelope = 0 then None else Some (reDeadlineEpochMs envelope))\<rparr>"

section \<open>Lemmas\<close>

lemma map_of_spread: "map_of (spread base over) k = (map_of base ++ map_of (rev over)) k"
proof (induction over arbitrary: base)
  case (Cons kv over)
  then show ?case by (cases kv) (auto simp: spread_def map_add_def split: option.splits)
qed (simp add: spread_def)

lemma mergeContext_lookup:
  "map_of (case mergeContext p c of None \<Rightarrow> [] | Some (r, fs) \<Rightarrow> fs) k =
     (map_of (case p of None \<Rightarrow> [] | Some (r, fs) \<Rightarrow> fs) ++
      map_of (case c of None \<Rightarrow> [] | Some (r, fs) \<Rightarrow> (if p = None then fs else rev fs))) k"
  by (auto simp: mergeContext_def map_of_spread split: option.splits)

text \<open>What a call without an outbound policy sends: the isolate inherits the network of the DO.\<close>

lemma clientWorkerOptions_outbound:
  "woGlobalOutbound (clientWorkerOptions co) \<noteq> OutAbsent"
  by (auto simp: clientWorkerOptions_def split: option.splits)

end
