(* ===== verification/Coordinator.thy ===== *)
theory Coordinator
  imports LeafDO
begin

text \<open>
  The tiers that fan a request out: slicing, the sub-coordinator (\<open>src/coordinator/sub-coordinator.ts\<close>)
  and the coordinator's hybrid and tree dispatch (\<open>src/coordinator/coordinator.ts\<close>).

  The depth field of a \<open>DispatchTreeRequest\<close> is the first argument of \<open>dispatchOnEnv\<close>. The \<open>noop\<close>s of
  the prewarm passes are events here; the prewarm sets and stub caches that they change, which have no
  effect on results, are in \<open>Placement\<close>.
\<close>

section \<open>Slices\<close>

text \<open>The consecutive slices of the given sizes, each with the global slot of its first task.\<close>

fun slicesFrom :: "nat list \<Rightarrow> 'a list \<Rightarrow> nat \<Rightarrow> ('a list \<times> nat) list" where
  "slicesFrom [] args slotBase = []"
| "slicesFrom (n # ns) args slotBase = (take n args, slotBase) # slicesFrom ns (drop n args) (slotBase + n)"

text \<open>The \<open>Promise.all\<close> over the slices, whose results are flattened in slice order.\<close>

fun overSlices :: "(nat \<Rightarrow> 'a list \<Rightarrow> nat \<Rightarrow> Delivery option \<Rightarrow> RunOneResult list logged) \<Rightarrow> nat \<Rightarrow>
    (('a list \<times> nat) \<times> Delivery option) list \<Rightarrow> RunOneResult list logged" where
  "overSlices f i [] = ([], [])"
| "overSlices f i (((part, slotBase), stream) # rest) =
     (case (if part = [] then ([], []) else f i part slotBase stream) of
        (es, rs) \<Rightarrow> (case overSlices f (Suc i) rest of (es', rs') \<Rightarrow> (es @ es', rs @ rs')))"

definition retryError :: "string \<Rightarrow> thrown" where
  "retryError msg = PlainError ''Error'' msg None"

section \<open>Leaves\<close>

text \<open>The stream of an attempt: only the first one gets the live stream.\<close>

definition attemptStream :: "nat \<Rightarrow> Delivery option \<Rightarrow> Delivery option" where
  "attemptStream attempt stream = (if attempt = 0 then stream else None)"

definition leafBatch :: "TaskSpec \<Rightarrow> rval list list \<Rightarrow> nat \<Rightarrow> Delivery option \<Rightarrow> RunBatchRequest" where
  "leafBatch spec args slotBase stream =
     \<lparr>rbSpec = spec\<lparr>tsCancelStream := stream\<rparr>, rbArgsList = args, rbTaskSlotBase = Some slotBase\<rparr>"

text \<open>\<open>invokeLeafBatchWithRetry\<close> together with the \<open>catch\<close> around its call.\<close>

definition invokeLeafBatchWithRetry :: "Platform \<Rightarrow> string \<Rightarrow> nat list \<Rightarrow> TaskSpec \<Rightarrow> rval list list \<Rightarrow> nat \<Rightarrow>
    Delivery option \<Rightarrow> RunOneResult list logged" where
  "invokeLeafBatchWithRetry pl leafName path spec part slotBase stream =
     settleSlice part (retryTransient (retryError ''invokeLeafBatchWithRetry: exhausted retries'')
       (\<lambda>attempt. callRpc pl leafName (attempt # path)
          (runBatchOnEnv pl leafName (attempt # path)
             (leafBatch spec part slotBase (attemptStream attempt stream)))) 0)"

section \<open>The sub-coordinator\<close>

record DispatchTreeRequest =
  dtSpec :: TaskSpec
  dtArgsList :: "rval list list"
  dtPlanChildSizes :: "nat list"
  dtBranchingFactor :: nat
  dtMaxFanOut :: int
  dtTaskSlotBase :: "nat option"
  dtLocationHint :: "string option"

text \<open>One leaf object per job of the slice; the prewarm pass comes first.\<close>

definition leafName :: "string \<Rightarrow> nat \<Rightarrow> nat \<Rightarrow> nat \<Rightarrow> string" where
  "leafName ownerId reqIdx sliceIdx i =
     ownerId @ ''-r'' @ showNat reqIdx @ ''-leaf-'' @ showNat sliceIdx @ ''-'' @ showNat i"

definition dispatchHybridLeaf :: "Platform \<Rightarrow> string \<Rightarrow> nat list \<Rightarrow> nat \<Rightarrow> DispatchTreeRequest \<Rightarrow> nat \<Rightarrow>
    rval list list \<Rightarrow> nat \<Rightarrow> Delivery option \<Rightarrow> RunOneResult list logged" where
  "dispatchHybridLeaf pl ownerId path reqIdx req sliceIdx part sliceSlotBase stream =
     (case overSlices
       (\<lambda>leafIdx batch slotBase cs.
          let leaf = leafName ownerId reqIdx sliceIdx leafIdx
          in settleSlice batch (retryTransient (retryError ''leaf retry exhausted'')
               (\<lambda>attempt. callRpc pl leaf (attempt # path)
                  (runBatchOnEnv pl leaf (attempt # path)
                     (leafBatch ((dtSpec req)\<lparr>tsFreshIsolate := False\<rparr>) batch slotBase
                        (attemptStream attempt cs)))) 0))
       0 (zip (slicesFrom (map (\<lambda>_. 1) part) part sliceSlotBase) (forkCancelStream stream (length part))) of
        (es, rs) \<Rightarrow>
          (prewarmNoops (plPrewarmed pl ownerId path) (map (leafName ownerId reqIdx sliceIdx) [0..<length part]) @ es,
           rs))"

primrec dispatchOnEnv :: "nat \<Rightarrow> Platform \<Rightarrow> string \<Rightarrow> nat list \<Rightarrow> nat \<Rightarrow> DispatchTreeRequest \<Rightarrow>
    RunOneResult list logged" where
  "dispatchOnEnv 0 pl ownerId path reqIdx req =
     overSlices (\<lambda>i part slotBase cs. dispatchHybridLeaf pl ownerId path reqIdx req i part slotBase cs)
       0 (zip (slicesFrom (dtPlanChildSizes req) (dtArgsList req) (nullish (dtTaskSlotBase req) 0))
              (forkCancelStream (tsCancelStream (dtSpec req)) (length (dtPlanChildSizes req))))"
| "dispatchOnEnv (Suc d) pl ownerId path reqIdx req =
     overSlices (\<lambda>i part slotBase cs.
         if Suc d \<le> 1 then dispatchHybridLeaf pl ownerId path reqIdx req i part slotBase cs
         else
           let subId = ownerId @ ''-r'' @ showNat reqIdx @ ''-sub-'' @ showNat i in
           settleSlice part (retryTransient (retryError ''sub-coord retry exhausted'')
             (\<lambda>attempt. callRpc pl subId (attempt # path)
                (dispatchOnEnv d pl (plId pl subId) (attempt # path) 0
                   (req\<lparr>dtSpec := (dtSpec req)\<lparr>tsCancelStream := attemptStream attempt cs\<rparr>,
                        dtArgsList := part,
                        dtPlanChildSizes := balancedFill (length part) (dtBranchingFactor req),
                        dtTaskSlotBase := Some slotBase\<rparr>))) 0))
       0 (zip (slicesFrom (dtPlanChildSizes req) (dtArgsList req) (nullish (dtTaskSlotBase req) 0))
              (forkCancelStream (tsCancelStream (dtSpec req)) (length (dtPlanChildSizes req))))"

section \<open>The coordinator\<close>

fun truthy :: "binding option \<Rightarrow> bool" where
  "truthy None = False"
| "truthy (Some (PlainBinding v)) = (v \<notin> {JUndef, JNull, JBool False, JNum 0, JStr []})"
| "truthy (Some _) = True"

definition hasBinding :: "Platform \<Rightarrow> string \<Rightarrow> string \<Rightarrow> bool" where
  "hasBinding pl name key = truthy (map_of (plEnv pl name) key)"

definition dispatchInDo :: "Platform \<Rightarrow> string \<Rightarrow> nat list \<Rightarrow> nat \<Rightarrow> CoordinatorFanOutRequest \<Rightarrow>
    (thrown + RunOneResult list) logged" where
  "dispatchInDo pl name path n req =
     (if n = 0 then ([], Inr [])
      else if 1 < n then ([], Inl (retryError
        (''BUG: #dispatchInDo received size='' @ showNat n @ ''; in-do is single-job only'')))
      else case runOne pl name path \<lparr>crSpec = cfSpec req, crArgs = hd (cfArgsList req), crTaskSlot = Some 0\<rparr> of
             (es, r) \<Rightarrow> (es, Inr [r]))"

definition dispatchHybrid :: "Platform \<Rightarrow> string \<Rightarrow> nat list \<Rightarrow> nat list \<Rightarrow> CoordinatorFanOutRequest \<Rightarrow> string \<Rightarrow>
    (thrown + RunOneResult list) logged" where
  "dispatchHybrid pl name path leafShape req requestId =
     (if \<not> hasBinding pl name ''CfpWorkerDO'' then
        ([], Inl (retryError
           ''hybrid topology requires CfpWorkerDO binding; add it to wrangler.toml and re-deploy''))
      else case overSlices
          (\<lambda>leafIdx part slotBase cs.
             invokeLeafBatchWithRetry pl
               (plId pl name @ ''-'' @ requestId @ ''-leaf-'' @ showNat leafIdx) path (cfSpec req) part slotBase cs)
          0 (zip (slicesFrom leafShape (cfArgsList req) 0)
                 (forkCancelStream (tsCancelStream (cfSpec req)) (length leafShape))) of
        (es, rs) \<Rightarrow> (es, Inr rs))"

fun planSliceChildSizes :: "TopologyPlan \<Rightarrow> nat list" where
  "planSliceChildSizes (HybridPlan _ leafShape) = leafShape"
| "planSliceChildSizes (TreePlan _ _ _ children) = map planSize children"
| "planSliceChildSizes (InDoPlan _) = []"

text \<open>
  The loop over the sub-trees of a tree plan, which is given by its branching factor, its depth and
  its children. The plans that a tree holds are hybrid or tree plans.
\<close>

definition dispatchTree :: "Platform \<Rightarrow> string \<Rightarrow> nat list \<Rightarrow> nat \<times> nat \<times> TopologyPlan list \<Rightarrow>
    CoordinatorFanOutRequest \<Rightarrow> string \<Rightarrow> (thrown + RunOneResult list) logged" where
  "dispatchTree pl name path plan req requestId =
     (case plan of (branchingFactor, depth, children) \<Rightarrow>
      if \<not> hasBinding pl name ''CfpSubCoord'' then
        ([], Inl (retryError
           ''tree topology requires CfpSubCoord binding; add it to wrangler.toml and re-deploy''))
      else if \<not> hasBinding pl name ''CfpWorkerDO'' then
        ([], Inl (retryError ''tree topology requires CfpWorkerDO binding''))
      else case overSlices
          (\<lambda>subIdx part slotBase cs.
             let subName = plId pl name @ ''-'' @ requestId @ ''-sub-'' @ showNat subIdx in
             settleSlice part (retryTransient (retryError ''sub-coord retry exhausted'')
               (\<lambda>attempt. callRpc pl subName (attempt # path)
                  (dispatchOnEnv (depth - 1) pl (plId pl subName) (attempt # path) 0
                     \<lparr>dtSpec = (cfSpec req)\<lparr>tsFreshIsolate := False, tsCancelStream := attemptStream attempt cs\<rparr>,
                      dtArgsList = part,
                      dtPlanChildSizes = planSliceChildSizes (children ! subIdx),
                      dtBranchingFactor = branchingFactor,
                      dtMaxFanOut = nullish (soMaxFanOut (cfSelector req)) DEFAULT_MAX_FAN_OUT,
                      dtTaskSlotBase = Some slotBase,
                      dtLocationHint = cfLocationHint req\<rparr>)) 0))
          0 (zip (slicesFrom (map planSize children) (cfArgsList req) 0)
                 (forkCancelStream (tsCancelStream (cfSpec req)) (length children))) of
        (es, rs) \<Rightarrow> (es, Inr rs))"

definition dispatchPlan :: "Platform \<Rightarrow> string \<Rightarrow> nat list \<Rightarrow> TopologyPlan \<Rightarrow> CoordinatorFanOutRequest \<Rightarrow> string \<Rightarrow>
    (thrown + RunOneResult list) logged" where
  "dispatchPlan pl name path plan req requestId =
     (case plan of
        InDoPlan n \<Rightarrow> dispatchInDo pl name path n req
      | HybridPlan n leafShape \<Rightarrow> dispatchHybrid pl name path leafShape req requestId
      | TreePlan n F K children \<Rightarrow> dispatchTree pl name path (F, K, children) req requestId)"

text \<open>The widths down the leftmost branch.\<close>

fun leftmostWidths :: "TopologyPlan \<Rightarrow> nat list" where
  "leftmostWidths (InDoPlan n) = [n]"
| "leftmostWidths (HybridPlan n leafShape) = [length leafShape]"
| "leftmostWidths (TreePlan n F K []) = [0]"
| "leftmostWidths (TreePlan n F K (c # cs)) = length (c # cs) # leftmostWidths c"

definition planFanOutPerLevel :: "TopologyPlan \<Rightarrow> nat list" where
  "planFanOutPerLevel plan = leftmostWidths plan"

definition planTopology :: "TopologyPlan \<Rightarrow> Topology" where
  "planTopology plan = (case plan of InDoPlan _ \<Rightarrow> InDo | HybridPlan _ _ \<Rightarrow> Hybrid | TreePlan _ _ _ _ \<Rightarrow> Tree)"

text \<open>What \<open>runMany\<close> prewarms for a plan: the leaves of a hybrid plan, the first tier of a tree.\<close>

definition prewarmNames :: "string \<Rightarrow> string \<Rightarrow> TopologyPlan \<Rightarrow> string list" where
  "prewarmNames coordId requestId plan =
     (case plan of
        HybridPlan _ leafShape \<Rightarrow>
          map (\<lambda>i. coordId @ ''-'' @ requestId @ ''-leaf-'' @ showNat i) [0..<length leafShape]
      | TreePlan _ _ _ children \<Rightarrow>
          map (\<lambda>i. coordId @ ''-'' @ requestId @ ''-sub-'' @ showNat i) [0..<length children]
      | InDoPlan _ \<Rightarrow> [])"

definition prewarmPlan :: "Platform \<Rightarrow> string \<Rightarrow> nat list \<Rightarrow> TopologyPlan \<Rightarrow> string \<Rightarrow> event list" where
  "prewarmPlan pl name path plan requestId =
     (if hasBinding pl name ''CfpWorkerDO'' \<and> planTopology plan = Hybrid \<or>
         hasBinding pl name ''CfpSubCoord'' \<and> planTopology plan = Tree
      then prewarmNoops (plPrewarmed pl (plId pl name) path) (prewarmNames (plId pl name) requestId plan)
      else [])"

definition runMany :: "Platform \<Rightarrow> logFn \<Rightarrow> string \<Rightarrow> nat list \<Rightarrow> CoordinatorFanOutRequest \<Rightarrow>
    (thrown + FanOutResponse) logged" where
  "runMany pl lg name path req =
     (let n = length (cfArgsList req) in
      if n = 0 then ([], Inr emptyResponse)
      else case selectTopology lg (int n) (cfSelector req) of
        Inl e \<Rightarrow> ([], Inl (Lib e))
      | Inr plan \<Rightarrow>
          (case dispatchPlan pl name path plan req [] of
             (es, Inl e) \<Rightarrow> (prewarmPlan pl name path plan [] @ es, Inl e)
           | (es, Inr rs) \<Rightarrow>
               (prewarmPlan pl name path plan [] @ es,
                Inr \<lparr>frResults = rs, frTopology = planTopology plan,
                         frFanOutPerLevel = planFanOutPerLevel plan,
                         frTreeDepth = (case plan of TreePlan _ _ K _ \<Rightarrow> K | _ \<Rightarrow> 1)\<rparr>)))"

end
