(* ===== verification/Placement.thy ===== *)
theory Placement
  imports Coordinator
begin

text \<open>
  Where durable objects are placed and how they are kept warm: the table from colo codes to regions and
  \<open>getStub\<close> (\<open>src/coordinator/internal.ts\<close>), and the stub caches and prewarm sets of a coordinator
  instance (\<open>src/coordinator/coordinator.ts\<close>). A stub is represented by the namespace call that made
  it. The \<open>noop\<close> RPC of a prewarm is not awaited; its failure is an event of its own.
\<close>

section \<open>Placement hints\<close>

definition COLO_TO_REGION :: "(string \<times> string) list" where
  "COLO_TO_REGION =
     [(''SFO'', ''wnam''), (''SJC'', ''wnam''), (''LAX'', ''wnam''), (''SEA'', ''wnam''), (''PDX'', ''wnam''),
      (''PHX'', ''wnam''), (''DEN'', ''wnam''), (''SLC'', ''wnam''), (''LAS'', ''wnam''), (''YVR'', ''wnam''),
      (''IAD'', ''enam''), (''EWR'', ''enam''), (''JFK'', ''enam''), (''BOS'', ''enam''), (''ATL'', ''enam''),
      (''ORD'', ''enam''), (''DFW'', ''enam''), (''MIA'', ''enam''), (''YYZ'', ''enam''), (''YUL'', ''enam''),
      (''MCI'', ''enam''), (''MSP'', ''enam''), (''GRU'', ''sam''), (''GIG'', ''sam''), (''EZE'', ''sam''),
      (''SCL'', ''sam''), (''BOG'', ''sam''), (''LIM'', ''sam''), (''LHR'', ''weur''), (''LON'', ''weur''),
      (''AMS'', ''weur''), (''CDG'', ''weur''), (''FRA'', ''weur''), (''MAD'', ''weur''), (''MXP'', ''weur''),
      (''DUB'', ''weur''), (''BRU'', ''weur''), (''ZRH'', ''weur''), (''STO'', ''weur''), (''ARN'', ''weur''),
      (''CPH'', ''weur''), (''OSL'', ''weur''), (''HEL'', ''weur''), (''VIE'', ''weur''), (''LIS'', ''weur''),
      (''WAW'', ''eeur''), (''PRG'', ''eeur''), (''BUD'', ''eeur''), (''SOF'', ''eeur''), (''OTP'', ''eeur''),
      (''KBP'', ''eeur''), (''IST'', ''eeur''), (''NRT'', ''apac''), (''KIX'', ''apac''), (''HND'', ''apac''),
      (''ICN'', ''apac''), (''HKG'', ''apac''), (''SIN'', ''apac''), (''BKK'', ''apac''), (''KUL'', ''apac''),
      (''TPE'', ''apac''), (''BOM'', ''apac''), (''DEL'', ''apac''), (''MAA'', ''apac''), (''BLR'', ''apac''),
      (''CGK'', ''apac''), (''MNL'', ''apac''), (''SYD'', ''oc''), (''MEL'', ''oc''), (''PER'', ''oc''),
      (''AKL'', ''oc''), (''JNB'', ''afr''), (''CPT'', ''afr''), (''LOS'', ''afr''), (''NBO'', ''afr''),
      (''DXB'', ''me''), (''DOH'', ''me''), (''RUH'', ''me''), (''TLV'', ''me'')]"

definition upperChar :: "char \<Rightarrow> char" where
  "upperChar c = (let n = of_char c :: nat in if 97 \<le> n \<and> n \<le> 122 then char_of (n - 32) else c)"

definition locationHintForColo :: "string option \<Rightarrow> string option" where
  "locationHintForColo colo =
     (if nullish colo [] = [] then None else map_of COLO_TO_REGION (map upperChar (nullish colo [])))"

section \<open>Stubs\<close>

text \<open>\<open>hasGetByName\<close>: the namespace has the method \<open>getByName\<close>; \<open>ById\<close> holds the name given to \<open>idFromName\<close>.\<close>

datatype DOStub = ByName string "string option" | ById string "string option"

definition getStub :: "bool \<Rightarrow> string \<Rightarrow> string option \<Rightarrow> DOStub" where
  "getStub hasGetByName name hint =
     (let opts = (if nullish hint [] = [] then None else hint) in
      if hasGetByName then ByName name opts else ById name opts)"

text \<open>The caches of one coordinator or sub-coordinator instance, for one kind of child.\<close>

record WarmState =
  wsPrewarmed :: "string list"
  wsStubCache :: "(string \<times> DOStub) list"

definition getCachedStub :: "bool \<Rightarrow> string \<Rightarrow> string option \<Rightarrow> WarmState \<Rightarrow> DOStub \<times> WarmState" where
  "getCachedStub byName name hint s =
     (case map_of (wsStubCache s) name of
        Some stub \<Rightarrow> (stub, s)
      | None \<Rightarrow> (let stub = getStub byName name hint in
                 (stub, s\<lparr>wsStubCache := AList.update name stub (wsStubCache s)\<rparr>)))"

text \<open>The factory that the retry loop calls; \<open>refresh\<close> drops the cached stub first.\<close>

definition stubFactory :: "bool \<Rightarrow> string \<Rightarrow> string option \<Rightarrow> bool \<Rightarrow> WarmState \<Rightarrow> DOStub \<times> WarmState" where
  "stubFactory byName name hint refresh s =
     getCachedStub byName name hint
       (if refresh then s\<lparr>wsStubCache := AList.delete name (wsStubCache s)\<rparr> else s)"

text \<open>The names that get a \<open>noop\<close>, in order, and the new state.\<close>

fun schedulePrewarm :: "bool \<Rightarrow> string list \<Rightarrow> string option \<Rightarrow> WarmState \<Rightarrow> string list \<times> WarmState" where
  "schedulePrewarm byName [] hint s = ([], s)"
| "schedulePrewarm byName (name # names) hint s =
     (if name \<in> set (wsPrewarmed s) then schedulePrewarm byName names hint s
      else case schedulePrewarm byName names hint
               (snd (getCachedStub byName name hint (s\<lparr>wsPrewarmed := wsPrewarmed s @ [name]\<rparr>))) of
             (noops, s') \<Rightarrow> (name # noops, s'))"

text \<open>The \<open>catch\<close> handler of a \<open>noop\<close>.\<close>

definition noopFailed :: "string \<Rightarrow> WarmState \<Rightarrow> WarmState" where
  "noopFailed name s = s\<lparr>wsPrewarmed := removeAll name (wsPrewarmed s)\<rparr>"

section \<open>The life of an instance\<close>

datatype warmEvent = Schedule "string list" "string option" | NoopFailed string | Fetch string "string option" bool

primrec warmStep :: "bool \<Rightarrow> warmEvent \<Rightarrow> WarmState \<Rightarrow> string list \<times> WarmState" where
  "warmStep byName (Schedule names hint) s = schedulePrewarm byName names hint s"
| "warmStep byName (NoopFailed name) s = ([], noopFailed name s)"
| "warmStep byName (Fetch name hint refresh) s = ([], snd (stubFactory byName name hint refresh s))"

fun warmRun :: "bool \<Rightarrow> warmEvent list \<Rightarrow> WarmState \<Rightarrow> string list \<times> WarmState" where
  "warmRun byName [] s = ([], s)"
| "warmRun byName (e # es) s =
     (case warmStep byName e s of (noops, s1) \<Rightarrow>
        (case warmRun byName es s1 of (noops', s2) \<Rightarrow> (noops @ noops', s2)))"

definition coldState :: WarmState where "coldState = \<lparr>wsPrewarmed = [], wsStubCache = []\<rparr>"

section \<open>Lemmas\<close>

lemma getCachedStub_simps [simp]:
  "wsPrewarmed (snd (getCachedStub byName name hint s)) = wsPrewarmed s"
  "fst ` set (wsStubCache (snd (getCachedStub byName name hint s))) = insert name (fst ` set (wsStubCache s))"
proof -
  have "map_of m k = Some v \<Longrightarrow> insert k (fst ` set m) = fst ` set m" for m :: "(string \<times> DOStub) list" and k v
    using map_of_SomeD by force
  then show "fst ` set (wsStubCache (snd (getCachedStub byName name hint s))) = insert name (fst ` set (wsStubCache s))"
    by (auto simp: getCachedStub_def Let_def image_fst_update split: option.splits)
qed (simp add: getCachedStub_def Let_def split: option.splits)

lemma schedulePrewarm_effect:
  "wsPrewarmed (snd (schedulePrewarm byName names hint s)) = wsPrewarmed s @ fst (schedulePrewarm byName names hint s)"
  "set (fst (schedulePrewarm byName names hint s)) = set names - set (wsPrewarmed s)"
  "distinct (fst (schedulePrewarm byName names hint s))"
  "fst ` set (wsStubCache (snd (schedulePrewarm byName names hint s))) =
     fst ` set (wsStubCache s) \<union> (set names - set (wsPrewarmed s))"
proof (induction byName names hint s rule: schedulePrewarm.induct)
  case (2 byName name names hint s)
  let ?s = "snd (getCachedStub byName name hint (s\<lparr>wsPrewarmed := wsPrewarmed s @ [name]\<rparr>))"
  { case 1 then show ?case using 2 by (simp add: case_prod_beta)
  next case 2 then show ?case using "2.IH"(2,6) by (auto simp: case_prod_beta)
  next case 3 then show ?case using "2.IH"(2,3,6,7) by (simp add: case_prod_beta)
  next case 4 then show ?case using "2.IH"(4,8) by (auto simp: case_prod_beta) }
qed simp_all

text \<open>Every prewarmed object has a cached stub, and no name is in the prewarm set twice.\<close>

definition warmInv :: "WarmState \<Rightarrow> bool" where
  "warmInv s \<longleftrightarrow> distinct (wsPrewarmed s) \<and> set (wsPrewarmed s) \<subseteq> fst ` set (wsStubCache s)"

lemma keys_delete: "fst ` set (AList.delete k m) = fst ` set m - {k}"
  by (auto simp: AList.delete_eq)

lemma warmInv_step [invs]: "warmInv s \<Longrightarrow> warmInv (snd (warmStep byName e s))"
proof (cases e)
  case (Schedule names hint)
  assume "warmInv s"
  then show ?thesis using schedulePrewarm_effect [of byName names hint s] Schedule
    by (auto simp: warmInv_def)
next
  case (NoopFailed name)
  assume "warmInv s"
  then show ?thesis using NoopFailed by (auto simp: warmInv_def noopFailed_def distinct_removeAll)
next
  case (Fetch name hint refresh)
  assume "warmInv s"
  then show ?thesis using Fetch by (cases refresh) (auto simp: warmInv_def stubFactory_def keys_delete)
qed

text \<open>
  The names are those of the events that the prewarm passes of \<open>runMany\<close> and of the sub-coordinators
  log, for an instance with this prewarm set.
\<close>

lemma prewarmNoops_schedule:
  "prewarmNoops (wsPrewarmed s) names = map Noop (fst (schedulePrewarm byName names hint s))"
  by (induction byName names hint s rule: schedulePrewarm.induct) (simp_all add: case_prod_beta)

text \<open>
  One \<open>noop\<close> per object: along every history of an instance an object gets at most one more \<open>noop\<close>
  than \<open>noop\<close>s to it have failed, and every prewarmed object keeps a cached stub.
\<close>

lemma count_distinct: "distinct xs \<Longrightarrow> count_list xs x = (if x \<in> set xs then 1 else 0)"
  by (induction xs) auto

lemma prewarm_once_from:
  assumes "warmInv s"
  shows "count_list (fst (warmRun byName es s)) name \<le>
      (if name \<in> set (wsPrewarmed s) then 0 else 1) + count_list es (NoopFailed name) \<and>
    warmInv (snd (warmRun byName es s))"
  using assms
proof (induction es arbitrary: s)
  case (Cons e es)
  obtain noops s1 where st: "warmStep byName e s = (noops, s1)" by (cases "warmStep byName e s")
  have inv: "warmInv s1" using warmInv_step [OF Cons.prems, of byName e] st by simp
  have one: "count_list noops name + (if name \<in> set (wsPrewarmed s1) then 0 else 1) \<le>
      (if name \<in> set (wsPrewarmed s) then 0 else 1) + (if e = NoopFailed name then 1 else 0)"
  proof (cases e)
    case (Schedule names hint)
    then show ?thesis using schedulePrewarm_effect [of byName names hint s] st
      by (auto simp: count_distinct)
  next
    case (Fetch n hint refresh)
    then show ?thesis using st by (cases refresh) (auto simp: stubFactory_def)
  qed (use st in \<open>auto simp: noopFailed_def\<close>)
  have "fst (warmRun byName (e # es) s) = noops @ fst (warmRun byName es s1)"
    "snd (warmRun byName (e # es) s) = snd (warmRun byName es s1)"
    by (simp_all add: st case_prod_beta)
  moreover have "count_list (e # es) (NoopFailed name) =
      (if e = NoopFailed name then 1 else 0) + count_list es (NoopFailed name)" by simp
  moreover note Cons.IH [OF inv, THEN conjunct1] one
  ultimately have "count_list (fst (warmRun byName (e # es) s)) name \<le>
      (if name \<in> set (wsPrewarmed s) then 0 else 1) + count_list (e # es) (NoopFailed name)"
    by (simp only: count_list_append)
  with Cons.IH [OF inv] show ?case by (simp add: st case_prod_beta)
qed simp

theorem prewarm_once:
  "count_list (fst (warmRun byName es coldState)) name \<le> Suc (count_list es (NoopFailed name)) \<and>
   warmInv (snd (warmRun byName es coldState))"
  using prewarm_once_from [of coldState byName es name] by (simp add: coldState_def warmInv_def)

end
