(* ===== verification/FanOut.thy ===== *)
theory FanOut
  imports Errors "HOL-Library.Multiset"
begin

text \<open>
  The client side of a fan-out: the worker pool with its error strategies (\<open>src/api/fan-out.ts\<close>), and the
  loops of \<open>reduce\<close>, \<open>scatter\<close>, \<open>pmap\<close>, \<open>mapStream\<close> and \<open>mapOrdered\<close> (\<open>src/api/pool.ts\<close>).

  The workers of \<open>runFanOut\<close> are cut at their awaits: a state is reached by letting the running items
  finish in any order. \<open>run i\<close> is how item \<open>i\<close> ends when it is run. Errors of user values keep their
  class as in \<open>Errors\<close>.
\<close>

section \<open>The worker pool\<close>

datatype OnErrorStrategy = Throw | ThrowFast | NullOnError | Skip | SettledAll

datatype 'r Settled = SettledOk 'r | SettledErr ParallelError

fun asParallel :: "thrown \<Rightarrow> ParallelError" where
  "asParallel (Lib e) = e"
| "asParallel t = BaseParallelError (thrownMessage t) None"

definition settleItem :: "thrown + 'r \<Rightarrow> 'r Settled" where
  "settleItem r = (case r of Inr v \<Rightarrow> SettledOk v | Inl t \<Rightarrow> SettledErr (asParallel t))"

definition siblingAbort :: "'r Settled" where
  "siblingAbort = SettledErr (CancelledError (Some ''aborted by sibling failure'') None)"

record 'r FanState =
  fsCursor :: nat
  fsAborted :: bool
  fsSettled :: "'r Settled option list"
  fsRunning :: "nat list"

definition newFan :: "nat \<Rightarrow> 'r FanState" where
  "newFan n = \<lparr>fsCursor = 0, fsAborted = False, fsSettled = replicate n None, fsRunning = []\<rparr>"

text \<open>One worker from its check of the cursor to the next await or to its end.\<close>

function takeItem :: "nat \<Rightarrow> 'r FanState \<Rightarrow> 'r FanState" where
  "takeItem n st =
     (let idx = fsCursor st; st' = st\<lparr>fsCursor := Suc idx\<rparr> in
      if n \<le> idx then st'
      else if fsAborted st then takeItem n (st'\<lparr>fsSettled := (fsSettled st)[idx := Some siblingAbort]\<rparr>)
      else st'\<lparr>fsRunning := fsRunning st @ [idx]\<rparr>)"
  by pat_completeness auto
termination by (relation "measure (\<lambda>(n, st). n - fsCursor st)") auto

declare takeItem.simps [simp del]

text \<open>Item \<open>idx\<close> ends; its worker records the outcome and goes on.\<close>

definition finishItem :: "nat \<Rightarrow> OnErrorStrategy \<Rightarrow> nat \<Rightarrow> thrown + 'r \<Rightarrow> 'r FanState \<Rightarrow> 'r FanState" where
  "finishItem n onError idx r st =
     takeItem n (st\<lparr>fsRunning := remove1 idx (fsRunning st),
                    fsSettled := (fsSettled st)[idx := Some (settleItem r)],
                    fsAborted := fsAborted st \<or> (onError = ThrowFast \<and> \<not> isOk r)\<rparr>)"

definition startFan :: "nat \<Rightarrow> nat \<Rightarrow> 'r FanState" where
  "startFan n workers = (takeItem n ^^ workers) (newFan n)"

definition workerCount :: "int \<Rightarrow> nat \<Rightarrow> nat" where
  "workerCount concurrency n = nat (max 1 (min concurrency (int n)))"

inductive fanReach :: "nat \<Rightarrow> nat \<Rightarrow> OnErrorStrategy \<Rightarrow> (nat \<Rightarrow> thrown + 'r) \<Rightarrow> 'r FanState \<Rightarrow> bool"
  for n workers onError run where
  start: "fanReach n workers onError run (startFan n workers)"
| finish: "fanReach n workers onError run st \<Longrightarrow> idx \<in> set (fsRunning st) \<Longrightarrow>
    fanReach n workers onError run (finishItem n onError idx (run idx) st)"

section \<open>What a fan-out returns\<close>

text \<open>\<open>Aggregate\<close> stands for an \<open>AggregateExecutionError\<close> with its two maps.\<close>

datatype 'r FanError = Aggregate "(nat \<times> ParallelError) list" "(nat \<times> 'r) list" | Single ParallelError

text \<open>An entry of the result: a value, \<open>null\<close>, or a settled record.\<close>

datatype 'r FanItem = Value 'r | Null | Entry "'r Settled"

fun okValue :: "'r Settled \<Rightarrow> 'r option" where
  "okValue (SettledOk v) = Some v"
| "okValue (SettledErr e) = None"

fun errValue :: "'r Settled \<Rightarrow> ParallelError option" where
  "errValue (SettledOk v) = None"
| "errValue (SettledErr e) = Some e"

definition fanErrors :: "'r Settled list \<Rightarrow> (nat \<times> ParallelError) list" where
  "fanErrors ss = List.map_filter (\<lambda>(i, s). map_option (Pair i) (errValue s)) (enumerate 0 ss)"

definition fanPartial :: "'r Settled list \<Rightarrow> (nat \<times> 'r) list" where
  "fanPartial ss = List.map_filter (\<lambda>(i, s). map_option (Pair i) (okValue s)) (enumerate 0 ss)"

definition fanResult :: "OnErrorStrategy \<Rightarrow> 'r Settled list \<Rightarrow> 'r FanError + 'r FanItem list" where
  "fanResult onError ss =
     (let errors = fanErrors ss; part = fanPartial ss in
      if errors = [] then Inr (map Value (List.map_filter okValue ss))
      else case onError of
        Throw \<Rightarrow>
          Inl (if length errors = 1 \<and> part = [] then Single (snd (hd errors)) else Aggregate errors part)
      | ThrowFast \<Rightarrow>
          Inl (if part \<noteq> [] then Aggregate errors part else Single (snd (hd (sort_key fst errors))))
      | NullOnError \<Rightarrow> Inr (map (\<lambda>s. case s of SettledOk v \<Rightarrow> Value v | SettledErr e \<Rightarrow> Null) ss)
      | Skip \<Rightarrow> Inr (map Value (List.map_filter okValue ss))
      | SettledAll \<Rightarrow> Inr (map Entry ss))"

section \<open>Lemmas on the workers\<close>

definition fanInv :: "nat \<Rightarrow> OnErrorStrategy \<Rightarrow> (nat \<Rightarrow> thrown + 'r) \<Rightarrow> 'r FanState \<Rightarrow> bool" where
  "fanInv n onError run st \<longleftrightarrow>
     length (fsSettled st) = n \<and> distinct (fsRunning st) \<and>
     (\<forall>i \<in> set (fsRunning st). i < n \<and> i < fsCursor st) \<and>
     (\<forall>i < n. fsSettled st ! i = None \<longleftrightarrow> fsCursor st \<le> i \<or> i \<in> set (fsRunning st)) \<and>
     (\<forall>i < n. \<forall>s. fsSettled st ! i = Some s \<longrightarrow>
        s = settleItem (run i) \<or> (fsAborted st \<and> s = siblingAbort)) \<and>
     (fsAborted st \<longrightarrow> onError = ThrowFast \<and> (\<exists>i < n. \<not> isOk (run i)))"

lemma fanInv_new: "fanInv n onError run (newFan n)"
  by (simp add: fanInv_def newFan_def)

lemma fanInv_takeItem: "fanInv n onError run st \<Longrightarrow> fanInv n onError run (takeItem n st)"
proof (induction n st rule: takeItem.induct)
  case (1 n st)
  show ?case
  proof (cases "n \<le> fsCursor st")
    case True
    then show ?thesis using "1.prems" by (subst takeItem.simps) (auto simp: fanInv_def Let_def)
  next
    case False
    show ?thesis
    proof (cases "fsAborted st")
      case True
      let ?st = "st\<lparr>fsCursor := Suc (fsCursor st), fsSettled := (fsSettled st)[fsCursor st := Some siblingAbort]\<rparr>"
      have "fanInv n onError run ?st"
        using "1.prems" True False by (fastforce simp: fanInv_def nth_list_update less_Suc_eq Suc_le_eq)
      then show ?thesis using "1.IH" [OF refl refl False True] False True
        by (subst takeItem.simps) (simp add: Let_def)
    next
      case nab: False
      then show ?thesis using "1.prems" False
        by (subst takeItem.simps) (auto simp: fanInv_def Let_def less_Suc_eq Suc_le_eq)
    qed
  qed
qed

lemma takeItem_busy: "n \<le> fsCursor (takeItem n st) \<or> fsRunning (takeItem n st) \<noteq> []"
proof (induction n st rule: takeItem.induct)
  case (1 n st)
  then show ?case
    by (subst (1 2) takeItem.simps) (auto simp: Let_def)
qed

lemma fanInv_finish:
  assumes "fanInv n onError run st" "idx \<in> set (fsRunning st)"
  shows "fanInv n onError run (finishItem n onError idx (run idx) st)"
  unfolding finishItem_def
proof (rule fanInv_takeItem)
  have "idx < n" "idx < fsCursor st" using assms by (auto simp: fanInv_def)
  then show "fanInv n onError run (st\<lparr>fsRunning := remove1 idx (fsRunning st),
      fsSettled := (fsSettled st)[idx := Some (settleItem (run idx))],
      fsAborted := fsAborted st \<or> (onError = ThrowFast \<and> \<not> isOk (run idx))\<rparr>)"
    using assms unfolding fanInv_def
    by (simp add: nth_list_update set_remove1_eq distinct_remove1) (metis leD)
qed

lemma fanReach_inv: "fanReach n workers onError run st \<Longrightarrow> fanInv n onError run st"
proof (induction rule: fanReach.induct)
  case start
  have "fanInv n onError run ((takeItem n ^^ k) (newFan n))" for k
    by (induction k) (simp_all add: fanInv_new fanInv_takeItem)
  then show ?case by (simp add: startFan_def)
next
  case (finish st idx)
  then show ?case by (intro fanInv_finish)
qed

lemma fanReach_busy:
  assumes "fanReach n workers onError run st" "0 < workers"
  shows "n \<le> fsCursor st \<or> fsRunning st \<noteq> []"
  using assms(1)
proof (cases rule: fanReach.cases)
  case start
  obtain k where "workers = Suc k" using assms(2) by (cases workers) auto
  then show ?thesis using takeItem_busy start by (simp add: startFan_def)
next
  case (finish st' idx)
  then show ?thesis using takeItem_busy by (simp add: finishItem_def)
qed

lemma workerCount_pos [simp]: "0 < workerCount c n"
  by (simp add: workerCount_def)

section \<open>Properties of the worker pool\<close>

text \<open>
  C27. When no item runs any more, every item has settled. Unless the strategy is \<open>throw-fast\<close> each one
  has settled as its own run, so that the result does not depend on the order in which the runs end nor
  on the concurrency; with \<open>throw-fast\<close> an item may instead have been cancelled, and only because some
  item failed.
\<close>

theorem fan_out_settles:
  assumes "fanReach n (workerCount c n) onError run st" "fsRunning st = []"
  shows "length (fsSettled st) = n \<and>
    (\<forall>i < n. fsSettled st ! i = Some (settleItem (run i)) \<or>
      (onError = ThrowFast \<and> (\<exists>j < n. \<not> isOk (run j)) \<and> fsSettled st ! i = Some siblingAbort))"
proof -
  have inv: "fanInv n onError run st" by (rule fanReach_inv [OF assms(1)])
  have "n \<le> fsCursor st" using fanReach_busy [OF assms(1)] assms(2) by simp
  then have "fsSettled st ! i \<noteq> None" if "i < n" for i
    using inv that assms(2) unfolding fanInv_def by (metis empty_iff leD le_trans list.set(1) not_le_imp_less)
  then show ?thesis using inv unfolding fanInv_def by (metis option.exhaust)
qed

theorem fan_out_settles_witness:
  "\<exists>st. fanReach 2 (workerCount 1 2) ThrowFast (\<lambda>i. if i = 0 then Inl (NonError ''x'') else Inr ()) st \<and>
     fsRunning st = [] \<and> fsSettled st ! 1 = Some siblingAbort"
proof -
  let ?run = "\<lambda>i :: nat. if i = 0 then Inl (NonError ''x'') else Inr ()"
  let ?st = "finishItem 2 ThrowFast 0 (?run 0) (startFan 2 (workerCount 1 2))"
  have r: "fsRunning (startFan 2 (workerCount 1 2) :: unit FanState) = [0]" by code_simp
  have "fanReach 2 (workerCount 1 2) ThrowFast ?run (startFan 2 (workerCount 1 2))"
    by (rule fanReach.start)
  from fanReach.finish [OF this, of 0] r
  have reach: "fanReach 2 (workerCount 1 2) ThrowFast ?run ?st" by simp
  have e: "fsRunning ?st = []" "fsSettled ?st ! 1 = Some siblingAbort" by code_simp+
  from fan_out_settles [OF reach e(1)] have "length (fsSettled ?st) = 2" by blast
  then show ?thesis using reach e by blast
qed

lemma fan_filter_none:
  "List.map_filter (\<lambda>(i, s). map_option (Pair i) (f s)) (enumerate k ss) = [] \<longleftrightarrow> list_all (\<lambda>s. f s = None) ss"
  by (induction ss arbitrary: k) (auto simp: List.map_filter_simps split: option.splits)

lemma fanErrors_empty: "fanErrors ss = [] \<longleftrightarrow> list_all (\<lambda>s. errValue s = None) ss"
  by (simp add: fanErrors_def fan_filter_none)

lemma fanPartial_empty: "fanPartial ss = [] \<longleftrightarrow> list_all (\<lambda>s. okValue s = None) ss"
  by (simp add: fanPartial_def fan_filter_none)

lemma okValue_all: "list_all (\<lambda>s. errValue s = None) ss \<Longrightarrow> map SettledOk (List.map_filter okValue ss) = ss"
proof (induction ss)
  case (Cons s ss)
  then show ?case by (cases s) (auto simp: List.map_filter_simps)
qed (simp add: List.map_filter_simps)

text \<open>
  Which shape a call with a non-throwing strategy returns: \<open>null\<close> and \<open>settled\<close> keep one entry per
  item and \<open>skip\<close> keeps the values, in order. With \<open>settled\<close> the entries are records only when some
  item failed; when all succeed they are the bare values.
\<close>

theorem fan_result_shapes:
  "fanResult NullOnError ss = Inr (map (\<lambda>s. case s of SettledOk v \<Rightarrow> Value v | SettledErr e \<Rightarrow> Null) ss) \<and>
   fanResult Skip ss = Inr (map Value (List.map_filter okValue ss)) \<and>
   fanResult SettledAll ss =
     Inr (if list_ex (\<lambda>s. errValue s \<noteq> None) ss then map Entry ss else map Value (List.map_filter okValue ss))"
proof -
  have "map Value (List.map_filter okValue ss) = map (\<lambda>s. case s of SettledOk v \<Rightarrow> Value v | SettledErr e \<Rightarrow> Null) ss"
    if "list_all (\<lambda>s. errValue s = None) ss"
    using okValue_all [OF that] by (metis (no_types, lifting) Settled.simps(5) comp_apply list.map_comp map_eq_conv)
  then show ?thesis
    by (auto simp: fanResult_def Let_def fanErrors_empty list_all_iff list_ex_iff)
qed

lemma map_of_fan:
  "map_of (List.map_filter (\<lambda>(i, s). map_option (Pair i) (f s)) (enumerate k ss)) i =
     (if k \<le> i \<and> i < k + length ss then f (ss ! (i - k)) else None)"
proof (induction ss arbitrary: k)
  case (Cons s ss)
  show ?case
  proof (cases "f s")
    case None
    then show ?thesis using Cons.IH [of "Suc k"]
      by (cases "i = k") (auto simp: List.map_filter_simps nth_Cons' Suc_diff_Suc not_less_eq_eq)
  next
    case (Some v)
    then show ?thesis using Cons.IH [of "Suc k"]
      by (cases "i = k") (auto simp: List.map_filter_simps nth_Cons')
  qed
qed (auto simp: List.map_filter_simps)

lemma map_of_fanErrors: "map_of (fanErrors ss) i = (if i < length ss then errValue (ss ! i) else None)"
  and map_of_fanPartial: "map_of (fanPartial ss) i = (if i < length ss then okValue (ss ! i) else None)"
  unfolding fanErrors_def fanPartial_def by (simp_all add: map_of_fan)

text \<open>
  A call throws exactly when its strategy is \<open>throw\<close> or \<open>throw-fast\<close> and some item failed; the
  aggregate error then has exactly the error of every failed item and the value of every other one
  under its index, and a bare error is thrown only when no item succeeded.
\<close>

theorem fan_result_throws:
  "(case fanResult onError ss of
      Inr items \<Rightarrow> (if onError \<in> {Throw, ThrowFast} then list_all (\<lambda>s. errValue s = None) ss else True)
    | Inl err \<Rightarrow> onError \<in> {Throw, ThrowFast} \<and> list_ex (\<lambda>s. errValue s \<noteq> None) ss \<and>
        (case err of
           Aggregate errors part \<Rightarrow>
             (\<forall>i. map_of errors i = (if i < length ss then errValue (ss ! i) else None) \<and>
                  map_of part i = (if i < length ss then okValue (ss ! i) else None))
         | Single e \<Rightarrow> list_all (\<lambda>s. okValue s = None) ss))"
  by (cases onError; cases "fanErrors ss = []"; cases "fanPartial ss = []")
    (auto simp: fanResult_def Let_def map_of_fanErrors map_of_fanPartial fanErrors_empty fanPartial_empty
      list_ex_iff list_all_iff)

end
