(* ===== verification/Combinators.thy ===== *)
theory Combinators
  imports FanOut
begin

text \<open>
  The loops of a pool around one or more fan-outs (\<open>src/api/pool.ts\<close>): \<open>reduce\<close>, the batches of
  \<open>scatter\<close> and \<open>pmap\<close>, \<open>pipe\<close>, and the two streaming maps.

  \<open>fan\<close> is a fan-out with strategy \<open>throw\<close>: it answers with an error or with one result per argument. A
  loop that may not end is a partial function; \<open>None\<close> means that it never returns.
\<close>

section \<open>reduce\<close>

text \<open>The pairs of a round; the last one is alone when the number of values is odd.\<close>

fun pairsOf :: "'a list \<Rightarrow> ('a \<times> 'a option) list" where
  "pairsOf (a # b # xs) = (a, Some b) # pairsOf xs"
| "pairsOf [a] = [(a, None)]"
| "pairsOf [] = []"

definition validPairs :: "('a \<times> 'a option) list \<Rightarrow> ('a \<times> 'a) list" where
  "validPairs ps = List.map_filter (\<lambda>(a, b). map_option (Pair a) b) ps"

text \<open>The next round: reduced values and carried ones in the order of the pairs.\<close>

fun nextRound :: "('a \<times> 'a option) list \<Rightarrow> 'a list \<Rightarrow> 'a list" where
  "nextRound [] reduced = []"
| "nextRound ((a, None) # ps) reduced = a # nextRound ps reduced"
| "nextRound ((a, Some b) # ps) (r # reduced) = r # nextRound ps reduced"
| "nextRound ((a, Some b) # ps) [] = nextRound ps []"

lemma length_pairsOf: "length (pairsOf xs) = (length xs + 1) div 2"
  by (induction xs rule: pairsOf.induct) auto

lemma length_nextRound: "length (nextRound ps rs) \<le> length ps"
  by (induction ps rs rule: nextRound.induct) auto

function reduceRounds :: "(('a \<times> 'a) list \<Rightarrow> 'e + 'a list) \<Rightarrow> 'a list \<Rightarrow> 'e + 'a" where
  "reduceRounds fan current =
     (if length current \<le> 1 then Inr (hd current)
      else case fan (validPairs (pairsOf current)) of
             Inl e \<Rightarrow> Inl e
           | Inr reduced \<Rightarrow> reduceRounds fan (nextRound (pairsOf current) reduced))"
  by pat_completeness auto
termination
proof (relation "measure (\<lambda>(fan, xs). length xs)")
  fix fan :: "('a \<times> 'a) list \<Rightarrow> 'e + 'a list" and current reduced
  assume "\<not> length current \<le> 1"
  then have "length (nextRound (pairsOf current) reduced) < length current"
    using length_nextRound [of "pairsOf current" reduced] by (simp add: length_pairsOf)
  then show "((fan, nextRound (pairsOf current) reduced), fan, current) \<in> measure (\<lambda>(fan, xs). length xs)" by simp
qed simp

declare reduceRounds.simps [simp del]

definition poolReduce :: "(('a \<times> 'a) list \<Rightarrow> 'e + 'a list) \<Rightarrow> 'a list \<Rightarrow> 'a \<Rightarrow> 'e + 'a" where
  "poolReduce fan items initial = (if items = [] then Inr initial else reduceRounds fan (initial # items))"

section \<open>Batches\<close>

text \<open>\<open>Array.prototype.slice\<close> on integers.\<close>

definition jsIndex :: "int \<Rightarrow> int \<Rightarrow> int" where
  "jsIndex n i = (if i < 0 then max 0 (n + i) else min i n)"

definition jsSlice :: "'a list \<Rightarrow> int \<Rightarrow> int \<Rightarrow> 'a list" where
  "jsSlice xs i j =
     (let a = jsIndex (int (length xs)) i; b = jsIndex (int (length xs)) j in
      take (nat (b - a)) (drop (nat a) xs))"

partial_function (option) chunkLoop :: "int \<Rightarrow> int \<Rightarrow> 'a list \<Rightarrow> 'a list list option" where
  "chunkLoop step i items =
     (if i < int (length items)
      then Option.bind (chunkLoop step (i + step) items) (\<lambda>rest. Some (jsSlice items i (i + step) # rest))
      else Some [])"

definition ceilDiv :: "int \<Rightarrow> int \<Rightarrow> int" where "ceilDiv a b = - ((- a) div b)"

text \<open>The batches of \<open>scatter\<close>; with no chunks the size is infinite and one batch has all items.\<close>

definition scatterBatches :: "'a list \<Rightarrow> int \<Rightarrow> 'a list list option" where
  "scatterBatches items k =
     (if items = [] then Some []
      else if k = 0 then Some [items]
      else chunkLoop (ceilDiv (int (length items)) k) 0 items)"

definition pmapBatches :: "'a list \<Rightarrow> int option \<Rightarrow> 'a list list option" where
  "pmapBatches items k = scatterBatches items (nullish k (int (length items)))"

definition poolPmap :: "('a list list \<Rightarrow> 'e + 'b list list) \<Rightarrow> 'a list \<Rightarrow> int option \<Rightarrow> ('e + 'b list) option" where
  "poolPmap fan items k =
     (if items = [] then Some (Inr [])
      else map_option (\<lambda>batches. bindE (fan batches) (\<lambda>rs. Inr (concat rs))) (pmapBatches items k))"

section \<open>pipe\<close>

fun pipe :: "('f \<Rightarrow> 'a \<Rightarrow> 'e + 'a) \<Rightarrow> 'f list \<Rightarrow> 'a \<Rightarrow> 'e + 'a" where
  "pipe runOne [] v = Inr v"
| "pipe runOne (f # fs) v = bindE (runOne f v) (pipe runOne fs)"

section \<open>Streaming maps\<close>

text \<open>
  \<open>mapStream\<close>: the items in flight, the next item, what has been yielded (\<open>{index, value}\<close>), and the
  error that ended the generator, if one did. \<open>run i\<close> is how the dispatch of item \<open>i\<close> settles.
\<close>

record ('e, 'r) StreamState =
  ssSlots :: "nat list"
  ssCursor :: nat
  ssYielded :: "(nat \<times> 'r) list"
  ssThrew :: "'e option"

definition startStream :: "int \<Rightarrow> nat \<Rightarrow> ('e, 'r) StreamState" where
  "startStream concurrency n =
     (let k = nat (min concurrency (int n))
      in \<lparr>ssSlots = [0..<k], ssCursor = k, ssYielded = [], ssThrew = None\<rparr>)"

text \<open>
  The slot at position \<open>j\<close> wins the race: its value is yielded and the slot replaced by the next item;
  or it rejects, which rejects the race and ends the generator. The other slots stay in flight.
\<close>

definition raceStep :: "(nat \<Rightarrow> 'e + 'r) \<Rightarrow> nat \<Rightarrow> nat \<Rightarrow> ('e, 'r) StreamState \<Rightarrow> ('e, 'r) StreamState" where
  "raceStep run n j st =
     (case run (ssSlots st ! j) of
        Inl e \<Rightarrow> st\<lparr>ssThrew := Some e\<rparr>
      | Inr v \<Rightarrow>
          (let slots = take j (ssSlots st) @ drop (Suc j) (ssSlots st);
               st' = st\<lparr>ssYielded := ssYielded st @ [(ssSlots st ! j, v)]\<rparr>
           in if ssCursor st < n
              then st'\<lparr>ssSlots := slots @ [ssCursor st], ssCursor := Suc (ssCursor st)\<rparr>
              else st'\<lparr>ssSlots := slots\<rparr>))"

inductive streamReach :: "(nat \<Rightarrow> 'e + 'r) \<Rightarrow> nat \<Rightarrow> int \<Rightarrow> ('e, 'r) StreamState \<Rightarrow> bool"
  for run n concurrency where
  start: "streamReach run n concurrency (startStream concurrency n)"
| race: "streamReach run n concurrency st \<Longrightarrow> ssThrew st = None \<Longrightarrow> j < length (ssSlots st) \<Longrightarrow>
     streamReach run n concurrency (raceStep run n j st)"

text \<open>
  \<open>mapOrdered\<close> uses the same workers as \<open>runFanOut\<close>, but as many as \<open>min concurrency n\<close>, and yields the
  settled slots in order. The consumer's view of the slots: yielded values, and how the iteration
  stands.
\<close>

datatype Iteration = Done | Threw ParallelError | Waiting

fun orderedView :: "'r Settled option list \<Rightarrow> 'r list \<times> Iteration" where
  "orderedView [] = ([], Done)"
| "orderedView (None # ss) = ([], Waiting)"
| "orderedView (Some (SettledErr e) # ss) = ([], Threw e)"
| "orderedView (Some (SettledOk v) # ss) = (case orderedView ss of (vs, it) \<Rightarrow> (v # vs, it))"

definition orderedWorkers :: "int \<Rightarrow> nat \<Rightarrow> nat" where
  "orderedWorkers concurrency n = nat (min concurrency (int n))"

section \<open>Lemmas\<close>

fun total :: "('a \<Rightarrow> 'a \<Rightarrow> 'a) \<Rightarrow> 'a list \<Rightarrow> 'a" where
  "total f [] = undefined"
| "total f [a] = a"
| "total f (a # b # xs) = total f (f a b # xs)"

lemma total_foldl: "total f (a # xs) = foldl f a xs"
  by (induction xs arbitrary: a) auto

lemma total_assoc:
  assumes "\<And>a b c. f (f a b) c = f a (f b c)" "xs \<noteq> []"
  shows "total f (a # xs) = f a (total f xs)"
proof -
  obtain b ys where xs: "xs = b # ys" using assms(2) by (cases xs) auto
  have "foldl f (f a b) ys = f a (foldl f b ys)"
    by (induction ys arbitrary: b) (simp_all add: assms(1))
  then show ?thesis by (simp add: xs total_foldl)
qed

lemma validPairs_simps [simp]:
  "validPairs [] = []" "validPairs ((a, None) # ps) = validPairs ps"
  "validPairs ((a, Some b) # ps) = (a, b) # validPairs ps"
  by (simp_all add: validPairs_def List.map_filter_simps)

lemma total_nextRound:
  assumes "\<And>a b c. f (f a b) c = f a (f b c)" "xs \<noteq> []"
  shows "nextRound (pairsOf xs) (map (\<lambda>(a, b). f a b) (validPairs (pairsOf xs))) \<noteq> [] \<and>
    total f (nextRound (pairsOf xs) (map (\<lambda>(a, b). f a b) (validPairs (pairsOf xs)))) = total f xs"
  using assms(2)
proof (induction xs rule: pairsOf.induct)
  case (1 a b xs)
  show ?case
  proof (cases "xs = []")
    case False
    let ?r = "nextRound (pairsOf xs) (map (\<lambda>(a, b). f a b) (validPairs (pairsOf xs)))"
    have "total f (f a b # ?r) = f (f a b) (total f ?r)"
      by (rule total_assoc) (use assms(1) 1 False in auto)
    also have "\<dots> = total f (f a b # xs)"
      using total_assoc [of f xs "f a b"] assms(1) 1 False by simp
    finally show ?thesis by simp
  qed simp
qed simp_all

lemma reduceRounds_total:
  assumes "\<And>a b c. f (f a b) c = f a (f b c)" "\<And>ps. fan ps = Inr (map (\<lambda>(a, b). f a b) ps)" "xs \<noteq> []"
  shows "reduceRounds fan xs = Inr (total f xs)"
  using assms(3)
proof (induction xs rule: measure_induct_rule [where f = length])
  case (less xs)
  show ?case
  proof (cases "length xs \<le> 1")
    case True
    then obtain a where "xs = [a]" using less.prems by (cases xs) auto
    then show ?thesis by (simp add: reduceRounds.simps)
  next
    case False
    let ?r = "nextRound (pairsOf xs) (map (\<lambda>(a, b). f a b) (validPairs (pairsOf xs)))"
    have "length ?r \<le> (length xs + 1) div 2"
      using length_nextRound [of "pairsOf xs" "map (\<lambda>(a, b). f a b) (validPairs (pairsOf xs))"]
      by (simp add: length_pairsOf)
    then have "length ?r < length xs" using False by linarith
    moreover have "?r \<noteq> []" "total f ?r = total f xs"
      using total_nextRound [of f xs] assms(1) less.prems by auto
    ultimately show ?thesis using less.IH [of ?r] False
      by (subst reduceRounds.simps) (simp add: assms(2) [of "validPairs (pairsOf xs)"])
  qed
qed

lemma chunkLoop_stuck:
  assumes "chunkLoop step i items = Some bs" "step \<le> 0"
  shows "int (length items) \<le> i"
proof -
  have "step \<le> 0 \<longrightarrow> int (length items) \<le> i"
  proof (rule chunkLoop.raw_induct [where P = "\<lambda>step i items bs. step \<le> 0 \<longrightarrow> int (length items) \<le> i", OF _ assms(1)])
    fix loop step i and items :: "'a list" and bs
    assume ih: "\<And>step i items bs. loop step i items = Some bs \<Longrightarrow> step \<le> 0 \<longrightarrow> int (length items) \<le> i"
      and body: "(if i < int (length items)
        then Option.bind (loop step (i + step) items) (\<lambda>rest. Some (jsSlice items i (i + step) # rest)) else Some []) = Some bs"
    show "step \<le> 0 \<longrightarrow> int (length items) \<le> i"
    proof (cases "i < int (length items)")
      case True
      then obtain rest where "loop step (i + step) items = Some rest"
        using body by (auto split: bind_splits)
      from ih [OF this] True show ?thesis by auto
    qed simp
  qed
  then show ?thesis using assms(2) by simp
qed

lemma chunkLoop_runs:
  assumes "0 < step" "0 \<le> i"
  shows "\<exists>bs. chunkLoop step i items = Some bs \<and> concat bs = drop (nat i) items \<and> [] \<notin> set bs \<and>
    int (length bs) * step < int (length items) - i + step \<or> int (length items) \<le> i \<and> chunkLoop step i items = Some []"
  using assms
proof (induction "nat (int (length items) - i)" arbitrary: i rule: less_induct)
  case less
  show ?case
  proof (cases "i < int (length items)")
    case False
    then show ?thesis by (simp add: chunkLoop.simps)
  next
    case True
    have "nat (int (length items) - (i + step)) < nat (int (length items) - i)" using True less.prems by linarith
    from less.hyps [OF this less.prems(1)] less.prems
    consider bs where "chunkLoop step (i + step) items = Some bs" "concat bs = drop (nat (i + step)) items"
        "[] \<notin> set bs" "int (length bs) * step < int (length items) - (i + step) + step"
      | "int (length items) \<le> i + step" "chunkLoop step (i + step) items = Some []"
      by auto
    then show ?thesis
    proof cases
      case 1
      have sl: "jsSlice items i (i + step) @ drop (nat (i + step)) items = drop (nat i) items"
      proof -
        define k where "k = nat (min (i + step) (int (length items))) - nat i"
        have "drop (nat (i + step)) items = drop k (drop (nat i) items)"
          using less.prems True
          by (cases "i + step \<le> int (length items)") (auto simp: k_def min_def nat_add_distrib add.commute)
        moreover have "jsSlice items i (i + step) = take k (drop (nat i) items)"
          using less.prems True by (simp add: jsSlice_def jsIndex_def nat_diff_distrib k_def)
        ultimately show ?thesis by (simp only: append_take_drop_id)
      qed
      have "\<not> min (i + step) (int (length items)) \<le> i" "\<not> length items \<le> nat i"
        using less.prems True by linarith+
      then have ne: "jsSlice items i (i + step) \<noteq> []"
        using less.prems True by (simp add: jsSlice_def jsIndex_def)
      have len: "int (length (jsSlice items i (i + step) # bs)) * step < int (length items) - i + step"
        using 1(4) by (simp add: algebra_simps)
      have "chunkLoop step i items = Some (jsSlice items i (i + step) # bs)"
        using True 1(1) by (subst chunkLoop.simps) simp
      with sl ne len 1(2,3) show ?thesis by auto
    next
      case 2
      have "jsSlice items i (i + step) = drop (nat i) items"
        using 2(1) less.prems True by (simp add: jsSlice_def jsIndex_def nat_diff_distrib)
      moreover have "drop (nat i) items \<noteq> []" using True less.prems by simp
      moreover have "chunkLoop step i items = Some [jsSlice items i (i + step)]"
        using True 2(2) by (subst chunkLoop.simps) simp
      ultimately show ?thesis using True by auto
    qed
  qed
qed

section \<open>Properties\<close>

text \<open>
  C28. \<open>reduce\<close> with an associative function is the left fold over the initial value and the items, for
  every number of items, although each round combines neighbours in parallel and carries an odd value
  over.
\<close>

theorem reduce_is_fold:
  assumes "\<And>a b c. f (f a b) c = f a (f b c)" "\<And>ps. fan ps = Inr (map (\<lambda>(a, b). f a b) ps)"
  shows "poolReduce fan items initial = Inr (foldl f initial items)"
proof (cases "items = []")
  case False
  then show ?thesis
    using reduceRounds_total [of f fan "initial # items"] assms by (simp add: poolReduce_def total_foldl)
qed (simp add: poolReduce_def)

theorem reduce_is_fold_witness:
  "poolReduce (\<lambda>ps. Inr (map (\<lambda>(a, b). a + b) ps) :: string + int list) [1, 2, 3, 4] 10 = Inr 20"
proof -
  have "poolReduce (\<lambda>ps. Inr (map (\<lambda>(a, b). a + b) ps) :: string + int list) [1, 2, 3, 4] 10 =
      Inr (foldl (+) 10 [1, 2, 3, 4])"
    by (rule reduce_is_fold) simp_all
  then show ?thesis by simp
qed

text \<open>
  The batches of \<open>scatter\<close> are non-empty, at most as many as the chunks asked for (one when that
  is 0), and together the items in order; with a negative number of chunks and at least one item the
  loop never returns.
\<close>

theorem scatter_batches:
  "(if k < 0 \<and> items \<noteq> [] then scatterBatches items k = None
    else \<exists>bs. scatterBatches items k = Some bs \<and> concat bs = items \<and> [] \<notin> set bs \<and>
      int (length bs) \<le> max 1 k)"
proof -
  let ?n = "int (length items)"
  have neg: "scatterBatches items k = None" if "k < 0" "items \<noteq> []"
  proof (cases "scatterBatches items k")
    case (Some bs)
    have "ceilDiv ?n k \<le> 0"
      using that by (simp add: ceilDiv_def div_nonneg_neg_le0 pos_imp_zdiv_nonneg_iff neg_imp_zdiv_nonneg_iff)
    then show ?thesis
      using chunkLoop_stuck [of "ceilDiv ?n k" 0 items bs] Some that by (simp add: scatterBatches_def)
  qed simp
  have pos: "\<exists>bs. scatterBatches items k = Some bs \<and> concat bs = items \<and> [] \<notin> set bs \<and> int (length bs) \<le> k"
    if kpos: "0 < k" and nonempty: "items \<noteq> []"
  proof -
    let ?c = "ceilDiv ?n k"
    have n: "0 < ?n" using nonempty by simp
    have "(- ?n) div k * k + (- ?n) mod k = - ?n" by (rule div_mult_mod_eq)
    moreover have "0 \<le> (- ?n) mod k" using kpos by simp
    moreover have "?c * k = - ((- ?n) div k * k)" by (simp add: ceilDiv_def)
    ultimately have c: "?n \<le> ?c * k" by linarith
    then have "0 < ?c" using n kpos by (metis linorder_not_less mult_nonpos_nonneg order_less_imp_le order_trans)
    then obtain bs where bs: "chunkLoop ?c 0 items = Some bs" "concat bs = items" "[] \<notin> set bs"
        "int (length bs) * ?c < ?n + ?c"
      using chunkLoop_runs [of ?c 0 items] nonempty by auto
    have "int (length bs) * ?c < (k + 1) * ?c" using bs(4) c by (simp add: algebra_simps)
    then have "int (length bs) \<le> k" using \<open>0 < ?c\<close> by simp
    then show ?thesis using bs kpos nonempty by (auto simp: scatterBatches_def)
  qed
  show ?thesis
  proof (cases "items = [] \<or> k = 0")
    case True
    then show ?thesis by (auto simp: scatterBatches_def)
  next
    case False
    show ?thesis
    proof (cases "k < 0")
      case True
      then show ?thesis using neg False by simp
    next
      case nonneg: False
      then obtain bs where "scatterBatches items k = Some bs" "concat bs = items" "[] \<notin> set bs" "int (length bs) \<le> k"
        using pos False by auto
      then show ?thesis using nonneg by auto
    qed
  qed
qed

definition streamInv :: "(nat \<Rightarrow> 'e + 'r) \<Rightarrow> nat \<Rightarrow> int \<Rightarrow> ('e, 'r) StreamState \<Rightarrow> bool" where
  "streamInv run n concurrency st \<longleftrightarrow>
     mset (map fst (ssYielded st) @ ssSlots st) = mset [0..<ssCursor st] \<and> ssCursor st \<le> n \<and>
     int (length (ssSlots st)) \<le> max 0 concurrency \<and>
     (ssSlots st = [] \<longrightarrow> ssCursor st = n \<or> concurrency \<le> 0) \<and>
     list_all (\<lambda>(i, v). run i = Inr v) (ssYielded st) \<and>
     (\<forall>e. ssThrew st = Some e \<longrightarrow> list_ex (\<lambda>i. run i = Inl e) (ssSlots st))"

lemma mset_remove_nth:
  "j < length xs \<Longrightarrow> mset (take j xs @ drop (Suc j) xs) + {#xs ! j#} = mset xs"
  by (subst (3) id_take_nth_drop [of j xs]) simp_all

lemma streamReach_inv: "streamReach run n concurrency st \<Longrightarrow> streamInv run n concurrency st"
proof (induction rule: streamReach.induct)
  case start
  show ?case by (auto simp: streamInv_def startStream_def Let_def)
next
  case (race st j)
  let ?slots = "take j (ssSlots st) @ drop (Suc j) (ssSlots st)"
  show ?case
  proof (cases "run (ssSlots st ! j)")
    case (Inl e)
    then have "list_ex (\<lambda>i. run i = Inl e) (ssSlots st)"
      using race.hyps(3) by (auto simp: list_ex_iff intro!: bexI [of _ "ssSlots st ! j"])
    then show ?thesis using race.IH Inl by (simp add: streamInv_def raceStep_def)
  next
    case (Inr v)
    have m: "mset ?slots + {#ssSlots st ! j#} = mset (ssSlots st)" by (rule mset_remove_nth [OF race.hyps(3)])
    have len: "length ?slots = length (ssSlots st) - 1" using race.hyps(3) by simp
    have "mset (map fst (ssYielded st) @ [ssSlots st ! j] @ ?slots) = mset [0..<ssCursor st]"
      using race.IH m by (simp add: streamInv_def ac_simps)
    then show ?thesis using race.IH race.hyps(2,3) len Inr
      by (auto simp: streamInv_def raceStep_def Let_def ac_simps atLeastLessThanSuc)
  qed
qed

text \<open>
  C29. \<open>mapStream\<close> on \<open>n\<close> items, whichever dispatches settle first and whichever reject: never more items
  are in flight than the concurrency; every item up to the cursor has been dispatched and is either in
  flight or yielded, once, with its own value. If nothing was thrown and nothing is in flight any more, a
  positive concurrency has yielded every index exactly once; a concurrency of 0 or less yields nothing
  at all. If the generator threw, the error is that of an item in flight, which is not yielded.
\<close>

theorem mapStream_exact:
  assumes "streamReach run n concurrency st"
  shows "int (length (ssSlots st)) \<le> max 0 concurrency \<and> ssCursor st \<le> n \<and>
    mset (map fst (ssYielded st)) + mset (ssSlots st) = mset [0..<ssCursor st] \<and>
    list_all (\<lambda>(i, v). run i = Inr v) (ssYielded st) \<and>
    (case ssThrew st of
       Some e \<Rightarrow> list_ex (\<lambda>i. run i = Inl e \<and> i \<notin> fst ` set (ssYielded st)) (ssSlots st)
     | None \<Rightarrow>
         if ssSlots st \<noteq> [] then True
         else if 0 < concurrency then mset (map fst (ssYielded st)) = mset [0..<n] else ssYielded st = [])"
proof -
  have inv: "streamInv run n concurrency st" by (rule streamReach_inv [OF assms])
  have none: "concurrency \<le> 0 \<Longrightarrow> ssYielded st = [] \<and> ssSlots st = []"
    using assms by (induction rule: streamReach.induct) (auto simp: startStream_def Let_def)
  have "list_ex (\<lambda>i. run i = Inl e \<and> i \<notin> fst ` set (ssYielded st)) (ssSlots st)" if e: "ssThrew st = Some e" for e
  proof -
    obtain i where i: "i \<in> set (ssSlots st)" "run i = Inl e"
      using inv e by (auto simp: streamInv_def list_ex_iff)
    have "i \<notin> fst ` set (ssYielded st)"
      using inv i(2) by (force simp: streamInv_def list_all_iff)
    then show ?thesis using i by (auto simp: list_ex_iff)
  qed
  note threw = this
  show ?thesis
  proof (cases "ssThrew st")
    case None
    then show ?thesis using inv none by (auto simp: streamInv_def not_less)
  next
    case (Some e)
    then show ?thesis using inv threw [OF Some] by (simp add: streamInv_def)
  qed
qed

text \<open>Item 1 is yielded, then item 2, then item 0 rejects.\<close>

theorem mapStream_exact_witness:
  "\<exists>st. streamReach (\<lambda>i. if i = 0 then Inl ''boom'' else Inr i) 3 2 st \<and> ssYielded st = [(1, 1), (2, 2)] \<and>
     ssThrew st = Some ''boom'' \<and> mset (ssSlots st) = {#0#}"
proof -
  let ?run = "\<lambda>i. if i = 0 then Inl ''boom'' else Inr i" and ?init = "startStream 2 3 :: (string, nat) StreamState"
  let ?s = "raceStep ?run 3 0 (raceStep ?run 3 1 (raceStep ?run 3 1 ?init))"
  have l: "1 < length (ssSlots ?init)" "1 < length (ssSlots (raceStep ?run 3 1 ?init))"
    "0 < length (ssSlots (raceStep ?run 3 1 (raceStep ?run 3 1 ?init)))"
    "ssThrew ?init = None" "ssThrew (raceStep ?run 3 1 ?init) = None"
    "ssThrew (raceStep ?run 3 1 (raceStep ?run 3 1 ?init)) = None"
    by code_simp+
  have r: "streamReach ?run 3 2 ?s"
    by (rule streamReach.race [OF streamReach.race [OF streamReach.race [OF streamReach.start l(4,1)] l(5,2)] l(6,3)])
  have e: "ssYielded ?s = [(1, 1), (2, 2)]" "ssThrew ?s = Some ''boom''" "ssCursor ?s = 3" by code_simp+
  from mapStream_exact [OF r] e have "mset [1, 2] + mset (ssSlots ?s) = mset [0..<3]" by simp
  then have "mset (ssSlots ?s) = {#0#}" by (simp add: numeral_3_eq_3 numeral_2_eq_2)
  then show ?thesis using r e by blast
qed

text \<open>
  \<open>mapOrdered\<close> with a concurrency of 0 starts no worker, and its consumer waits for the first slot for
  ever; with a positive concurrency it yields the values in order up to the first error.
\<close>

lemma orderedView_settled:
  "list_all (\<lambda>s. s \<noteq> None) ss \<Longrightarrow> snd (orderedView ss) \<noteq> Waiting"
  by (induction ss rule: orderedView.induct) (auto split: prod.splits)

lemma mapOrdered_stuck:
  assumes "concurrency \<le> 0" "0 < n" "fanReach n (orderedWorkers concurrency n) onError run st"
  shows "orderedView (fsSettled st) = ([], Waiting) \<and> fsRunning st = []"
proof -
  have "st = newFan n" using assms(3)
  proof (induction rule: fanReach.induct)
    case start
    then show ?case using assms(1) by (simp add: startFan_def orderedWorkers_def)
  next
    case (finish st idx)
    then show ?case by (simp add: newFan_def)
  qed
  then show ?thesis using assms(2) by (cases n) (simp_all add: newFan_def)
qed

lemma mapOrdered_ends:
  assumes "0 < concurrency" "0 < n" "fanReach n (orderedWorkers concurrency n) Throw run st" "fsRunning st = []"
  shows "snd (orderedView (fsSettled st)) \<noteq> Waiting"
proof -
  have "orderedWorkers concurrency n = workerCount concurrency n"
    using assms(1,2) by (simp add: orderedWorkers_def workerCount_def)
  then have "n \<le> fsCursor st"
    using fanReach_busy [OF assms(3)] assms(4) by simp
  then have "\<forall>i < length (fsSettled st). fsSettled st ! i \<noteq> None"
    using fanReach_inv [OF assms(3)] assms(4) unfolding fanInv_def by auto
  then show ?thesis by (intro orderedView_settled) (simp add: list_all_length)
qed

end
