(* ===== verification/Pool.thy ===== *)
theory Pool
  imports ClientOptions Placement Combinators
begin

text \<open>
  The pool (\<open>src/api/pool.ts\<close>): its construction and restriction, the choice of a target, a single-shot
  submit and a fan-out from options to outcome, and the counters with the drain barrier as a state
  machine over the calls that start and end. Observability events are left out.

  A call is described by the platform (\<open>LeafDO\<close>), by when each of its attempts settles, and by the
  jitter of its backoffs.
\<close>

section \<open>Construction\<close>

record PoolEnv =
  peLoader :: bool
  peCoordinator :: bool

record PoolOptions =
  poClient :: ClientOptions
  poSelector :: SelectorOptions
  poCoordinatorId :: "string option"
  poInProcess :: bool
  poLocationHint :: "string option"
  poRequestColo :: "string option"
  poAutoWarm :: "bool option"

record Pool =
  plOpts :: PoolOptions
  plCoordinatorName :: string
  plLocationHint :: "string option"
  plInProcess :: bool
  plAutoWarm :: bool

definition DEFAULT_COORDINATOR_NAME :: string where
  "DEFAULT_COORDINATOR_NAME = ''cfp:default''"

definition defaultCoordinatorName :: "string option \<Rightarrow> string" where
  "defaultCoordinatorName hint =
     (if nullish hint [] = [] then DEFAULT_COORDINATOR_NAME
      else DEFAULT_COORDINATOR_NAME @ '':'' @ nullish hint [])"

definition loaderMissing :: "string \<Rightarrow> ParallelError" where
  "loaderMissing factory = BindingError
     (factory @ '' requires a Worker Loader binding. Add `['' @ ''[worker_loaders]]'' @ [CHR 0x5C] @
      ''nbinding = '' @ [CHR 0x22] @ ''LOADER'' @ [CHR 0x22] @ ''` to wrangler.toml.'') None"

definition newPool :: "PoolEnv \<Rightarrow> PoolOptions \<Rightarrow> ParallelError + Pool" where
  "newPool env opts =
     (if \<not> peLoader env then Inl (loaderMissing ''Parallel.pool()'')
      else if \<not> peCoordinator env then Inl (MissingBindingError ''CfpCoordinator'' None)
      else case assertNoLibraryInternalBindings (coBindings (poClient opts)) of
        Some e \<Rightarrow> Inl e
      | None \<Rightarrow>
          let hint = (if poLocationHint opts = None then locationHintForColo (poRequestColo opts)
                      else poLocationHint opts)
          in Inr \<lparr>plOpts = opts,
                  plCoordinatorName = nullish (poCoordinatorId opts) (defaultCoordinatorName hint),
                  plLocationHint = hint, plInProcess = poInProcess opts,
                  plAutoWarm = nullish (poAutoWarm opts) True\<rparr>)"

section \<open>Restriction\<close>

definition restrictedOptions :: "PoolOptions \<Rightarrow> string list \<Rightarrow> PoolOptions" where
  "restrictedOptions opts allow =
     opts\<lparr>poClient := (poClient opts)\<lparr>coBindings := Some (pickBindings (nullish (coBindings (poClient opts)) []) allow)\<rparr>\<rparr>"

definition restrictTo :: "PoolEnv \<Rightarrow> Pool \<Rightarrow> string list \<Rightarrow> ParallelError + Pool" where
  "restrictTo env pool allow = newPool env (restrictedOptions (plOpts pool) allow)"

definition hasExplicitGlobalOutbound :: "ClientOptions \<Rightarrow> bool" where
  "hasExplicitGlobalOutbound co \<longleftrightarrow>
     coGlobalOutbound co \<noteq> OutAbsent \<or>
     (case coWorkerOptions co of None \<Rightarrow> False | Some w \<Rightarrow> woGlobalOutbound w \<noteq> OutAbsent)"

definition restrictForSubmittedCode :: "PoolEnv \<Rightarrow> Pool \<Rightarrow> string list \<Rightarrow> ParallelError + Pool" where
  "restrictForSubmittedCode env pool allow =
     (let restricted = restrictedOptions (plOpts pool) allow in
      newPool env
        (if hasExplicitGlobalOutbound (poClient (plOpts pool)) then restricted
         else restricted\<lparr>poClient := (poClient restricted)\<lparr>coGlobalOutbound := OutNull\<rparr>\<rparr>))"

section \<open>Targets\<close>

datatype Target = Loopback | Coordinator string

definition IN_PROCESS_THRESHOLD :: nat where "IN_PROCESS_THRESHOLD = 1"

definition runOneTarget :: "Pool \<Rightarrow> Target" where
  "runOneTarget pool = (if plInProcess pool then Loopback else Coordinator (plCoordinatorName pool))"

definition runManyTarget :: "Pool \<Rightarrow> nat \<Rightarrow> Target" where
  "runManyTarget pool n =
     (if plInProcess pool \<and> 0 < n \<and> n \<le> IN_PROCESS_THRESHOLD \<and>
         soTopology (poSelector (plOpts pool)) \<in> {None, Some Auto, Some InDo}
      then Loopback else Coordinator (plCoordinatorName pool))"

text \<open>The name under which the platform knows the in-process coordinator.\<close>

definition targetName :: "Target \<Rightarrow> string" where
  "targetName t = (case t of Loopback \<Rightarrow> ''in-process'' | Coordinator name \<Rightarrow> name)"

section \<open>Calls\<close>

text \<open>
  When the promise of an attempt settles: \<open>settlesAt attempt now\<close>. The cancel stream is the same object
  in every attempt.
\<close>

definition runOneSource :: "Platform \<Rightarrow> nat list \<Rightarrow> (nat \<Rightarrow> int \<Rightarrow> int option) \<Rightarrow> (nat \<Rightarrow> rat) \<Rightarrow> Pool \<Rightarrow> int \<Rightarrow>
    string \<Rightarrow> rval list \<Rightarrow> SubmitOptions \<Rightarrow> ParallelError + RunOneResult dispatched" where
  "runOneSource pl path settlesAt jitter pool now fnSource args opts =
     bindE (callEnvelope now PoolFn opts) (\<lambda>envelope.
       let co = poClient (plOpts pool);
           name = targetName (runOneTarget pool);
           req = \<lparr>crSpec = clientSpec co fnSource opts envelope (callStream now (sbCancel opts)),
                  crArgs = args, crTaskSlot = Some 0\<rparr>
       in Inr (snd (dispatchWithResilience (plCpu pl)
            (\<lambda>attempt t. (settlesAt attempt t,
               snd (callRpc pl name (attempt # path) (runOne pl name (attempt # path) req))))
            jitter (callDispatchOptions co opts envelope) now)))"

text \<open>The result of the leaf as the outcome of the submit.\<close>

definition decodeResult :: "RunOneResult \<Rightarrow> ParallelError + rval" where
  "decodeResult r = (case r of ROk v \<Rightarrow> Inr v | RFail rec \<Rightarrow> Inl (leafErrorToTypedError rec))"

fun runManyOn :: "Platform \<Rightarrow> logFn \<Rightarrow> Target \<Rightarrow> nat list \<Rightarrow> CoordinatorFanOutRequest \<Rightarrow>
    (thrown + FanOutResponse) logged" where
  "runManyOn pl lg Loopback path req = inProcessRunMany pl (targetName Loopback) path req"
| "runManyOn pl lg (Coordinator name) path req = runMany pl lg name path req"

fun joinE :: "'e + ('e + 'a) \<Rightarrow> 'e + 'a" where
  "joinE (Inl e) = Inl e"
| "joinE (Inr r) = r"

text \<open>A fan-out up to the response of the coordinator.\<close>

definition fanOutResponse :: "Platform \<Rightarrow> logFn \<Rightarrow> nat list \<Rightarrow> (nat \<Rightarrow> int \<Rightarrow> int option) \<Rightarrow> (nat \<Rightarrow> rat) \<Rightarrow>
    Pool \<Rightarrow> int \<Rightarrow> string \<Rightarrow> rval list list \<Rightarrow> SubmitOptions \<Rightarrow> ParallelError + FanOutResponse dispatched" where
  "fanOutResponse pl lg path settlesAt jitter pool now fnSource argsList opts =
     bindE (callEnvelope now PoolFn opts) (\<lambda>envelope.
       let co = poClient (plOpts pool);
           target = runManyTarget pool (length argsList);
           req = \<lparr>cfSpec = clientSpec co fnSource opts envelope (callStream now (sbCancel opts)),
                  cfArgsList = argsList, cfSelector = poSelector (plOpts pool),
                  cfLocationHint = plLocationHint pool\<rparr>
       in Inr (snd (dispatchWithResilience (plCpu pl)
            (\<lambda>attempt t. (settlesAt attempt t,
               joinE (snd (callRpc pl (targetName target) (attempt # path) (runManyOn pl lg target (attempt # path) req)))))
            jitter (callDispatchOptions co opts envelope) now)))"

text \<open>
  The \<open>runFanOut\<close> over the results: item \<open>i\<close> is the decoded result \<open>i\<close>, and there are as many workers as
  items.
\<close>

definition resultRun :: "RunOneResult list \<Rightarrow> nat \<Rightarrow> thrown + rval" where
  "resultRun results i = (case decodeResult (results ! i) of Inr v \<Rightarrow> Inr v | Inl e \<Rightarrow> Inl (Lib e))"

definition fanOutOutcome :: "OnErrorStrategy \<Rightarrow> RunOneResult list \<Rightarrow> rval FanError + rval FanItem list" where
  "fanOutOutcome onError results =
     fanResult onError (map (settleItem \<circ> resultRun results) [0..<length results])"

text \<open>The argument lists of \<open>map\<close>.\<close>

definition mapArgs :: "rval list \<Rightarrow> rval list list" where
  "mapArgs items = map (\<lambda>i. [i]) items"

section \<open>Counters and drain\<close>

text \<open>\<open>psWaiting\<close>: the callers of \<open>drain\<close> that wait for the barrier; \<open>psDrained\<close>: those that have returned.\<close>

record PoolState =
  psCompleted :: nat
  psFailed :: nat
  psCancelled :: nat
  psInFlight :: nat
  psBarrier :: bool
  psWaiting :: nat
  psDrained :: nat
  psFnShapes :: "string list"
  psEvictions :: "int list"
  psPrewarmed :: bool
  psLastTopology :: "Topology option"
  psLastTreeDepth :: nat
  psLastFanOutPerLevel :: "nat list"
  psLastTopologyDecisionAt :: int

definition newPoolState :: PoolState where
  "newPoolState = \<lparr>psCompleted = 0, psFailed = 0, psCancelled = 0, psInFlight = 0, psBarrier = False,
     psWaiting = 0, psDrained = 0, psFnShapes = [], psEvictions = [], psPrewarmed = False,
     psLastTopology = None, psLastTreeDepth = 1, psLastFanOutPerLevel = [], psLastTopologyDecisionAt = 0\<rparr>"

definition inFlightInc :: "nat \<Rightarrow> PoolState \<Rightarrow> PoolState" where
  "inFlightInc n s = s\<lparr>psInFlight := psInFlight s + n\<rparr>"

definition inFlightDec :: "nat \<Rightarrow> PoolState \<Rightarrow> PoolState" where
  "inFlightDec n s =
     (let s' = s\<lparr>psInFlight := psInFlight s - n\<rparr> in
      if psInFlight s' = 0 \<and> psBarrier s'
      then s'\<lparr>psBarrier := False, psWaiting := 0, psDrained := psDrained s' + psWaiting s'\<rparr> else s')"

definition drain :: "PoolState \<Rightarrow> PoolState" where
  "drain s =
     (if psInFlight s = 0 then s\<lparr>psDrained := psDrained s + 1\<rparr>
      else s\<lparr>psBarrier := True, psWaiting := psWaiting s + 1\<rparr>)"

text \<open>
  How a submit ends, with the counters: \<open>failed\<close> counts failures that the leaf reported, \<open>cancelled\<close> an
  outcome whose name is \<open>CancelledError\<close>; other errors of the dispatch are counted nowhere.
\<close>

definition submitEnds :: "thrown + RunOneResult \<Rightarrow> PoolState \<Rightarrow> (thrown + rval) \<times> PoolState" where
  "submitEnds r s =
     (let outcome = (case r of Inl t \<Rightarrow> Inl t
                     | Inr res \<Rightarrow> (case decodeResult res of Inr v \<Rightarrow> Inr v | Inl e \<Rightarrow> Inl (Lib e)));
          s1 = (case r of Inr (ROk v) \<Rightarrow> s\<lparr>psCompleted := psCompleted s + 1\<rparr>
                | Inr (RFail rec) \<Rightarrow> s\<lparr>psFailed := psFailed s + 1\<rparr> | Inl t \<Rightarrow> s);
          s2 = (case outcome of
                  Inl t \<Rightarrow> if fst (asError t) = ''CancelledError'' then s1\<lparr>psCancelled := psCancelled s1 + 1\<rparr> else s1
                | Inr v \<Rightarrow> s1)
      in (outcome, inFlightDec 1 s2))"

definition fanOutEnds :: "int \<Rightarrow> nat \<Rightarrow> thrown + FanOutResponse \<Rightarrow> PoolState \<Rightarrow> PoolState" where
  "fanOutEnds now n r s =
     (case r of
        Inl t \<Rightarrow> inFlightDec n s
      | Inr resp \<Rightarrow>
          (inFlightDec n s)\<lparr>psLastTopology := Some (frTopology resp), psLastTreeDepth := frTreeDepth resp,
             psLastFanOutPerLevel := frFanOutPerLevel resp, psLastTopologyDecisionAt := now,
             psCompleted := psCompleted s + length (filter (\<lambda>x. isOk (decodeResult x)) (frResults resp)),
             psFailed := psFailed s + length (filter (\<lambda>x. \<not> isOk (decodeResult x)) (frResults resp))\<rparr>)"

text \<open>A retry on backpressure leaves a mark; \<open>stats\<close> forgets the marks that are older than a minute.\<close>

definition noteRetry :: "int \<Rightarrow> ParallelError \<Rightarrow> PoolState \<Rightarrow> PoolState" where
  "noteRetry now err s =
     (if errName err = ''BackpressureError'' then s\<lparr>psEvictions := psEvictions s @ [now]\<rparr> else s)"

definition noteShape :: "string \<Rightarrow> PoolState \<Rightarrow> PoolState" where
  "noteShape fnHash s = s\<lparr>psFnShapes := List.insert fnHash (psFnShapes s)\<rparr>"

record PoolStats =
  sInFlight :: nat
  sQueued :: nat
  sCompleted :: nat
  sFailed :: nat
  sCancelled :: nat
  sTopology :: Topology
  sTopologyDecisionAt :: int
  sWarmIsolatesEstimate :: nat
  sUniqueFnShapesToday :: nat
  sLruEvictionLast60sCount :: nat
  sTreeDepth :: nat
  sFanOutPerLevel :: "nat list"

definition poolStats :: "int \<Rightarrow> Pool \<Rightarrow> PoolState \<Rightarrow> PoolStats \<times> PoolState" where
  "poolStats now pool s =
     (let s' = s\<lparr>psEvictions := dropWhile (\<lambda>t. t < now - 60000) (psEvictions s)\<rparr>;
          pinned = soTopology (poSelector (plOpts pool))
      in (\<lparr>sInFlight = psInFlight s', sQueued = 0, sCompleted = psCompleted s', sFailed = psFailed s',
           sCancelled = psCancelled s',
           sTopology = nullish (psLastTopology s')
             (case pinned of Some t \<Rightarrow> if t \<noteq> Auto then t else InDo | None \<Rightarrow> InDo),
           sTopologyDecisionAt = psLastTopologyDecisionAt s',
           sWarmIsolatesEstimate = min (length (psFnShapes s')) 50,
           sUniqueFnShapesToday = length (psFnShapes s'),
           sLruEvictionLast60sCount = length (psEvictions s'),
           sTreeDepth = psLastTreeDepth s', sFanOutPerLevel = psLastFanOutPerLevel s'\<rparr>, s'))"

datatype PrewarmCall = PrimeLoopback | NoopCoordinator string

definition ensurePrewarm :: "bool \<Rightarrow> Pool \<Rightarrow> PoolState \<Rightarrow> PrewarmCall option \<times> PoolState" where
  "ensurePrewarm force pool s =
     (if \<not> force \<and> \<not> plAutoWarm pool then (None, s)
      else if psPrewarmed s then (None, s)
      else (Some (if plInProcess pool then PrimeLoopback else NoopCoordinator (plCoordinatorName pool)),
            s\<lparr>psPrewarmed := True\<rparr>))"

section \<open>The pool as a state machine\<close>

datatype poolEvent = SubmitStarts | SubmitEnds "thrown + RunOneResult" | FanOutStarts nat
  | FanOutEnds int nat "thrown + FanOutResponse" | Drain | RetryNoted int ParallelError | Prewarm bool

text \<open>The sizes of the open calls are kept beside the state.\<close>

inductive poolStep :: "Pool \<Rightarrow> PoolState \<times> nat list \<Rightarrow> poolEvent \<Rightarrow> PoolState \<times> nat list \<Rightarrow> bool" for pool where
  submit: "poolStep pool (s, calls) SubmitStarts (inFlightInc 1 s, 1 # calls)"
| submitted: "1 \<in> set calls \<Longrightarrow> poolStep pool (s, calls) (SubmitEnds r) (snd (submitEnds r s), remove1 1 calls)"
| fanOut: "0 < n \<Longrightarrow> poolStep pool (s, calls) (FanOutStarts n) (inFlightInc n s, n # calls)"
| fannedOut: "n \<in> set calls \<Longrightarrow> poolStep pool (s, calls) (FanOutEnds now n r) (fanOutEnds now n r s, remove1 n calls)"
| drain: "poolStep pool (s, calls) Drain (drain s, calls)"
| retry: "poolStep pool (s, calls) (RetryNoted now e) (noteRetry now e s, calls)"
| prewarm: "poolStep pool (s, calls) (Prewarm force) (snd (ensurePrewarm force pool s), calls)"

inductive poolReach :: "Pool \<Rightarrow> PoolState \<times> nat list \<Rightarrow> bool" for pool where
  start: "poolReach pool (newPoolState, [])"
| step: "poolReach pool c \<Longrightarrow> poolStep pool c e c' \<Longrightarrow> poolReach pool c'"

inductive_cases poolStep_cases [elim!]: "poolStep pool (s, calls) e c'"

definition sampleEnvelope :: RpcEnvelope where
  "sampleEnvelope = \<lparr>reDeadlineEpochMs = 0, reCancelTokenId = None, reMode = PoolFn, reSignal = (False, None)\<rparr>"

section \<open>A pool for the examples\<close>

definition sampleClient :: ClientOptions where
  "sampleClient = \<lparr>coBindings = Some [(''DB'', Fetcher ''db''), (''KV'', Fetcher ''kv'')], coContext = None,
     coTimeout = None, coRetries = None, coRetryDelay = None, coGlobalOutbound = OutAbsent, coLimits = None,
     coCacheKeyStrategy = None, coWorkerOptions = None, coTailBindingName = None\<rparr>"

definition samplePoolOptions :: PoolOptions where
  "samplePoolOptions = \<lparr>poClient = sampleClient, poSelector = \<lparr>soTopology = None, soMaxFanOut = None, soBranchingFactor = None, soTreeThreshold = None\<rparr>,
     poCoordinatorId = None, poInProcess = False, poLocationHint = None, poRequestColo = None, poAutoWarm = None\<rparr>"

definition samplePool :: Pool where
  "samplePool = \<lparr>plOpts = samplePoolOptions, plCoordinatorName = ''cfp:default'', plLocationHint = None,
     plInProcess = False, plAutoWarm = True\<rparr>"

section \<open>Lemmas\<close>

definition poolInv :: "PoolState \<times> nat list \<Rightarrow> bool" where
  "poolInv c \<longleftrightarrow> (case c of (s, calls) \<Rightarrow>
     psInFlight s = sum_list calls \<and> list_all (\<lambda>n. 0 < n) calls \<and>
     (psBarrier s \<longleftrightarrow> 0 < psWaiting s) \<and> (0 < psWaiting s \<longrightarrow> 0 < psInFlight s))"

lemma sum_list_remove1: "n \<in> set xs \<Longrightarrow> sum_list (remove1 n xs) = sum_list xs - n" for n :: nat
  by (induction xs) (auto simp: member_le_sum_list)

lemma inFlightDec_inv:
  assumes "poolInv (s, calls)" "n \<in> set calls" "psInFlight s' = psInFlight s" "psBarrier s' = psBarrier s"
    "psWaiting s' = psWaiting s"
  shows "poolInv (inFlightDec n s', remove1 n calls)"
proof -
  have "list_all (\<lambda>n. 0 < n) (remove1 n calls)"
    using assms(1) set_remove1_subset [of n calls] by (auto simp: poolInv_def list_all_iff)
  then show ?thesis using assms sum_list_remove1 [OF assms(2)]
    by (auto simp: poolInv_def inFlightDec_def Let_def)
qed

lemma submitEnds_inv [invs]: "poolInv (s, calls) \<Longrightarrow> 1 \<in> set calls \<Longrightarrow> poolInv (snd (submitEnds r s), remove1 1 calls)"
  unfolding submitEnds_def Let_def snd_conv
  by (rule inFlightDec_inv [of s]) (auto split: sum.splits RunOneResult.splits)

lemma fanOutEnds_inv [invs]: "poolInv (s, calls) \<Longrightarrow> n \<in> set calls \<Longrightarrow> poolInv (fanOutEnds now n r s, remove1 n calls)"
proof (cases r)
  case (Inr resp)
  assume "poolInv (s, calls)" "n \<in> set calls"
  then have "poolInv (inFlightDec n s, remove1 n calls)" by (rule inFlightDec_inv) simp_all
  then show ?thesis using Inr by (simp add: fanOutEnds_def poolInv_def) metis
qed (auto simp: fanOutEnds_def intro: inFlightDec_inv)

lemma poolReach_inv: "poolReach pool c \<Longrightarrow> poolInv c"
proof (induction rule: poolReach.induct)
  case start
  show ?case by (simp add: poolInv_def newPoolState_def)
next
  case (step c e c')
  from step.hyps(2) step.IH show ?case
  proof (induction rule: poolStep.induct)
    case (submitted calls s r)
    then show ?case by (intro submitEnds_inv)
  next
    case (fannedOut n calls s now r)
    then show ?case by (intro fanOutEnds_inv)
  qed (auto simp: poolInv_def inFlightInc_def drain_def noteRetry_def ensurePrewarm_def
      dest: member_le_sum_list)
qed

text \<open>
  C26. In every reachable state the in-flight counter is the number of open tasks, and a \<open>drain\<close> waits
  only while a call is open: the call that brings the counter to zero wakes every waiting \<open>drain\<close>.
\<close>

theorem pool_drain_wakes:
  assumes "poolReach pool (s, calls)"
  shows "psInFlight s = sum_list calls \<and> (if calls = [] then psWaiting s = 0 \<and> \<not> psBarrier s else 0 < psInFlight s)"
  using poolReach_inv [OF assms] by (cases calls) (auto simp: poolInv_def)

text \<open>A drain that waits for one submit, before and after the submit ends.\<close>

lemma pool_drain_wakes_witness:
  "psInFlight (drain (inFlightInc 1 newPoolState)) = 1 \<and> psWaiting (drain (inFlightInc 1 newPoolState)) = 1 \<and>
   psWaiting (snd (submitEnds (Inr (ROk (RNumber 5))) (drain (inFlightInc 1 newPoolState)))) = 0"
proof -
  have a: "poolReach samplePool (drain (inFlightInc 1 newPoolState), [1])"
    by (rule poolReach.step [OF poolReach.step [OF poolReach.start poolStep.submit] poolStep.drain])
  have b: "poolReach samplePool (snd (submitEnds (Inr (ROk (RNumber 5))) (drain (inFlightInc 1 newPoolState))), remove1 1 [1])"
    by (rule poolReach.step [OF a poolStep.submitted]) simp
  show ?thesis using pool_drain_wakes [OF a] pool_drain_wakes [OF b]
    by (simp add: drain_def inFlightInc_def newPoolState_def)
qed

section \<open>Fan-out over the results\<close>

lemma takeItem_start: "fsCursor st < n \<Longrightarrow> \<not> fsAborted st \<Longrightarrow>
    takeItem n st = st\<lparr>fsCursor := Suc (fsCursor st), fsRunning := fsRunning st @ [fsCursor st]\<rparr>"
  by (subst takeItem.simps) (simp add: Let_def)

lemma startFan_all: "k \<le> n \<Longrightarrow> startFan n k = (newFan n)\<lparr>fsCursor := k, fsRunning := [0..<k]\<rparr>"
  by (induction k) (simp_all add: startFan_def newFan_def takeItem_start)

lemma all_started:
  assumes "fanReach n n onError run st"
  shows "n \<le> fsCursor st \<and> (\<forall>i < n. \<forall>s. fsSettled st ! i = Some s \<longrightarrow> s = settleItem (run i))"
  using assms
proof (induction rule: fanReach.induct)
  case start
  show ?case by (simp add: startFan_all newFan_def)
next
  case (finish st idx)
  have "takeItem n st' = st'\<lparr>fsCursor := Suc (fsCursor st')\<rparr>" if "n \<le> fsCursor st'" for st' :: "'a FanState"
    using that by (subst takeItem.simps) (simp add: Let_def)
  moreover have "idx < n \<Longrightarrow> length (fsSettled st) = n"
    using fanReach_inv [OF finish.hyps(1)] by (simp add: fanInv_def)
  ultimately show ?case using finish.IH
    by (auto simp: finishItem_def nth_list_update simp del: takeItem.simps split: if_splits)
      (metis nth_list_update_eq nth_list_update_neq option.inject)
qed

text \<open>
  With as many workers as results no item is ever cancelled, whatever the strategy: \<open>throw-fast\<close> on a
  pool saves no work, all of which is done before.
\<close>

lemma pool_fan_out_settles:
  assumes "fanReach n n onError (resultRun results) st" "fsRunning st = []" "n = length results" "0 < n"
  shows "map the (fsSettled st) = map (settleItem \<circ> resultRun results) [0..<length results] \<and> None \<notin> set (fsSettled st)"
proof -
  have inv: "fanInv n onError (resultRun results) st" by (rule fanReach_inv [OF assms(1)])
  then have len: "length (fsSettled st) = n" by (simp add: fanInv_def)
  have *: "fsSettled st ! i = Some (settleItem (resultRun results i))" if "i < n" for i
    using all_started [OF assms(1)] inv that assms(2) unfolding fanInv_def
    by (metis empty_iff leD le_trans list.set(1) not_le_imp_less option.exhaust)
  then show ?thesis using len assms(3)
    by (auto simp: in_set_conv_nth intro!: nth_equalityI)
qed

section \<open>Restricted pools\<close>

lemma pickBindings_keys: "set (keys (pickBindings env ks)) \<subseteq> set ks \<inter> set (keys env)"
proof -
  have "set (keys (fold (\<lambda>key out. case map_of env key of Some v \<Rightarrow> AList.update key v out | None \<Rightarrow> out) ks out)) \<subseteq>
      set (keys out) \<union> (set ks \<inter> set (keys env))" for out
  proof (induction ks arbitrary: out)
    case (Cons k ks)
    have "map_of env k = Some v \<Longrightarrow> k \<in> set (keys env)" for v
      using map_of_SomeD by force
    then show ?case using Cons.IH [of out] Cons.IH [of "AList.update k _ out"]
      by (auto simp: image_fst_update split: option.splits)
  qed simp
  from this [of "[]"] show ?thesis by (simp add: pickBindings_def)
qed

lemma restrict_fields:
  assumes "restrictForSubmittedCode env pool allow = Inr pool'"
  shows "poClient (plOpts pool') =
     (if hasExplicitGlobalOutbound (poClient (plOpts pool)) then poClient (restrictedOptions (plOpts pool) allow)
      else (poClient (restrictedOptions (plOpts pool) allow))\<lparr>coGlobalOutbound := OutNull\<rparr>)"
  using assms by (auto simp: restrictForSubmittedCode_def newPool_def Let_def split: if_splits option.splits)

text \<open>
  C25. Code submitted over HTTP: the worker code that a durable object offers to the loader for a task
  of the restricted pool, which is what an isolate loaded freshly for the task gets, has, besides the
  cancel stream, only bindings that the policy allows and the pool declares, none of them
  library-internal, and no network unless the pool itself set an outbound policy. An isolate that the
  loader already has under the same key keeps the code it was first loaded with
  (\<open>reuse_defeats_confinement\<close> in \<open>IsolateReuse\<close>).
\<close>

theorem submitted_code_confined:
  assumes "restrictForSubmittedCode env pool allow = Inr pool'"
    and "isolateCode (runnerFor (clientSpec (poClient (plOpts pool')) src opts envelope stream) denv)
           (taskInput (clientSpec (poClient (plOpts pool')) src opts envelope stream) denv envelope args slot stream)
           PoolFn = Inr code"
    and "distinct (keys denv)"
  shows "(case map_of (nullish (wcEnv code) []) k of
        None \<Rightarrow> True
      | Some b \<Rightarrow> (if k = ''cancelStream'' \<and> stream \<noteq> None then True
                  else \<not> isLibraryInternalKey k \<and> k \<in> set allow \<and>
                    k \<in> set (keys (nullish (coBindings (poClient (plOpts pool))) [])) \<and> map_of denv k = Some b)) \<and>
    (if hasExplicitGlobalOutbound (poClient (plOpts pool)) then True else wcGlobalOutbound code = OutNull)"
proof -
  let ?co = "poClient (plOpts pool')"
  let ?opts = "runnerFor (clientSpec ?co src opts envelope stream) denv"
  let ?input = "taskInput (clientSpec ?co src opts envelope stream) denv envelope args slot stream"
  have bind: "coBindings ?co = Some (pickBindings (nullish (coBindings (poClient (plOpts pool))) []) allow)"
    using restrict_fields [OF assms(1)] by (simp add: restrictedOptions_def)
  have allow: "roAllowList ?opts = Some (keys (pickBindings (nullish (coBindings (poClient (plOpts pool))) []) allow))"
    by (simp add: runnerFor_def clientSpec_def bindingAllowList_def bind)
  have envOf: "wcEnv code = Some (isolateEnv ?opts ?input)" by (rule isolateCode_fields(1) [OF assms(2)])
  have input: "riBindings ?input = Some denv" "riCancelStream ?input = stream" by (simp_all add: taskInput_def)
  have lookup: "map_of (isolateEnv ?opts ?input) k =
      (if k = ''cancelStream'' \<and> stream \<noteq> None then map_option StreamBinding stream
       else if forwardable (roAllowList ?opts) k then map_of denv k else None)"
    using sanitizeBindings_lookup [OF assms(3), of "roAllowList ?opts" k]
    by (auto simp: isolateEnv_def Let_def input split: option.splits)
  have net: "wcGlobalOutbound code = OutNull" if "\<not> hasExplicitGlobalOutbound (poClient (plOpts pool))"
  proof -
    have "coGlobalOutbound ?co = OutNull" using restrict_fields [OF assms(1)] that by simp
    then show ?thesis
      using isolateCode_fields(2) [OF assms(2)]
      by (simp add: runnerFor_def clientSpec_def clientWorkerOptions_def workerOptionsToWire_def wireToWorkerOptions_def)
  qed
  show ?thesis
    using lookup net pickBindings_keys [of "nullish (coBindings (poClient (plOpts pool))) []" allow]
    by (auto simp: envOf allow forwardable_def isUnforwardableBindingKey_def split: option.splits if_splits)
qed

lemma submitted_code_confined_witness:
  "\<exists>pool' code. restrictForSubmittedCode \<lparr>peLoader = True, peCoordinator = True\<rparr> samplePool [''KV'', ''R2''] = Inr pool' \<and>
     isolateCode (runnerFor (clientSpec (poClient (plOpts pool')) ''x => x'' noSubmitOptions sampleEnvelope None)
                    [(''DB'', Fetcher ''db''), (''KV'', Fetcher ''kv'')])
       (taskInput (clientSpec (poClient (plOpts pool')) ''x => x'' noSubmitOptions sampleEnvelope None)
                    [(''DB'', Fetcher ''db''), (''KV'', Fetcher ''kv'')] sampleEnvelope [] 0 None) PoolFn = Inr code \<and>
     map_of (nullish (wcEnv code) []) ''DB'' = None \<and> wcGlobalOutbound code = OutNull"
proof -
  let ?env = "\<lparr>peLoader = True, peCoordinator = True\<rparr>" and ?denv = "[(''DB'', Fetcher ''db''), (''KV'', Fetcher ''kv'')]"
  have "restrictForSubmittedCode ?env samplePool [''KV'', ''R2''] \<noteq> Inl e" for e
    by (simp add: restrictForSubmittedCode_def newPool_def Let_def samplePool_def samplePoolOptions_def sampleClient_def
        restrictedOptions_def hasExplicitGlobalOutbound_def pickBindings_def assertNoLibraryInternalBindings_def)
      code_simp
  then have "\<exists>p. restrictForSubmittedCode ?env samplePool [''KV'', ''R2''] = Inr p \<and> coContext (poClient (plOpts p)) = None"
    by (cases "restrictForSubmittedCode ?env samplePool [''KV'', ''R2'']")
      (auto simp: restrict_fields samplePool_def samplePoolOptions_def sampleClient_def restrictedOptions_def)
  then obtain p where p: "restrictForSubmittedCode ?env samplePool [''KV'', ''R2''] = Inr p"
    and ctx: "coContext (poClient (plOpts p)) = None" by blast
  let ?spec = "clientSpec (poClient (plOpts p)) ''x => x'' noSubmitOptions sampleEnvelope None"
  obtain code where c: "isolateCode (runnerFor ?spec ?denv) (taskInput ?spec ?denv sampleEnvelope [] 0 None) PoolFn = Inr code"
    using isolateCode_no_context [of "taskInput ?spec ?denv sampleEnvelope [] 0 None"]
    by (auto simp: taskInput_def clientSpec_def ctx mergeContext_def noSubmitOptions_def)
  have "distinct (keys ?denv)" by simp
  note this = submitted_code_confined [OF p c this, of "''DB''"]
  then show ?thesis using p c
    by (auto simp: samplePool_def samplePoolOptions_def sampleClient_def hasExplicitGlobalOutbound_def split: option.splits)
qed

end
