(* ===== verification/IsolateReuse.thy ===== *)
theory IsolateReuse
  imports Pool
begin

text \<open>
  What a reused isolate means for the options of a run. The Worker Loader is the platform's; the code
  (\<open>src/loader/cache-key.ts\<close>, \<open>src/loader/runner.ts\<close>) relies on it returning the isolate that was loaded
  under a key, without asking for the code again. \<open>sticky\<close> states that, and nothing about eviction: it
  speaks of two uses of a key in succession.

  The cache key is built from the source, the context and the slot (\<open>Serialize.buildCacheKey\<close>). The
  bindings, the network and the cancel stream of a run are in the code that a reused isolate ignores.
\<close>

type_synonym 'c loaderGet =
  "'c \<Rightarrow> string \<Rightarrow> ParallelError + WorkerCode \<Rightarrow> (ParallelError + WorkerCode) \<times> 'c"

definition sticky :: "'c loaderGet \<Rightarrow> bool" where
  "sticky get \<longleftrightarrow> (\<forall>c k code code'. isOk (fst (get c k code)) \<longrightarrow> get (snd (get c k code)) k code' = get c k code)"

text \<open>A loader that keeps everything.\<close>

fun mapGet :: "(string \<times> WorkerCode) list loaderGet" where
  "mapGet c k code =
     (case map_of c k of
        Some w \<Rightarrow> (Inr w, c)
      | None \<Rightarrow> (case code of Inl e \<Rightarrow> (Inl e, c) | Inr w \<Rightarrow> (Inr w, (k, w) # c)))"

lemma mapGet_sticky: "sticky mapGet"
  by (auto simp: sticky_def split: option.splits sum.splits)

text \<open>The key of a run, and the isolate it runs in.\<close>

definition runKey :: "int \<Rightarrow> RunnerOptions \<Rightarrow> RunOneInput \<Rightarrow> nat \<Rightarrow> ParallelError + string" where
  "runKey now opts input counter =
     bindE (contextHash (riContext input)) (\<lambda>h. Inr (fst (buildCacheKey now
       \<lparr>ckFnSource = riFnSource input, ckContextHash = h, ckStrategy = roCacheKeyStrategy opts,
        ckForceFresh = riFreshIsolate input, ckTaskSlot = riTaskSlot input\<rparr> counter)))"

definition runIsolate :: "'c loaderGet \<Rightarrow> int \<Rightarrow> RunnerOptions \<Rightarrow> RunOneInput \<Rightarrow> nat \<Rightarrow> 'c \<Rightarrow>
    (ParallelError + WorkerCode) \<times> 'c" where
  "runIsolate get now opts input counter c =
     (case runKey now opts input counter of
        Inl e \<Rightarrow> (Inl e, c)
      | Inr key \<Rightarrow> get c key (isolateCode opts input PoolFn))"

lemma runKey_runs:
  assumes "runKey now opts input counter = Inr key"
  shows "fst (runWithMode load p now opts input mode counter) = loadAndCall load p opts input mode key"
  using assms by (auto simp: runKey_def runWithMode_def split: sum.splits prod.splits)

lemma isolate_reuse:
  assumes "sticky get" "runIsolate get now opts input n c = (Inr code, c')"
    and "runKey now' opts' input' n' = runKey now opts input n"
  shows "runIsolate get now' opts' input' n' c' = (Inr code, c')"
proof -
  obtain key where k: "runKey now opts input n = Inr key" "get c key (isolateCode opts input PoolFn) = (Inr code, c')"
    using assms(2) by (auto simp: runIsolate_def split: sum.splits)
  then have "get c' key (isolateCode opts' input' PoolFn) = (Inr code, c')"
    using assms(1) unfolding sticky_def by (metis fst_conv snd_conv isOk.simps(2))
  then show ?thesis using k assms(3) by (simp add: runIsolate_def)
qed

text \<open>A submit of a pool without options, as the durable object runs it.\<close>

abbreviation plainSpec :: "Pool \<Rightarrow> string \<Rightarrow> RpcEnvelope \<Rightarrow> Delivery option \<Rightarrow> TaskSpec" where
  "plainSpec pool src envelope stream \<equiv> clientSpec (poClient (plOpts pool)) src noSubmitOptions envelope stream"

definition submitIsolate :: "'c loaderGet \<Rightarrow> int \<Rightarrow> Pool \<Rightarrow> jsenv \<Rightarrow> string \<Rightarrow> RpcEnvelope \<Rightarrow> Delivery option \<Rightarrow>
    rval list \<Rightarrow> nat \<Rightarrow> 'c \<Rightarrow> (ParallelError + WorkerCode) \<times> 'c" where
  "submitIsolate get now pool denv src envelope stream args n c =
     runIsolate get now (runnerFor (plainSpec pool src envelope stream) denv)
       (taskInput (plainSpec pool src envelope stream) denv envelope args 0 stream) n c"

lemma restrict_key_fields:
  assumes "restrictForSubmittedCode penv pool allow = Inr pool'"
  shows "coContext (poClient (plOpts pool')) = coContext (poClient (plOpts pool))"
    "coCacheKeyStrategy (poClient (plOpts pool')) = coCacheKeyStrategy (poClient (plOpts pool))"
  using restrict_fields [OF assms] by (auto simp: restrictedOptions_def)

text \<open>
  C35. The confinement of submitted code is that of the first run of its text: when the pool itself has
  run a source before, the restricted pool runs the same source in the isolate of that run, with every
  binding that the pool declares, allowed by the policy or not, with the pool's network, and with the
  cancel stream of that run in place of its own.
\<close>

theorem reuse_defeats_confinement:
  assumes "sticky get" and R: "restrictForSubmittedCode penv pool allow = Inr pool'"
    and stable: "nullish (coCacheKeyStrategy (poClient (plOpts pool))) Stable = Stable"
    and first: "submitIsolate get now pool denv src e1 stream args n c = (Inr code, c')"
      "isolateCode (runnerFor (plainSpec pool src e1 stream) denv)
         (taskInput (plainSpec pool src e1 stream) denv e1 args 0 stream) PoolFn = Inr code"
    and "distinct (keys denv)"
  shows "submitIsolate get now' pool' denv src e2 stream' args' n' c' = (Inr code, c') \<and>
    map_of (nullish (wcEnv code) []) k =
      (if k = ''cancelStream'' \<and> stream \<noteq> None then map_option StreamBinding stream
       else if forwardable (bindingAllowList (coBindings (poClient (plOpts pool)))) k then map_of denv k else None)"
proof -
  let ?opts = "runnerFor (plainSpec pool src e1 stream) denv"
  let ?input = "taskInput (plainSpec pool src e1 stream) denv e1 args 0 stream"
  let ?opts' = "runnerFor (plainSpec pool' src e2 stream') denv"
  let ?input' = "taskInput (plainSpec pool' src e2 stream') denv e2 args' 0 stream'"
  have "runKey now' ?opts' ?input' n' = runKey now ?opts ?input n"
    using stable
    by (simp add: runKey_def taskInput_def runnerFor_def clientSpec_def restrict_key_fields [OF R] noSubmitOptions_def
        nullish_def buildCacheKey_def Let_def cong: option.case_cong)
  then have again: "submitIsolate get now' pool' denv src e2 stream' args' n' c' = (Inr code, c')"
    unfolding submitIsolate_def
    by (rule isolate_reuse [OF assms(1) first(1) [unfolded submitIsolate_def]])
  have "map_of (isolateEnv ?opts ?input) k =
      (if k = ''cancelStream'' \<and> stream \<noteq> None then map_option StreamBinding stream
       else if forwardable (roAllowList ?opts) k then map_of denv k else None)"
    using sanitizeBindings_lookup [OF assms(6), of "roAllowList ?opts" k]
    by (auto simp: isolateEnv_def Let_def taskInput_def split: option.splits)
  moreover have "roAllowList ?opts = bindingAllowList (coBindings (poClient (plOpts pool)))"
    by (simp add: runnerFor_def clientSpec_def)
  ultimately show ?thesis using again isolateCode_fields(1) [OF first(2)] by auto
qed

lemma reuse_defeats_confinement_witness:
  "\<exists>pool' code c'. restrictForSubmittedCode \<lparr>peLoader = True, peCoordinator = True\<rparr> samplePool [''KV''] = Inr pool' \<and>
     submitIsolate mapGet 9 pool' [(''DB'', Fetcher ''db''), (''KV'', Fetcher ''kv'')] ''x => x'' sampleEnvelope None [] 0 c'
       = (Inr code, c') \<and> map_of (nullish (wcEnv code) []) ''DB'' = Some (Fetcher ''db'')"
proof -
  let ?env = "[(''DB'', Fetcher ''db''), (''KV'', Fetcher ''kv'')]"
  let ?spec = "plainSpec samplePool ''x => x'' sampleEnvelope None"
  let ?i = "isolateCode (runnerFor ?spec ?env) (taskInput ?spec ?env sampleEnvelope [] 0 None) PoolFn"
  have "restrictForSubmittedCode \<lparr>peLoader = True, peCoordinator = True\<rparr> samplePool [''KV''] \<noteq> Inl e" for e
    by (simp add: restrictForSubmittedCode_def newPool_def Let_def samplePool_def samplePoolOptions_def sampleClient_def
        restrictedOptions_def hasExplicitGlobalOutbound_def pickBindings_def assertNoLibraryInternalBindings_def)
      code_simp
  then obtain pool' where R: "restrictForSubmittedCode \<lparr>peLoader = True, peCoordinator = True\<rparr> samplePool [''KV''] = Inr pool'"
    by (metis sum.exhaust)
  have ctx: "riContext (taskInput ?spec ?env sampleEnvelope [] 0 None) = None"
    by (simp add: taskInput_def clientSpec_def samplePool_def samplePoolOptions_def sampleClient_def mergeContext_def noSubmitOptions_def)
  obtain code where code: "?i = Inr code" using isolateCode_no_context [OF ctx] by blast
  obtain c' where first: "submitIsolate mapGet 1 samplePool ?env ''x => x'' sampleEnvelope None [] 0 [] = (Inr code, c')"
    using code ctx by (simp add: submitIsolate_def runIsolate_def runKey_def contextHash_def)
  have "nullish (coCacheKeyStrategy (poClient (plOpts samplePool))) Stable = Stable"
    by (simp add: samplePool_def samplePoolOptions_def sampleClient_def nullish_def)
  note reuse = reuse_defeats_confinement [OF mapGet_sticky R this first code, of 9 sampleEnvelope None "[]" 0 "''DB''"]
  have "forwardable (bindingAllowList (coBindings (poClient (plOpts samplePool)))) ''DB''" by code_simp
  then have "map_of (nullish (wcEnv code) []) ''DB'' = Some (Fetcher ''db'')" using reuse by simp
  moreover have "distinct (keys ?env)" by simp
  ultimately show ?thesis using R reuse by blast
qed

text \<open>
  The hash under which an isolate is kept is easily the same for two sources: replacing \<open>Ez\<close> by \<open>FY\<close>
  anywhere in a source does not change it. The second of the two runs the code of the first.
\<close>

lemma colliding_sources: "hashSource (p @ ''Ez'' @ q) = hashSource (p @ ''FY'' @ q)"
proof -
  have "djb2Step (djb2Step h (CHR ''E'')) (CHR ''z'') = djb2Step (djb2Step h (CHR ''F'')) (CHR ''Y'')" for h
    by (simp add: djb2Step_def push_bit_eq_mult algebra_simps)
  then show ?thesis by (simp add: hashSource_def)
qed

end
