(* ===== verification/SerializeFn.thy ===== *)
theory SerializeFn
  imports Serialize
begin

text \<open>
  The source of a function as it is sent to an isolate (\<open>serializeFunction\<close> and \<open>stripBundlerShims\<close> of
  \<open>src/loader/serialize.ts\<close>). The replacements are regular expressions with lazy and greedy repetition and
  capture groups; the part of ECMAScript's matching that they use is defined first: the matches of an
  expression at a position, in the order in which backtracking tries them. Strings are code units below
  256.
\<close>

section \<open>Regular expressions\<close>

datatype rx = Eps | Sym "char \<Rightarrow> bool" | Seq rx rx | Alt rx rx | Star rx | LazyStar rx | Group nat rx

text \<open>A match: the text, the captures, and what follows. A repetition stops at an empty iteration.\<close>

type_synonym rxMatch = "string \<times> (nat \<times> string) list \<times> string"

function matches :: "rx \<Rightarrow> string \<Rightarrow> rxMatch list" where
  "matches Eps s = [([], [], s)]"
| "matches (Sym p) [] = []"
| "matches (Sym p) (c # s) = (if p c then [([c], [], s)] else [])"
| "matches (Seq a b) s = concat (map (\<lambda>(m, g, rest).
     map (\<lambda>(m', g', rest'). (m @ m', g @ g', rest')) (matches b rest)) (matches a s))"
| "matches (Alt a b) s = matches a s @ matches b s"
| "matches (Star r) s = concat (map (\<lambda>(m, g, rest).
     if length rest < length s
     then map (\<lambda>(m', g', rest'). (m @ m', g @ g', rest')) (matches (Star r) rest) else []) (matches r s)) @ [([], [], s)]"
| "matches (LazyStar r) s = ([], [], s) # concat (map (\<lambda>(m, g, rest).
     if length rest < length s
     then map (\<lambda>(m', g', rest'). (m @ m', g @ g', rest')) (matches (LazyStar r) rest) else []) (matches r s))"
| "matches (Group i r) s = map (\<lambda>(m, g, rest). (m, g @ [(i, m)], rest)) (matches r s)"
  by pat_completeness auto
termination by (relation "measures [\<lambda>(r, s). size r, \<lambda>(r, s). length s]") auto

declare matches.simps(6,7) [simp del]

fun lit :: "string \<Rightarrow> rx \<Rightarrow> rx" where
  "lit [] r = r"
| "lit (c # cs) r = Seq (Sym ((=) c)) (lit cs r)"

definition capture :: "nat \<Rightarrow> (nat \<times> string) list \<Rightarrow> string" where
  "capture i g = nullish (map_of g i) []"

text \<open>\<open>replace\<close> with a global expression, which must not match the empty string.\<close>

function replaceAll :: "rx \<Rightarrow> ((nat \<times> string) list \<Rightarrow> string) \<Rightarrow> string \<Rightarrow> string" where
  "replaceAll r f [] = []"
| "replaceAll r f (c # s) =
     (case matches r (c # s) of
        (m, g, rest) # _ \<Rightarrow> if length rest < length (c # s) then f g @ replaceAll r f rest else c # replaceAll r f s
      | [] \<Rightarrow> c # replaceAll r f s)"
  by pat_completeness auto
termination by (relation "measure (\<lambda>(r, f, s). length s)") auto

declare replaceAll.simps(2) [simp del]

section \<open>The shims of the bundler\<close>

text \<open>\<open>\s\<close> and the words of \<open>\b\<close>.\<close>

definition isSpace :: "char \<Rightarrow> bool" where
  "isSpace c \<longleftrightarrow> (let n = of_char c :: nat in 9 \<le> n \<and> n \<le> 13 \<or> n = 32 \<or> n = 160)"

definition isWord :: "char \<Rightarrow> bool" where
  "isWord c \<longleftrightarrow> (let n = of_char c :: nat in
     48 \<le> n \<and> n \<le> 57 \<or> 65 \<le> n \<and> n \<le> 90 \<or> 97 \<le> n \<and> n \<le> 122 \<or> n = 95)"

definition spaces :: rx where "spaces = Star (Sym isSpace)"

definition dquote :: char where "dquote = CHR 0x22"
definition squote :: char where "squote = CHR 0x27"

definition quotedRx :: "char \<Rightarrow> rx" where
  "quotedRx q = Seq (Sym ((=) q)) (Seq (Star (Sym (\<lambda>c. c \<noteq> q))) (Sym ((=) q)))"

definition anyChar :: rx where "anyChar = Sym (\<lambda>_. True)"

text \<open>The second argument of \<open>__name\<close> and the closing parenthesis.\<close>

definition nameTail :: rx where
  "nameTail = Seq spaces (lit '','' (Seq spaces
     (Seq (Alt (quotedRx dquote) (quotedRx squote)) (Seq spaces (lit '')'' Eps)))))"

definition nameShim :: rx where
  "nameShim = lit ''__name('' (Seq spaces (Seq (Group 1 (LazyStar anyChar)) nameTail))"

definition publicFieldShim :: rx where
  "publicFieldShim = lit ''__publicField('' (Seq spaces
     (Seq (Group 1 (Seq (Sym (\<lambda>c. c \<noteq> CHR '','')) (LazyStar (Sym (\<lambda>c. c \<noteq> CHR '','')))))
     (Seq spaces (lit '','' (Seq spaces
     (Seq (Group 2 (Alt (quotedRx dquote) (Alt (quotedRx squote)
        (Seq (Sym (\<lambda>c. isWord c \<and> \<not> (48 \<le> (of_char c :: nat) \<and> (of_char c :: nat) \<le> 57) \<or> c = CHR ''$''))
             (Star (Sym (\<lambda>c. isWord c \<or> c = CHR ''$'')))))))
     (Seq spaces (lit '','' (Seq spaces
     (Seq (Group 3 (Seq (Sym (\<lambda>_. True)) (LazyStar (Sym (\<lambda>_. True)))))
     (Seq spaces (lit '')'' (Seq spaces (Alt (Sym ((=) (CHR '';''))) Eps))))))))))))))"

definition assignField :: "(nat \<times> string) list \<Rightarrow> string" where
  "assignField g =
     (let key = capture 2 g;
          accessor = (if startsWith [dquote] key \<or> startsWith [squote] key then ''['' @ key @ '']'' else ''.'' @ key)
      in capture 1 g @ accessor @ '' = '' @ capture 3 g @ '';'')"

definition stripBundlerShims :: "string \<Rightarrow> string" where
  "stripBundlerShims src = replaceAll publicFieldShim assignField (replaceAll nameShim (capture 1) src)"

section \<open>serializeFunction\<close>

text \<open>\<open>/\bthis\b/\<close>: \<open>prev\<close> says whether the character before is one of a word.\<close>

fun mentionsThis :: "bool \<Rightarrow> string \<Rightarrow> bool" where
  "mentionsThis prev [] = False"
| "mentionsThis prev (c # s) =
     (\<not> prev \<and> startsWith ''this'' (c # s) \<and> (case drop 4 (c # s) of [] \<Rightarrow> True | d # _ \<Rightarrow> \<not> isWord d) \<or>
      mentionsThis (isWord c) s)"

text \<open>A value as \<open>serializeFunction\<close> sees it: its type if it is no function, else its name and text.\<close>

datatype callee = NotFunction string | Function string string

definition nativeFunction :: "string \<Rightarrow> ParallelError" where
  "nativeFunction name = SerializationError (''Cannot serialize native function: '' @
     (if name = [] then ''(anonymous)'' else name) @
     ''. Only user-defined functions can be dispatched to remote isolates.'') None"

definition usesThis :: "string \<Rightarrow> ParallelError" where
  "usesThis name = SerializationError (''Function '' @ [dquote] @ (if name = [] then ''(anonymous)'' else name) @ [dquote] @
     '' references `this`, which is not available in a remote isolate. Pass values as explicit arguments '' @
     ''instead, or use Parallel.actor (which receives `(state, sql, ...args, env)`).'') None"

definition serializeFunction :: "callee \<Rightarrow> ParallelError + string" where
  "serializeFunction fn =
     (case fn of
        NotFunction t \<Rightarrow> Inl (SerializationError (''Expected a function, got '' @ t) None)
      | Function name raw \<Rightarrow>
          if strIncludes ''[native code]'' raw then Inl (nativeFunction name)
          else let source = stripBundlerShims raw in
            if mentionsThis False source then Inl (usesThis name) else Inr source)"

section \<open>The first match\<close>

definition firstMatch :: "rx \<Rightarrow> string \<Rightarrow> rxMatch option" where
  "firstMatch r s = (case matches r s of [] \<Rightarrow> None | x # _ \<Rightarrow> Some x)"

lemma firstMatch_Some: "firstMatch r s = Some x \<longleftrightarrow> (\<exists>xs. matches r s = x # xs)"
  by (auto simp: firstMatch_def split: list.splits)

lemma firstMatch_Seq:
  assumes "firstMatch a s = Some (m, g, t)" "firstMatch b t = Some (m', g', t')"
  shows "firstMatch (Seq a b) s = Some (m @ m', g @ g', t')"
  using assms by (auto simp: firstMatch_Some)

lemma firstMatch_Alt:
  assumes "firstMatch a s = Some x"
  shows "firstMatch (Alt a b) s = Some x"
  using assms by (auto simp: firstMatch_Some)

lemma firstMatch_Sym [simp]: "firstMatch (Sym p) (c # s) = (if p c then Some ([c], [], s) else None)"
  by (simp add: firstMatch_def)

lemma firstMatch_Eps [simp]: "firstMatch Eps s = Some ([], [], s)"
  by (simp add: firstMatch_def)

lemma matches_lit: "matches (lit w r) (w @ s) = map (\<lambda>(m, g, t). (w @ m, g, t)) (matches r s)"
  by (induction w) (auto simp: split_def o_def)

lemma matches_lit_none: "\<not> startsWith w s \<Longrightarrow> matches (lit w r) s = []"
proof (induction w arbitrary: s)
  case (Cons c w)
  then show ?case by (cases s) auto
qed simp

lemma firstMatch_lit:
  assumes "firstMatch r s = Some (m, g, t)"
  shows "firstMatch (lit w r) (w @ s) = Some (w @ m, g, t)"
  using assms by (auto simp: firstMatch_Some matches_lit)

lemma firstMatch_Star_Sym:
  assumes "list_all p w" "case s of [] \<Rightarrow> True | c # _ \<Rightarrow> \<not> p c"
  shows "firstMatch (Star (Sym p)) (w @ s) = Some (w, [], s)"
  using assms
proof (induction w)
  case Nil
  then show ?case by (cases s) (auto simp: firstMatch_def matches.simps(6))
next
  case (Cons c w)
  then obtain xs where "matches (Star (Sym p)) (w @ s) = (w, [], s) # xs" by (auto simp: firstMatch_Some)
  with Cons.prems show ?case by (subst firstMatch_Some, subst matches.simps) auto
qed

lemma matches_LazyStar_any:
  "matches (LazyStar anyChar) s = map (\<lambda>k. (take k s, [], drop k s)) [0..<Suc (length s)]"
proof (induction s)
  case Nil
  then show ?case by (simp add: anyChar_def matches.simps(7))
next
  case (Cons c s)
  have "matches (LazyStar anyChar) (c # s) =
    ([], [], c # s) # map (\<lambda>(m, g, t). (c # m, g, t)) (matches (LazyStar anyChar) s)"
    by (subst matches.simps) (simp add: anyChar_def split_def)
  also have "\<dots> = map (\<lambda>k. (take k (c # s), [], drop k (c # s))) (0 # map Suc [0..<Suc (length s)])"
    unfolding Cons by simp
  also have "0 # map Suc [0..<Suc (length s)] = [0..<Suc (length (c # s))]"
    by (metis map_Suc_upt upt_conv_Cons zero_less_Suc length_Cons)
  finally show ?case .
qed

lemma firstMatch_shortest:
  assumes none: "list_all (\<lambda>k. matches r (drop k e @ s) = []) [0..<length e]"
    and tail: "firstMatch r s = Some (m, g, t)"
  shows "firstMatch (Seq (Group 1 (LazyStar anyChar)) r) (e @ s) = Some (e @ m, (1, e) # g, t)"
proof -
  let ?f = "\<lambda>k. map (\<lambda>(m', g', t'). (take k (e @ s) @ m', (1, take k (e @ s)) # g', t')) (matches r (drop k (e @ s)))"
  have split: "[0..<Suc (length (e @ s))] = [0..<length e] @ length e # [Suc (length e)..<Suc (length (e @ s))]"
    using upt_add_eq_append[of 0 "length e" "Suc (length s)"] by (simp del: upt_Suc add: upt_conv_Cons)
  have "?f k = []" if "k \<in> set [0..<length e]" for k
    using none that by (auto simp: list_all_iff)
  then have before: "concat (map ?f [0..<length e]) = []" by (simp only: concat_eq_Nil_conv) auto
  have "matches (Seq (Group 1 (LazyStar anyChar)) r) (e @ s) = concat (map ?f [0..<Suc (length (e @ s))])"
    by (simp del: upt_Suc add: matches_LazyStar_any o_def split_def)
  also have "\<dots> = ?f (length e) @ concat (map ?f [Suc (length e)..<Suc (length (e @ s))])"
    unfolding split map_append concat_append before by simp
  finally show ?thesis using tail by (auto simp: firstMatch_Some)
qed

text \<open>\<open>, "name")\<close> as esbuild writes it.\<close>

definition shimEnd :: "string \<Rightarrow> string" where
  "shimEnd nm = '', '' @ [dquote] @ nm @ [dquote] @ '')''"

lemma spaces_none: "\<not> isSpace c \<Longrightarrow> firstMatch spaces (c # s) = Some ([], [], c # s)"
  unfolding spaces_def using firstMatch_Star_Sym[of isSpace "[]" "c # s"] by simp

lemma spaces_one: "\<not> isSpace c \<Longrightarrow> firstMatch spaces (CHR '' '' # c # s) = Some ('' '', [], c # s)"
  unfolding spaces_def using firstMatch_Star_Sym[of isSpace "'' ''" "c # s"] by (simp add: isSpace_def)

lemma quotedRx_first:
  assumes "q \<notin> set nm"
  shows "firstMatch (quotedRx q) ([q] @ nm @ [q] @ s) = Some ([q] @ nm @ [q], [], s)"
proof -
  have 1: "firstMatch (Star (Sym (\<lambda>c. c \<noteq> q))) (nm @ q # s) = Some (nm, [], q # s)"
    using assms firstMatch_Star_Sym[of "\<lambda>c. c \<noteq> q" nm "q # s"] by (auto simp: list_all_iff)
  have "firstMatch (Seq (Star (Sym (\<lambda>c. c \<noteq> q))) (Sym ((=) q))) (nm @ q # s) = Some (nm @ [q], [], s)"
    using firstMatch_Seq[OF 1, of "Sym ((=) q)" "[q]" "[]" s] by simp
  from firstMatch_Seq[of "Sym ((=) q)" "q # nm @ q # s" "[q]" "[]", OF _ this] show ?thesis
    by (simp add: quotedRx_def)
qed

lemma nameTail_first:
  assumes "dquote \<notin> set nm"
  shows "firstMatch nameTail (shimEnd nm @ s) = Some (shimEnd nm, [], s)"
proof -
  let ?q = "[dquote] @ nm @ [dquote]"
  have 1: "firstMatch (lit '')'' Eps) ('')'' @ s) = Some ('')'', [], s)"
    using firstMatch_lit[of Eps s "[]" "[]" s "'')''"] by simp
  have 2: "firstMatch (Seq spaces (lit '')'' Eps)) ('')'' @ s) = Some ('')'', [], s)"
    using firstMatch_Seq[OF _ 1, of spaces "'')'' @ s" "[]" "[]"] spaces_none[of "CHR '')''" s]
    by (simp add: isSpace_def)
  have 3: "firstMatch (Seq (Alt (quotedRx dquote) (quotedRx squote)) (Seq spaces (lit '')'' Eps))) (?q @ '')'' @ s)
      = Some (?q @ '')'', [], s)"
    using firstMatch_Seq[OF firstMatch_Alt[OF quotedRx_first[OF assms, of "'')'' @ s"]] 2] by simp
  have 4: "firstMatch spaces ('' '' @ ?q @ '')'' @ s) = Some ('' '', [], ?q @ '')'' @ s)"
    using spaces_one[of dquote "nm @ [dquote] @ '')'' @ s"] by (simp add: isSpace_def dquote_def)
  note 5 = firstMatch_lit[OF firstMatch_Seq[OF 4 3], of "'',''"]
  have 6: "firstMatch spaces ('','' @ '' '' @ ?q @ '')'' @ s) = Some ([], [], '','' @ '' '' @ ?q @ '')'' @ s)"
    using spaces_none[of "CHR '',''" "'' '' @ ?q @ '')'' @ s"] by (simp add: isSpace_def)
  show ?thesis using firstMatch_Seq[OF 6 5] by (simp add: nameTail_def shimEnd_def)
qed

section \<open>What the replacements do\<close>

lemma replaceAll_first:
  assumes "firstMatch r s = Some (m, g, t)" "length t < length s"
  shows "replaceAll r f s = f g @ replaceAll r f t"
  using assms by (cases s) (auto simp: firstMatch_Some replaceAll.simps(2))

lemma replaceAll_none:
  assumes "list_all (\<lambda>k. matches r (drop k p @ s) = []) [0..<length p]"
  shows "replaceAll r f (p @ s) = p @ replaceAll r f s"
  using assms
proof (induction p)
  case (Cons c p)
  have "matches r (drop k p @ s) = []" if "k < length p" for k
    using Cons.prems that by (auto simp del: upt_Suc simp: list_all_iff dest: bspec[where x = "Suc k"])
  then have "list_all (\<lambda>k. matches r (drop k p @ s) = []) [0..<length p]" by (simp add: list_all_iff)
  moreover have "matches r (c # p @ s) = []"
    using Cons.prems by (auto simp del: upt_Suc simp: list_all_iff dest: bspec[where x = 0])
  ultimately show ?case using Cons.IH by (simp add: replaceAll.simps(2))
qed simp

lemma replaceAll_lit_none:
  assumes "\<not> strIncludes w s"
  shows "replaceAll (lit w r) f s = s"
proof -
  have "matches (lit w r) (drop k s) = []" for k
  proof -
    have "\<not> prefix w (drop k s)"
    proof
      assume "prefix w (drop k s)"
      then obtain v where "drop k s = w @ v" by (auto simp: prefix_def)
      then have "s = take k s @ w @ v" by (metis append_take_drop_id)
      with assms show False by (metis includes_iff_sublist sublist_appendI)
    qed
    then show ?thesis by (rule matches_lit_none)
  qed
  then show ?thesis using replaceAll_none[of "lit w r" s "[]" f] by (simp add: list_all_iff)
qed

text \<open>A wrapped expression: one that neither starts nor ends with white space.\<close>

lemma nameShim_first:
  assumes "e \<noteq> []" "\<not> isSpace (hd e)" "dquote \<notin> set nm"
    and "list_all (\<lambda>k. matches nameTail (drop k e @ shimEnd nm @ s) = []) [0..<length e]"
  shows "firstMatch nameShim (''__name('' @ e @ shimEnd nm @ s) = Some (''__name('' @ e @ shimEnd nm, [(1, e)], s)"
proof -
  obtain c e' where e: "e = c # e'" using assms(1) by (cases e) auto
  have 1: "firstMatch spaces (e @ shimEnd nm @ s) = Some ([], [], e @ shimEnd nm @ s)"
    using spaces_none[of c] assms(2) by (simp add: e)
  note 2 = firstMatch_shortest[OF assms(4) nameTail_first[OF assms(3)]]
  show ?thesis using firstMatch_lit[OF firstMatch_Seq[OF 1 2], of "''__name(''"] by (simp add: nameShim_def)
qed

text \<open>A match of the shim cannot begin in text that does not hold its opening.\<close>

lemma opening_no_border:
  "u \<noteq> [] \<Longrightarrow> length u < 7 \<Longrightarrow> take 7 (u @ ''__name('' @ v) \<noteq> ''__name(''"
  by (auto simp: numeral_eq_Suc less_Suc_eq length_Suc_conv)

lemma no_opening:
  assumes "\<not> strIncludes ''__name('' p" "k < length p" "s = [] \<or> prefix ''__name('' s"
  shows "\<not> startsWith ''__name('' (drop k p @ s)"
proof
  let ?w = "''__name(''" and ?u = "drop k p"
  assume "startsWith ?w (?u @ s)"
  then obtain z where "?u @ s = ?w @ z" by (auto simp: prefix_def)
  then have w: "take 7 (?u @ s) = ?w" by (simp del: take_append)
  have long: False if "take 7 ?u = ?w"
    using that assms(1) includes_iff_sublist append_take_drop_id [of k p] append_take_drop_id [of 7 ?u]
    by (metis sublist_appendI)
  have "?u \<noteq> []" using assms(2) by simp
  from assms(3) show False
  proof
    assume "s = []"
    then show False using w long by simp
  next
    assume "prefix ?w s"
    then obtain v where s: "s = ?w @ v" by (auto simp: prefix_def)
    show False
    proof (cases "7 \<le> length ?u")
      case True
      then show False using w long by simp
    next
      case False
      then show False using opening_no_border [of ?u v] w \<open>?u \<noteq> []\<close> unfolding s by simp
    qed
  qed
qed

lemma replaceAll_gap:
  assumes "\<not> strIncludes ''__name('' p" "s = [] \<or> prefix ''__name('' s"
  shows "replaceAll nameShim f (p @ s) = p @ replaceAll nameShim f s"
proof (rule replaceAll_none)
  have "matches nameShim (drop k p @ s) = []" if "k < length p" for k
    unfolding nameShim_def by (rule matches_lit_none [OF no_opening [OF assms(1) that assms(2)]])
  then show "list_all (\<lambda>k. matches nameShim (drop k p @ s) = []) [0..<length p]" by (simp add: list_all_iff)
qed

text \<open>
  A source as esbuild's \<open>keepNames\<close> leaves it: text, wrapped expressions \<open>__name(e, "name")\<close> each with
  the text before it, and the text after the last; and the same source without the wrappers.
\<close>

type_synonym wrapped = "(string \<times> string \<times> string) list"

fun wrapAll :: "wrapped \<Rightarrow> string \<Rightarrow> string" where
  "wrapAll [] tail = tail"
| "wrapAll ((gap, e, nm) # ws) tail = gap @ ''__name('' @ e @ shimEnd nm @ wrapAll ws tail"

fun unwrapped :: "wrapped \<Rightarrow> string \<Rightarrow> string" where
  "unwrapped [] tail = tail"
| "unwrapped ((gap, e, nm) # ws) tail = gap @ e @ unwrapped ws tail"

text \<open>
  The wrappers are side by side: the text between them opens no shim, an expression does not begin with
  white space, a name has no double quote, and at no position of an expression the text reads as the end
  of a shim (so no wrapper is nested in another and no inner call ends in a string argument).
\<close>

fun sideBySide :: "wrapped \<Rightarrow> string \<Rightarrow> bool" where
  "sideBySide [] tail = (\<not> strIncludes ''__name('' tail)"
| "sideBySide ((gap, e, nm) # ws) tail =
     (\<not> strIncludes ''__name('' gap \<and> e \<noteq> [] \<and> \<not> isSpace (hd e) \<and> dquote \<notin> set nm \<and>
      list_all (\<lambda>k. matches nameTail (drop k e @ shimEnd nm @ wrapAll ws tail) = []) [0..<length e] \<and>
      sideBySide ws tail)"

lemma replaceAll_wrapped:
  "sideBySide ws tail \<Longrightarrow> replaceAll nameShim (capture 1) (wrapAll ws tail) = unwrapped ws tail"
proof (induction ws)
  case Nil
  then show ?case using replaceAll_gap [of tail "[]"] by simp
next
  case (Cons w ws)
  obtain gap e nm where w: "w = (gap, e, nm)" by (cases w)
  let ?s = "wrapAll ws tail"
  have "replaceAll nameShim (capture 1) (gap @ ''__name('' @ e @ shimEnd nm @ ?s) =
      gap @ replaceAll nameShim (capture 1) (''__name('' @ e @ shimEnd nm @ ?s)"
    using Cons.prems w by (intro replaceAll_gap) (simp_all add: prefix_def)
  also have "replaceAll nameShim (capture 1) (''__name('' @ e @ shimEnd nm @ ?s) =
      capture 1 [(1, e)] @ replaceAll nameShim (capture 1) ?s"
    using Cons.prems w by (intro replaceAll_first [OF nameShim_first]) simp_all
  also have "\<dots> = e @ unwrapped ws tail"
    using Cons.IH Cons.prems w by simp (simp add: capture_def nullish_def)
  finally show ?case by (simp add: w)
qed

lemma strip_wrapped:
  assumes "sideBySide ws tail" "\<not> strIncludes ''__publicField('' (unwrapped ws tail)"
  shows "stripBundlerShims (wrapAll ws tail) = unwrapped ws tail"
  using replaceAll_wrapped [OF assms(1)] replaceAll_lit_none [OF assms(2)]
  by (simp add: stripBundlerShims_def publicFieldShim_def)

lemma strip_plain:
  assumes "\<not> strIncludes ''__name('' p" "\<not> strIncludes ''__publicField('' p"
  shows "stripBundlerShims p = p"
  using strip_wrapped [of "[]" p] assms by simp

text \<open>
  C36. A function whose text holds any number of expressions wrapped by esbuild, \<open>__name(e, "name")\<close>, side
  by side, is sent with every wrapper replaced by its expression (in particular a text without wrappers is
  sent unchanged); it is refused if it is native code or if the text without wrappers mentions \<open>this\<close>.
  This is for double-quoted names, for expressions in which no position reads as the end of a shim, and
  for texts without \<open>__publicField\<close>.
\<close>

theorem bundled_function_serializes:
  assumes "sideBySide ws tail" and "\<not> strIncludes ''__publicField('' (unwrapped ws tail)"
  shows "serializeFunction (Function name (wrapAll ws tail)) =
    (if strIncludes ''[native code]'' (wrapAll ws tail) then Inl (nativeFunction name)
     else if mentionsThis False (unwrapped ws tail) then Inl (usesThis name)
     else Inr (unwrapped ws tail))"
  using strip_wrapped [OF assms] by (simp add: serializeFunction_def)

lemma shim_witness:
  "serializeFunction (Function ''g'' (''() => { const h = __name('' @ ''(x) => f(x, 1)'' @ shimEnd ''h'' @
       ''; const k = __name('' @ ''y => y'' @ shimEnd ''k'' @ '' }''))
     = Inr ''() => { const h = (x) => f(x, 1); const k = y => y }''"
proof -
  let ?ws = "[(''() => { const h = '', ''(x) => f(x, 1)'', ''h''), (''; const k = '', ''y => y'', ''k'')]"
  have "sideBySide ?ws '' }''" "\<not> strIncludes ''__publicField('' (unwrapped ?ws '' }'')"
    "\<not> strIncludes ''[native code]'' (wrapAll ?ws '' }'')" "\<not> mentionsThis False (unwrapped ?ws '' }'')"
    by code_simp+
  then show ?thesis using bundled_function_serializes [of ?ws "'' }''" "''g''"] by simp
qed

text \<open>
  A wrapper inside a wrapped function is cut off at the end of the inner one: what is sent is no
  expression any more.
\<close>

lemma nested_shim_breaks:
  "serializeFunction (Function ''f'' (''() => __name('' @ ''() => { const h = __name('' @ ''x => x'' @ shimEnd ''h'' @
       ''; return h }'' @ shimEnd ''g''))
     = Inr (''() => () => { const h = __name(x => x; return h }'' @ shimEnd ''g'')"
  by code_simp

text \<open>
  An inner call whose last argument is a string is taken for the end of the shim: the function that
  is sent is another one.
\<close>

lemma shim_cuts_inner_string:
  "serializeFunction (Function ''g'' (''__name('' @ ''(x) => f(x'' @ shimEnd ''k'' @ shimEnd ''g''))
     = Inr (''(x) => f(x'' @ shimEnd ''g'')"
  by code_simp

text \<open>A class field is rewritten to an assignment to \<open>this\<close>, and then refused.\<close>

lemma class_field_refused:
  "serializeFunction (Function ''mk'' ''() => class { constructor() { __publicField(this, x, 1); } }'')
     = Inl (usesThis ''mk'')"
  by code_simp

section \<open>The pure brand\<close>

text \<open>
  \<open>pure\<close> and \<open>isPure\<close> of \<open>src/api/primitives.ts\<close>: a value with its property \<open>__pure\<close>, which \<open>pure\<close> sets for
  good. The checks are those of \<open>serializeFunction\<close>, on the text before the shims are stripped.
\<close>

definition pureFn :: "callee \<times> bool \<Rightarrow> ParallelError + callee \<times> bool" where
  "pureFn v =
     (case fst v of
        NotFunction t \<Rightarrow> Inl (SerializationError (''pure() expected a function, got '' @ t) None)
      | Function name source \<Rightarrow>
          if strIncludes ''[native code]'' source then
            Inl (SerializationError (''pure(): cannot brand native function '' @ [dquote] @
              (if name = [] then ''(anonymous)'' else name) @ [dquote]) None)
          else if mentionsThis False source then
            Inl (SerializationError (''pure(): function '' @ [dquote] @ (if name = [] then ''(anonymous)'' else name) @
              [dquote] @ '' references `this`, which is not available in a remote isolate.'') None)
          else Inr (Function name source, True))"

definition isPure :: "callee \<times> bool \<Rightarrow> bool" where
  "isPure v = snd v"

text \<open>
  The brand keeps its promise on a source without shims: what \<open>pure\<close> accepts, \<open>serializeFunction\<close> sends
  unchanged, and it accepts nothing else; branding twice is branding once.
\<close>

lemma pure_means_serializable:
  assumes "\<not> strIncludes ''__name('' p" "\<not> strIncludes ''__publicField('' p"
  shows "(\<exists>u. pureFn (Function name p, b) = Inr u \<and> isPure u \<and> pureFn u = Inr u) \<longleftrightarrow>
         serializeFunction (Function name p) = Inr p"
  using strip_plain[OF assms] by (auto simp: pureFn_def isPure_def serializeFunction_def)

lemma pure_means_serializable_witness:
  "\<exists>u. pureFn (Function ''f'' ''(x) => x'', False) = Inr u \<and> isPure u \<and> pureFn u = Inr u"
proof -
  have "serializeFunction (Function ''f'' ''(x) => x'') = Inr ''(x) => x''" by code_simp
  moreover have "\<not> strIncludes ''__name('' ''(x) => x''" "\<not> strIncludes ''__publicField('' ''(x) => x''" by code_simp+
  ultimately show ?thesis using pure_means_serializable[of "''(x) => x''" "''f''" False] by blast
qed

text \<open>On the output of a bundler the two differ: the name in the shim is text to \<open>pure\<close>.\<close>

lemma pure_reads_the_shim:
  "pureFn (Function ''this'' (''__name('' @ ''(x) => x'' @ shimEnd ''this''), False) \<noteq>
     Inr (Function ''this'' (''__name('' @ ''(x) => x'' @ shimEnd ''this''), True) \<and>
   serializeFunction (Function ''this'' (''__name('' @ ''(x) => x'' @ shimEnd ''this'')) = Inr ''(x) => x''"
  by code_simp

end
