(* ===== verification/Tiers.thy ===== *)
theory Tiers
  imports Coordinator
begin

text \<open>
  What the tiers promise together. \<open>dispatch_contract\<close> is the interface between one leaf RPC and the
  fan-outs above it: a relation between a run of consecutive tasks, the events they cause and their
  results, which leaves establish, and which concatenation, \<open>noop\<close>s, retries and failed RPCs keep. Its lemmas
  carry the relation through the sub-coordinators, the hybrid and the tree dispatch; the
  interpretations give the results of a fan-out under any failures (\<open>orig\<close>) and its exact effects, with
  the cancel streams, on a calm platform (\<open>calm\<close>); \<open>RunMany\<close> adds the runs of each task and the number of
  RPCs.
\<close>

section \<open>The contract\<close>

definition sameTask :: "TaskSpec \<Rightarrow> TaskSpec \<Rightarrow> bool" where
  "sameTask s t \<longleftrightarrow> s\<lparr>tsCancelStream := None\<rparr> = t\<lparr>tsCancelStream := None\<rparr>"

lemma sameTask_simps [simp]:
  "sameTask s s" "sameTask (s\<lparr>tsCancelStream := c\<rparr>) t = sameTask s t"
  by (simp_all add: sameTask_def)

lemma leafBatch_sameTask: "sameTask s t \<Longrightarrow> leafBatch s args b c = leafBatch t args b c"
proof -
  assume "sameTask s t"
  then have "s\<lparr>tsCancelStream := None\<rparr>\<lparr>tsCancelStream := c\<rparr> = t\<lparr>tsCancelStream := None\<rparr>\<lparr>tsCancelStream := c\<rparr>"
    by (simp only: sameTask_def)
  then show ?thesis by (simp add: leafBatch_def)
qed

lemma length_forkCancelStream [simp]: "length (forkCancelStream up n) = n"
  by (simp add: forkCancelStream_def split: option.splits)

text \<open>A relation that holds of a fan-out as soon as it holds of its slices.\<close>

locale slice_relation =
  fixes R :: "nat \<Rightarrow> rval list list \<Rightarrow> event list \<Rightarrow> RunOneResult list \<Rightarrow> bool"
  assumes none: "R b [] [] []"
    and join: "R b xs es rs \<Longrightarrow> R (b + length xs) ys es' rs' \<Longrightarrow> R b (xs @ ys) (es @ es') (rs @ rs')"
    and prewarm: "R b xs es rs \<Longrightarrow> R b xs (Noop child # es) rs"
begin

lemma prewarmed: "R b xs es rs \<Longrightarrow> R b xs (prewarmNoops warm names @ es) rs"
  by (induction warm names rule: prewarmNoops.induct) (auto intro: prewarm)

abbreviation holds :: "nat \<Rightarrow> rval list list \<Rightarrow> RunOneResult list logged \<Rightarrow> bool" where
  "holds b xs r \<equiv> R b xs (fst r) (snd r)"

lemma overSlices_holds:
  assumes "sum_list sizes = length args" "length streams = length sizes" "\<And>c. c \<in> set streams \<Longrightarrow> ok c"
    and "\<And>j part b c. j < length sizes \<Longrightarrow> sizes ! j = length part \<Longrightarrow> part \<noteq> [] \<Longrightarrow> ok c \<Longrightarrow>
      holds b part (f (i + j) part b c)"
  shows "holds base args (overSlices f i (zip (slicesFrom sizes args base) streams))"
  using assms
proof (induction sizes arbitrary: args base streams i)
  case (Cons n ns)
  obtain c cs where streams: "streams = c # cs" using Cons.prems(2) by (cases streams) auto
  let ?part = "take n args"
  have len: "length ?part = n" "sum_list ns = length (drop n args)" using Cons.prems(1) by auto
  have first: "holds base ?part (if ?part = [] then ([], []) else f i ?part base c)"
  proof (cases "?part = []")
    case True
    then show ?thesis using none by (simp del: take_eq_Nil)
  next
    case False
    then show ?thesis using Cons.prems(4) [of 0 ?part c base] Cons.prems(3) len streams by simp
  qed
  have step: "holds b part (f (Suc i + j) part b c')"
    if "j < length ns" "ns ! j = length part" "part \<noteq> []" "ok c'" for j part b c'
    using Cons.prems(4) [of "Suc j" part c' b] that by simp
  have rest: "holds (base + n) (drop n args)
      (overSlices f (Suc i) (zip (slicesFrom ns (drop n args) (base + n)) cs))"
    by (rule Cons.IH [OF len(2)]) (use Cons.prems(2,3) streams step in auto)
  have split: "overSlices f i (zip (slicesFrom (n # ns) args base) streams) =
      (let r = (if ?part = [] then ([], []) else f i ?part base c);
           r' = overSlices f (Suc i) (zip (slicesFrom ns (drop n args) (base + n)) cs)
       in (fst r @ fst r', snd r @ snd r'))"
    by (simp only: streams slicesFrom.simps zip_Cons_Cons overSlices.simps Let_def case_prod_beta)
  from join [OF first, of "drop n args"] rest len(1) show ?case
    unfolding split Let_def fst_conv snd_conv by (simp only: append_take_drop_id)
qed (use none in simp)

end

locale dispatch_contract = slice_relation R
  for R :: "nat \<Rightarrow> rval list list \<Rightarrow> event list \<Rightarrow> RunOneResult list \<Rightarrow> bool" +
  fixes pl :: Platform
    and spec :: TaskSpec
    and retried :: bool
    and streamOk :: "Delivery option \<Rightarrow> bool"
  assumes leaf: "streamOk c \<Longrightarrow>
      R b [a] (fst (runBatchOnEnv pl name path (leafBatch spec [a] b c)))
              (snd (runBatchOnEnv pl name path (leafBatch spec [a] b c)))"
    and wrap: "xs \<noteq> [] \<Longrightarrow> (\<And>k. k = 0 \<or> retried \<Longrightarrow> R b xs (fst (body k)) (snd (body k))) \<Longrightarrow>
      R b xs (fst (settleSlice xs (retryTransient x (\<lambda>k. callRpc pl name (k # path) (body k)) 0)))
             (snd (settleSlice xs (retryTransient x (\<lambda>k. callRpc pl name (k # path) (body k)) 0)))"
    and fork: "streamOk up \<Longrightarrow> c \<in> set (forkCancelStream up n) \<Longrightarrow> streamOk c"
    and drop: "retried \<Longrightarrow> streamOk None"
begin

lemma attemptStream_ok: "streamOk c \<Longrightarrow> k = 0 \<or> retried \<Longrightarrow> streamOk (attemptStream k c)"
  using drop by (auto simp: attemptStream_def)

lemma forked_ok: "streamOk up \<Longrightarrow> c \<in> set (forkCancelStream up n) \<Longrightarrow> streamOk c"
  by (rule fork)

lemma leafRpc_holds:
  assumes "sameTask s spec" "streamOk c" "length xs = 1"
  shows "holds b xs (settleSlice xs (retryTransient x (\<lambda>k. callRpc pl name (k # path)
      (runBatchOnEnv pl name (k # path) (leafBatch s xs b (attemptStream k c)))) 0))"
proof -
  obtain a where xs: "xs = [a]" using assms(3) by (cases xs) auto
  show ?thesis
    using wrap [of xs b "\<lambda>k. runBatchOnEnv pl name (k # path) (leafBatch s xs b (attemptStream k c))"]
      leaf attemptStream_ok [OF assms(2)]
    by (simp add: xs leafBatch_sameTask [OF assms(1)])
qed

lemma hybridLeaf_holds:
  assumes "sameTask ((dtSpec req)\<lparr>tsFreshIsolate := False\<rparr>) spec" "streamOk c"
  shows "holds b part (dispatchHybridLeaf pl ownerId path reqIdx req i part b c)"
  unfolding dispatchHybridLeaf_def case_prod_beta fst_conv snd_conv
proof (rule prewarmed, rule overSlices_holds [where ok = streamOk])
  show "sum_list (map (\<lambda>_. 1) part) = length part" by (simp add: sum_list_triv)
qed (use assms in \<open>auto simp: Let_def intro: leafRpc_holds forked_ok\<close>)

lemma dispatchOnEnv_holds:
  assumes "sameTask ((dtSpec req)\<lparr>tsFreshIsolate := False\<rparr>) spec" "streamOk (tsCancelStream (dtSpec req))"
    and "sum_list (dtPlanChildSizes req) = length (dtArgsList req)" "0 < dtBranchingFactor req"
  shows "holds (nullish (dtTaskSlotBase req) 0) (dtArgsList req) (dispatchOnEnv d pl ownerId path reqIdx req)"
  using assms
proof (induction d arbitrary: ownerId path reqIdx req)
  case 0
  show ?case unfolding dispatchOnEnv.simps
    by (rule overSlices_holds [where ok = streamOk]) (use 0 in \<open>auto intro: hybridLeaf_holds forked_ok\<close>)
next
  case (Suc d)
  have fresh: "(dtSpec req)\<lparr>tsFreshIsolate := False, tsCancelStream := c\<rparr> =
      (dtSpec req)\<lparr>tsCancelStream := c, tsFreshIsolate := False\<rparr>" for c by simp
  have deeper: "holds b part (settleSlice part (retryTransient x (\<lambda>k. callRpc pl subId (k # path)
      (dispatchOnEnv d pl (plId pl subId) (k # path) 0
         (req\<lparr>dtSpec := (dtSpec req)\<lparr>tsCancelStream := attemptStream k c\<rparr>, dtArgsList := part,
              dtPlanChildSizes := balancedFill (length part) (dtBranchingFactor req),
              dtTaskSlotBase := Some b\<rparr>))) 0))"
    if "part \<noteq> []" "streamOk c" for b part c subId x
  proof (rule wrap [OF that(1)])
    fix k :: nat assume k: "k = 0 \<or> retried"
    have s: "sameTask ((dtSpec req)\<lparr>tsCancelStream := attemptStream k c, tsFreshIsolate := False\<rparr>) spec"
      using Suc.prems(1) by (simp flip: fresh)
    show "holds b part (dispatchOnEnv d pl (plId pl subId) (k # path) 0
        (req\<lparr>dtSpec := (dtSpec req)\<lparr>tsCancelStream := attemptStream k c\<rparr>, dtArgsList := part,
             dtPlanChildSizes := balancedFill (length part) (dtBranchingFactor req),
             dtTaskSlotBase := Some b\<rparr>))"
      using Suc.IH [of "req\<lparr>dtSpec := (dtSpec req)\<lparr>tsCancelStream := attemptStream k c\<rparr>, dtArgsList := part,
             dtPlanChildSizes := balancedFill (length part) (dtBranchingFactor req),
             dtTaskSlotBase := Some b\<rparr>" "plId pl subId" "k # path" 0]
        s attemptStream_ok [OF that(2) k] Suc.prems(4)
      by (simp add: sum_balancedFill)
  qed
  show ?case unfolding dispatchOnEnv.simps
    by (rule overSlices_holds [where ok = streamOk])
      (use Suc.prems deeper in \<open>auto simp: Let_def intro: hybridLeaf_holds forked_ok\<close>)
qed

lemma dispatchHybrid_holds:
  assumes "sameTask (cfSpec req) spec" "streamOk (tsCancelStream (cfSpec req))"
    and "dispatchHybrid pl name path (replicate (length (cfArgsList req)) 1) req rid = (es, Inr rs)"
  shows "R 0 (cfArgsList req) es rs"
proof -
  let ?n = "length (cfArgsList req)"
  have "holds 0 (cfArgsList req) (overSlices
      (\<lambda>leafIdx part slotBase cs. invokeLeafBatchWithRetry pl
         (plId pl name @ ''-'' @ rid @ ''-leaf-'' @ showNat leafIdx) path (cfSpec req) part slotBase cs)
      0 (zip (slicesFrom (replicate ?n 1) (cfArgsList req) 0)
             (forkCancelStream (tsCancelStream (cfSpec req)) (length (replicate ?n (1 :: nat))))))"
    by (rule overSlices_holds [where ok = streamOk])
      (use assms in \<open>auto simp: sum_list_replicate invokeLeafBatchWithRetry_def intro: leafRpc_holds forked_ok\<close>)
  then show ?thesis using assms(3) by (auto simp: dispatchHybrid_def split: if_splits prod.splits)
qed

lemma dispatchTree_holds:
  assumes "sameTask ((cfSpec req)\<lparr>tsFreshIsolate := False\<rparr>) spec" "streamOk (tsCancelStream (cfSpec req))"
    and "sum_list (map planSize children) = length (cfArgsList req)" "0 < F"
    and "\<And>c. c \<in> set children \<Longrightarrow> sum_list (planSliceChildSizes c) = planSize c"
    and "dispatchTree pl name path (F, K, children) req rid = (es, Inr rs)"
  shows "R 0 (cfArgsList req) es rs"
proof -
  have sub: "holds b part (settleSlice part (retryTransient x (\<lambda>k. callRpc pl subName (k # path)
      (dispatchOnEnv (K - 1) pl (plId pl subName) (k # path) 0
         \<lparr>dtSpec = (cfSpec req)\<lparr>tsFreshIsolate := False, tsCancelStream := attemptStream k c\<rparr>, dtArgsList = part,
          dtPlanChildSizes = planSliceChildSizes (children ! j), dtBranchingFactor = F,
          dtMaxFanOut = nullish (soMaxFanOut (cfSelector req)) DEFAULT_MAX_FAN_OUT,
          dtTaskSlotBase = Some b, dtLocationHint = cfLocationHint req\<rparr>)) 0))"
    if "j < length children" "map planSize children ! j = length part" "part \<noteq> []" "streamOk c"
    for b part c j subName x
  proof (rule wrap [OF that(3)])
    fix k :: nat assume k: "k = 0 \<or> retried"
    let ?req = "\<lparr>dtSpec = (cfSpec req)\<lparr>tsFreshIsolate := False, tsCancelStream := attemptStream k c\<rparr>, dtArgsList = part,
          dtPlanChildSizes = planSliceChildSizes (children ! j), dtBranchingFactor = F,
          dtMaxFanOut = nullish (soMaxFanOut (cfSelector req)) DEFAULT_MAX_FAN_OUT,
          dtTaskSlotBase = Some b, dtLocationHint = cfLocationHint req\<rparr>"
    have "sameTask ((cfSpec req)\<lparr>tsFreshIsolate := False, tsCancelStream := attemptStream k c,
        tsFreshIsolate := False\<rparr>) spec"
      using assms(1) by (simp add: sameTask_def)
    then show "holds b part (dispatchOnEnv (K - 1) pl (plId pl subName) (k # path) 0 ?req)"
      using dispatchOnEnv_holds [of ?req "K - 1" "plId pl subName" "k # path" 0]
        attemptStream_ok [OF that(4) k] assms(4) assms(5) [of "children ! j"] that(1,2)
      by simp
  qed
  have "holds 0 (cfArgsList req) (overSlices
      (\<lambda>subIdx part slotBase cs.
         let subName = plId pl name @ ''-'' @ rid @ ''-sub-'' @ showNat subIdx in
         settleSlice part (retryTransient (retryError ''sub-coord retry exhausted'')
           (\<lambda>attempt. callRpc pl subName (attempt # path)
              (dispatchOnEnv (K - 1) pl (plId pl subName) (attempt # path) 0
                 \<lparr>dtSpec = (cfSpec req)\<lparr>tsFreshIsolate := False, tsCancelStream := attemptStream attempt cs\<rparr>,
                  dtArgsList = part, dtPlanChildSizes = planSliceChildSizes (children ! subIdx),
                  dtBranchingFactor = F,
                  dtMaxFanOut = nullish (soMaxFanOut (cfSelector req)) DEFAULT_MAX_FAN_OUT,
                  dtTaskSlotBase = Some slotBase, dtLocationHint = cfLocationHint req\<rparr>)) 0))
      0 (zip (slicesFrom (map planSize children) (cfArgsList req) 0)
             (forkCancelStream (tsCancelStream (cfSpec req)) (length children))))"
    by (rule overSlices_holds [where ok = streamOk]) (use assms(2,3) sub in \<open>auto simp: Let_def intro: forked_ok\<close>)
  then show ?thesis using assms(6) by (auto simp: dispatchTree_def split: if_splits prod.splits)
qed

end

section \<open>Where results come from\<close>

text \<open>
  \<open>taskOrigin\<close>: the result is what the runner of some object answered for exactly this task in its own
  slot, or the record of an RPC that failed.
\<close>

definition taskOutcome :: "Platform \<Rightarrow> string \<Rightarrow> nat list \<Rightarrow> TaskSpec \<Rightarrow> RpcEnvelope \<Rightarrow> rval list \<Rightarrow> nat \<Rightarrow>
    Delivery option \<Rightarrow> RunOneResult" where
  "taskOutcome pl name path spec envelope args slot stream =
     fst (runTask pl name path spec envelope args slot stream (plCounter pl name path))"

definition taskOrigin :: "Platform \<Rightarrow> TaskSpec \<Rightarrow> nat \<Rightarrow> rval list \<Rightarrow> RunOneResult \<Rightarrow> bool" where
  "taskOrigin pl spec slot args r \<longleftrightarrow>
     (\<exists>name path envelope stream.
        envelope\<lparr>reCancelTokenId := None\<rparr> = (tsEnvelope spec)\<lparr>reCancelTokenId := None\<rparr> \<and>
        r = taskOutcome pl name path spec envelope args slot stream) \<or>
     (\<exists>name path delivered err. plRpc pl name path = Some (delivered, err) \<and> r = errorToFailedResult err)"

abbreviation origins :: "Platform \<Rightarrow> TaskSpec \<Rightarrow> nat \<Rightarrow> rval list list \<Rightarrow> RunOneResult list \<Rightarrow> bool" where
  "origins pl spec b xs rs \<equiv> list_all2 (\<lambda>(i, a) r. taskOrigin pl spec i a r) (enumerate b xs) rs"

lemma runTask_stream [simp]:
  "runTask pl name path (spec\<lparr>tsCancelStream := c\<rparr>) env args slot stream counter =
   runTask pl name path spec env args slot stream counter"
  by (simp add: runTask_def runnerFor_def taskInput_def)

lemma leafBatch_runs:
  "runBatchOnEnv pl name path (leafBatch spec [a] b c) =
     ([Ran name b a c],
      [taskOutcome pl name path spec ((tsEnvelope spec)\<lparr>reCancelTokenId := None\<rparr>) a b c])"
  by (simp add: runBatchOnEnv_def leafBatch_def taskOutcome_def split: prod.splits)

lemma taskOrigin_outcome:
  assumes "envelope\<lparr>reCancelTokenId := None\<rparr> = (tsEnvelope spec)\<lparr>reCancelTokenId := None\<rparr>"
  shows "taskOrigin pl spec slot args (taskOutcome pl name path spec envelope args slot stream)"
  using assms unfolding taskOrigin_def by blast

lemma taskOrigin_rpc:
  "plRpc pl name path = Some (delivered, err) \<Longrightarrow> taskOrigin pl spec slot args (errorToFailedResult err)"
  unfolding taskOrigin_def by blast

lemma settleSlice_cases:
  fixes pl name path body x xs
  defines "r \<equiv> settleSlice xs (retryTransient x (\<lambda>k. callRpc pl name (k # path) (body k)) 0)"
  shows "(\<exists>k \<le> MAX_TRANSIENT_RETRIES. snd r = snd (body k)) \<or>
    (\<exists>k delivered err. plRpc pl name (k # path) = Some (delivered, err) \<and>
       snd r = map (\<lambda>_. errorToFailedResult err) xs)"
proof -
  obtain k es where k: "k \<le> MAX_TRANSIENT_RETRIES"
    "callRpc pl name (k # path) (body k) =
      (es, snd (retryTransient x (\<lambda>k. callRpc pl name (k # path) (body k)) 0))"
    using retryTransient_ends [of 0 "\<lambda>k. callRpc pl name (k # path) (body k)" x] by blast
  then show ?thesis
    unfolding r_def settleSlice_def snd_conv
    by (cases "plRpc pl name (k # path)"; cases "snd (retryTransient x (\<lambda>k. callRpc pl name (k # path) (body k)) 0)")
      (auto simp: callRpc_def [of pl name "k # path"])
qed

interpretation orig: dispatch_contract "\<lambda>b xs es rs. origins pl spec b xs rs" pl spec True "\<lambda>_. True" for pl spec
proof
  fix b xs and es es' :: "event list" and rs ys rs'
  assume "origins pl spec b xs rs" "origins pl spec (b + length xs) ys rs'"
  then show "origins pl spec b (xs @ ys) (rs @ rs')"
    by (simp add: enumerate_append_eq list_all2_appendI)
next
  fix c a b name path
  show "origins pl spec b [a] (snd (runBatchOnEnv pl name path (leafBatch spec [a] b c)))"
    by (simp add: leafBatch_runs taskOrigin_outcome)
next
  fix xs b name path x
  fix body :: "nat \<Rightarrow> RunOneResult list logged"
  assume body: "\<And>k. k = 0 \<or> True \<Longrightarrow> origins pl spec b xs (snd (body k))"
  have "origins pl spec b xs (map (\<lambda>_. errorToFailedResult err) xs)"
    if "plRpc pl name (k # path) = Some (delivered, err)" for k delivered err
    using that by (simp add: list_all2_conv_all_nth taskOrigin_rpc nth_enumerate_eq)
  then show "origins pl spec b xs (snd (settleSlice xs (retryTransient x (\<lambda>k. callRpc pl name (k # path) (body k)) 0)))"
    using settleSlice_cases [of xs x pl name path body] body by auto
qed simp_all

section \<open>A fan-out without failures\<close>

primrec ranTasks :: "event list \<Rightarrow> (nat \<times> rval list \<times> Delivery option) list" where
  "ranTasks [] = []"
| "ranTasks (e # es) =
     (case e of Ran name slot args stream \<Rightarrow> (slot, args, stream) # ranTasks es | _ \<Rightarrow> ranTasks es)"

lemma ranTasks_append [simp]: "ranTasks (es @ es') = ranTasks es @ ranTasks es'"
  by (induction es) (auto split: event.splits)

text \<open>The reference: the runner's answer for one task, wherever it runs.\<close>

definition taskRef :: "loadFn \<Rightarrow> string option \<Rightarrow> int \<Rightarrow> jsenv \<Rightarrow> TaskSpec \<Rightarrow> nat \<Rightarrow> rval list \<Rightarrow> RunOneResult" where
  "taskRef load cpu now env spec slot args =
     toResult (fst (runWithMode load cpu now (runnerFor spec env)
       (taskInput spec env ((tsEnvelope spec)\<lparr>reCancelTokenId := None\<rparr>) args slot (tsCancelStream spec)) PoolFn 0))"

text \<open>
  A calm platform: no RPC fails, every object has the same \<open>env\<close>, clock and loader, and no task fails
  with a message that looks transient.
\<close>

definition calmPlatform :: "Platform \<Rightarrow> TaskSpec \<Rightarrow> loadFn \<Rightarrow> int \<Rightarrow> jsenv \<Rightarrow> bool" where
  "calmPlatform pl spec load now env \<longleftrightarrow>
     (\<forall>name path. plRpc pl name path = None \<and> plLoad pl name path = load \<and> plNow pl name path = now \<and>
        plEnv pl name = env) \<and>
     (\<forall>slot args. \<not> transientFailure (taskRef load (plCpu pl) now env spec slot args)) \<and>
     tsCancelStream spec \<noteq> Some Errored \<and> nullish (tsCacheKeyStrategy spec) Stable \<noteq> Fresh \<and> \<not> tsFreshIsolate spec"

definition calmRun :: "Platform \<Rightarrow> TaskSpec \<Rightarrow> loadFn \<Rightarrow> int \<Rightarrow> jsenv \<Rightarrow> nat \<Rightarrow> rval list list \<Rightarrow>
    event list \<Rightarrow> RunOneResult list \<Rightarrow> bool" where
  "calmRun pl spec load now env b xs es rs \<longleftrightarrow> (calmPlatform pl spec load now env \<longrightarrow>
     ranTasks es = map (\<lambda>(i, a). (i, a, tsCancelStream spec)) (enumerate b xs) \<and>
     rs = map (\<lambda>(i, a). taskRef load (plCpu pl) now env spec i a) (enumerate b xs))"

lemma runWithMode_counter:
  assumes "roCacheKeyStrategy opts \<noteq> Fresh" "\<not> riFreshIsolate input"
  shows "fst (runWithMode load cpu now opts input mode c) = fst (runWithMode load cpu now opts input mode c')"
  using assms by (auto simp: runWithMode_def buildCacheKey_def Let_def split: sum.splits)

lemma calm_outcome:
  assumes "calmPlatform pl spec load now env"
  shows "taskOutcome pl name path spec ((tsEnvelope spec)\<lparr>reCancelTokenId := None\<rparr>) a b (tsCancelStream spec) =
    taskRef load (plCpu pl) now env spec b a"
proof -
  have "fst (runWithMode load (plCpu pl) now (runnerFor spec env) (taskInput spec env
      ((tsEnvelope spec)\<lparr>reCancelTokenId := None\<rparr>) a b (tsCancelStream spec)) PoolFn (plCounter pl name path)) =
    fst (runWithMode load (plCpu pl) now (runnerFor spec env) (taskInput spec env
      ((tsEnvelope spec)\<lparr>reCancelTokenId := None\<rparr>) a b (tsCancelStream spec)) PoolFn 0)"
    using assms by (intro runWithMode_counter) (auto simp: calmPlatform_def runnerFor_def taskInput_def)
  then show ?thesis using assms
    by (simp add: taskOutcome_def taskRef_def runTask_def calmPlatform_def case_prod_beta)
qed

lemma fork_calm: "up \<noteq> Some Errored \<Longrightarrow> c \<in> set (forkCancelStream up n) \<Longrightarrow> c = up"
  by (auto simp: forkCancelStream_def pump_def createCancelStream_def writerCancel_def writerClose_def
      split: option.splits Delivery.splits)

interpretation calm: dispatch_contract "calmRun pl spec load now env" pl spec False
  "\<lambda>c. calmPlatform pl spec load now env \<longrightarrow> c = tsCancelStream spec" for pl spec load now env
proof
  fix b xs es rs ys es' rs'
  assume "calmRun pl spec load now env b xs es rs" "calmRun pl spec load now env (b + length xs) ys es' rs'"
  then show "calmRun pl spec load now env b (xs @ ys) (es @ es') (rs @ rs')"
    by (simp add: calmRun_def enumerate_append_eq)
next
  fix c a b name path
  assume "calmPlatform pl spec load now env \<longrightarrow> c = tsCancelStream spec"
  then show "calmRun pl spec load now env b [a] (fst (runBatchOnEnv pl name path (leafBatch spec [a] b c)))
      (snd (runBatchOnEnv pl name path (leafBatch spec [a] b c)))"
    by (auto simp: calmRun_def leafBatch_runs calm_outcome)
next
  fix xs b name path x
  fix body :: "nat \<Rightarrow> RunOneResult list logged"
  assume body: "\<And>k. k = 0 \<or> False \<Longrightarrow> calmRun pl spec load now env b xs (fst (body k)) (snd (body k))"
  let ?r = "settleSlice xs (retryTransient x (\<lambda>k. callRpc pl name (k # path) (body k)) 0)"
  show "calmRun pl spec load now env b xs (fst ?r) (snd ?r)"
  proof (cases "calmPlatform pl spec load now env")
    case True
    then have first: "ranTasks (fst (body 0)) = map (\<lambda>(i, a). (i, a, tsCancelStream spec)) (enumerate b xs)"
      "snd (body 0) = map (\<lambda>(i, a). taskRef load (plCpu pl) now env spec i a) (enumerate b xs)"
      using body [of 0] by (auto simp: calmRun_def)
    have "\<not> hasTransientRunFailure (snd (body 0))"
      using True by (auto simp: first(2) hasTransientRunFailure_def list_ex_iff calmPlatform_def)
    moreover have "callRpc pl name (0 # path) (body 0) = (Rpc name (0 # path) # fst (body 0), Inr (snd (body 0)))"
      using True by (simp add: callRpc_def calmPlatform_def)
    ultimately have "?r = (Rpc name (0 # path) # fst (body 0), snd (body 0))"
      using retryTransient_first [of "\<lambda>k. callRpc pl name (k # path) (body k)"] by (simp add: settleSlice_def)
    then show ?thesis using first by (simp add: calmRun_def)
  qed (simp add: calmRun_def)
next
  fix up c n
  assume "calmPlatform pl spec load now env \<longrightarrow> up = tsCancelStream spec" "c \<in> set (forkCancelStream up n)"
  then show "calmPlatform pl spec load now env \<longrightarrow> c = tsCancelStream spec"
    using fork_calm by (auto simp: calmPlatform_def)
qed (simp_all add: calmRun_def)

end
