(* ===== verification/RunMany.thy ===== *)
theory RunMany
  imports Tiers
begin

text \<open>
  The properties of \<open>runMany\<close>, which combine the selector (\<open>Topology\<close>) with the contract of the tiers
  (\<open>Tiers\<close>): where the results come from under any failures, what a fan-out does on a calm platform,
  when it throws, and how often a task can run.
\<close>

section \<open>The plans that reach the dispatch\<close>

lemma planTopology_levels [simp]: "planTopology (buildTreeLevels k n F m) = Tree"
  by (cases k) (simp_all add: planTopology_def)

lemma planTopology_hybrid [simp]: "planTopology (buildHybridPlan n) = Hybrid"
  by (simp add: planTopology_def buildHybridPlan_def)

lemma levels_children:
  "buildTreeLevels k n F m = TreePlan n' F' K cs \<Longrightarrow> c \<in> set cs \<Longrightarrow> planTopology c \<noteq> InDo"
  by (cases k) auto

lemma selectTopology_children:
  assumes "selectTopology lg n opts = Inr (TreePlan n' F K cs)" "c \<in> set cs"
  shows "planTopology c \<noteq> InDo"
  using assms levels_children
  by (auto simp: selectTopology_def buildPinnedPlan_def buildTreePlan_def buildHybridPlan_def Let_def
      split: if_splits)

lemma selected_plan:
  assumes "logAccurate lg" "selectTopology lg (int n) opts = Inr plan" "0 < n"
  shows "(case plan of
      InDoPlan k \<Rightarrow> k = 1 \<and> n = 1
    | HybridPlan k shape \<Rightarrow> shape = replicate n 1
    | TreePlan k F K cs \<Rightarrow> 0 < F \<and> sum_list (map planSize cs) = n \<and>
        (\<forall>c \<in> set cs. sum_list (planSliceChildSizes c) = planSize c))"
proof -
  have F: "4 \<le> nullish (soBranchingFactor opts) DEFAULT_BRANCHING_FACTOR"
    using assms(2) by (auto simp: selectTopology_def Let_def split: if_splits)
  have wf: "planOk (nat (max (nullish (soMaxFanOut opts) DEFAULT_MAX_FAN_OUT)
        (nullish (soTreeThreshold opts) (nullish (soMaxFanOut opts) DEFAULT_MAX_FAN_OUT))))
      (nat (nullish (soBranchingFactor opts) DEFAULT_BRANCHING_FACTOR)) plan" "planSize plan = n"
    using selectTopology_wf [OF assms(1,2) refl refl] by auto
  show ?thesis
  proof (cases plan)
    case (TreePlan k F' K cs)
    have "sum_list (planSliceChildSizes c) = planSize c" if "c \<in> set cs" for c
      using wf(1) TreePlan that selectTopology_children [OF assms(2) [unfolded TreePlan] that]
      by (cases c) (auto simp: list_all_iff sum_list_replicate planTopology_def)
    then show ?thesis using wf F TreePlan by auto
  qed (use wf assms(3) in auto)
qed

lemma runMany_plan:
  assumes "runMany pl lg name path req = (es, Inr resp)" "cfArgsList req \<noteq> []"
  obtains plan es' where "selectTopology lg (int (length (cfArgsList req))) (cfSelector req) = Inr plan"
    "dispatchPlan pl name path plan req [] = (es', Inr (frResults resp))"
    "es = prewarmPlan pl name path plan [] @ es'"
    "frTopology resp = planTopology plan" "frTreeDepth resp = (case plan of TreePlan _ _ K _ \<Rightarrow> K | _ \<Rightarrow> 1)"
  using assms by (auto simp: runMany_def Let_def split: sum.splits prod.splits)

lemma runMany_empty: "cfArgsList req = [] \<Longrightarrow> runMany pl lg name path req = ([], Inr emptyResponse)"
  by (simp add: runMany_def)

lemma singleton_list: "length xs = 1 \<Longrightarrow> xs = [hd xs]"
  by (cases xs) auto

section \<open>The prewarm pass\<close>

lemma ranTasks_noops [simp]: "ranTasks (prewarmNoops warm names) = []"
  by (induction warm names rule: prewarmNoops.induct) auto

lemma ranTasks_prewarm [simp]: "ranTasks (prewarmPlan pl name path plan rid) = []"
  by (simp add: prewarmPlan_def)

section \<open>A sample platform\<close>

text \<open>Two tasks, both bindings present, a loader that answers 1, and no failing RPC.\<close>

definition samplePlatform :: Platform where
  "samplePlatform =
     \<lparr>plRpc = (\<lambda>_ _. None), plLoad = (\<lambda>_ _ _ _ _. Inr (RNumber 1)), plNow = (\<lambda>_ _. 0),
      plCounter = (\<lambda>_ _. 0), plPrewarmed = (\<lambda>_ _. []),
      plEnv = (\<lambda>_. [(''CfpWorkerDO'', Fetcher ''w''), (''CfpSubCoord'', Fetcher ''s'')]),
      plId = (\<lambda>n. n), plCpu = None\<rparr>"

definition sampleSpec :: TaskSpec where
  "sampleSpec =
     \<lparr>tsFnSource = ''() => 1'', tsFnHash = ''h'', tsContext = None, tsCacheKeyStrategy = None,
      tsWorkerOptions = None, tsAllowList = None,
      tsEnvelope = \<lparr>reDeadlineEpochMs = 0, reCancelTokenId = None, reMode = PoolFn, reSignal = (False, None)\<rparr>,
      tsFreshIsolate = False, tsCancelStream = None\<rparr>"

definition noSelector :: SelectorOptions where
  "noSelector = \<lparr>soTopology = None, soMaxFanOut = None, soBranchingFactor = None, soTreeThreshold = None\<rparr>"

definition sampleFanOut :: CoordinatorFanOutRequest where
  "sampleFanOut = \<lparr>cfSpec = sampleSpec, cfArgsList = [[], []], cfSelector = noSelector, cfLocationHint = None\<rparr>"

lemma sample_plan: "selectTopology ceilLog 2 noSelector = Inr (HybridPlan 2 [1, 1])"
proof -
  have "buildHybridPlan 2 = HybridPlan 2 [1, 1]" by code_simp
  then show ?thesis
    by (simp add: selectTopology_def noSelector_def DEFAULT_BRANCHING_FACTOR_def DEFAULT_MAX_FAN_OUT_def)
qed

lemma sample_ref: "taskRef (\<lambda>_ _ _. Inr (RNumber 1)) cpu now env sampleSpec slot args = ROk (RNumber 1)"
proof -
  have "checkResult (RNumber 1) = Inr (RNumber 1)"
    by (simp add: checkResult_def validateReturn_def HARD_RPC_PAYLOAD_BYTES_def)
  then show ?thesis
    by (simp add: taskRef_def runWithMode_def contextHash_def taskInput_def sampleSpec_def loadAndCall_def
        toResult_def split: prod.splits)
qed

lemma sample_calm:
  "calmPlatform samplePlatform sampleSpec (\<lambda>_ _ _. Inr (RNumber 1)) 0
     [(''CfpWorkerDO'', Fetcher ''w''), (''CfpSubCoord'', Fetcher ''s'')]"
  unfolding calmPlatform_def sample_ref by (simp add: samplePlatform_def sampleSpec_def)

lemma dispatchHybrid_ok:
  "hasBinding pl name ''CfpWorkerDO'' \<Longrightarrow> \<exists>es rs. dispatchHybrid pl name path shape req rid = (es, Inr rs)"
  by (simp add: dispatchHybrid_def case_prod_beta)

lemma sample_run:
  "\<exists>es resp. runMany samplePlatform ceilLog ''c'' [] sampleFanOut = (es, Inr resp) \<and> frTopology resp = Hybrid"
proof -
  have "hasBinding samplePlatform ''c'' ''CfpWorkerDO''" by code_simp
  then obtain es rs where d: "dispatchHybrid samplePlatform ''c'' [] [1, 1] sampleFanOut [] = (es, Inr rs)"
    using dispatchHybrid_ok by blast
  have "selectTopology ceilLog (int (length (cfArgsList sampleFanOut))) (cfSelector sampleFanOut) =
      Inr (HybridPlan 2 [1, 1])" "cfArgsList sampleFanOut \<noteq> []"
    using sample_plan by (simp_all add: sampleFanOut_def)
  with d show ?thesis by (simp add: runMany_def Let_def dispatchPlan_def planTopology_def)
qed

section \<open>Results\<close>

lemma runMany_origins:
  assumes "logAccurate lg" "runMany pl lg name path req = (es, Inr resp)"
  shows "origins pl (if frTopology resp = Tree then (cfSpec req)\<lparr>tsFreshIsolate := False\<rparr> else cfSpec req)
     0 (cfArgsList req) (frResults resp)"
proof (cases "cfArgsList req = []")
  case True
  then show ?thesis using assms(2) by (auto simp: runMany_empty emptyResponse_def)
next
  case False
  obtain plan es' where plan: "selectTopology lg (int (length (cfArgsList req))) (cfSelector req) = Inr plan"
    "dispatchPlan pl name path plan req [] = (es', Inr (frResults resp))"
    "frTopology resp = planTopology plan"
    using runMany_plan [OF assms(2) False] by blast
  note ok = selected_plan [OF assms(1) plan(1)]
  show ?thesis
  proof (cases plan)
    case (InDoPlan k)
    then have one: "k = 1" "cfArgsList req = [hd (cfArgsList req)]"
      using ok False by (auto simp: singleton_list)
    have "frResults resp = [taskOutcome pl name path (cfSpec req) (tsEnvelope (cfSpec req)) (hd (cfArgsList req)) 0
        (tsCancelStream (cfSpec req))]"
      using plan(2) InDoPlan one(1)
      by (simp add: dispatchPlan_def dispatchInDo_def runOne_def taskOutcome_def Let_def)
    then show ?thesis using InDoPlan plan(3) taskOrigin_outcome
      by (subst one(2)) (simp add: planTopology_def)
  next
    case (HybridPlan k shape)
    then have "dispatchHybrid pl name path (replicate (length (cfArgsList req)) 1) req [] = (es', Inr (frResults resp))"
      using ok plan(2) False by (simp add: dispatchPlan_def)
    from orig.dispatchHybrid_holds [OF sameTask_simps(1) _ this] show ?thesis
      using HybridPlan plan(3) by (simp add: planTopology_def)
  next
    case (TreePlan k F K cs)
    then have "dispatchTree pl name path (F, K, cs) req [] = (es', Inr (frResults resp))"
      using plan(2) by (simp add: dispatchPlan_def)
    from orig.dispatchTree_holds [OF sameTask_simps(1) _ _ _ _ this] show ?thesis
      using TreePlan plan(3) ok False by (simp add: planTopology_def)
  qed
qed

text \<open>
  C4. Whatever RPCs fail and however often they are retried, a fan-out that returns has one result per
  argument list, in order, and the result at index \<open>i\<close> is what a runner answered for exactly the
  arguments \<open>i\<close> in slot \<open>i\<close>, or the record of an RPC that failed. In a tree the tasks run without the
  caller's \<open>freshIsolate\<close>.
\<close>

theorem runMany_results:
  assumes "logAccurate lg" "runMany pl lg name path req = (es, Inr resp)"
  shows "origins pl (if frTopology resp = Tree then (cfSpec req)\<lparr>tsFreshIsolate := False\<rparr> else cfSpec req)
     0 (cfArgsList req) (frResults resp)"
  using assms by (rule runMany_origins)

theorem runMany_results_witness:
  "\<exists>es resp. runMany samplePlatform ceilLog ''c'' [] sampleFanOut = (es, Inr resp) \<and> length (frResults resp) = 2"
proof -
  obtain es resp where r: "runMany samplePlatform ceilLog ''c'' [] sampleFanOut = (es, Inr resp)"
    using sample_run by blast
  from list_all2_lengthD [OF runMany_results [OF logAccurate_ceilLog r]] r show ?thesis
    by (simp add: sampleFanOut_def)
qed

text \<open>
  C5. The topology does not matter on a calm platform: hybrid and tree dispatch both return, for every
  index, the answer of the runner for that task alone, and run every task exactly once, in its own slot
  and with the caller's cancel stream. Calm means: no RPC fails, every object has the same loader,
  environment and clock, no task fails with a message that reads as transient (\<open>transient_text_reruns\<close>
  shows what happens then), the caller's cancel stream is not errored, and neither \<open>freshIsolate\<close> nor the
  \<open>fresh\<close> cache-key strategy is asked for.
\<close>

theorem topologies_agree:
  assumes "logAccurate lg" "calmPlatform pl (cfSpec req) load now env"
    and "runMany pl lg name path req = (es, Inr resp)" "frTopology resp \<noteq> InDo"
  shows "frResults resp = map (\<lambda>(i, a). taskRef load (plCpu pl) now env (cfSpec req) i a) (enumerate 0 (cfArgsList req)) \<and>
    ranTasks es = map (\<lambda>(i, a). (i, a, tsCancelStream (cfSpec req))) (enumerate 0 (cfArgsList req))"
proof -
  have ne: "cfArgsList req \<noteq> []"
    using assms(3,4) by (auto simp: runMany_empty emptyResponse_def)
  obtain plan es' where plan: "selectTopology lg (int (length (cfArgsList req))) (cfSelector req) = Inr plan"
    "dispatchPlan pl name path plan req [] = (es', Inr (frResults resp))"
    "es = prewarmPlan pl name path plan [] @ es'"
    "frTopology resp = planTopology plan"
    using runMany_plan [OF assms(3) ne] by blast
  note ok = selected_plan [OF assms(1) plan(1)]
  have fresh: "(cfSpec req)\<lparr>tsFreshIsolate := False\<rparr> = cfSpec req"
    using assms(2) by (simp add: calmPlatform_def)
  have "calmRun pl (cfSpec req) load now env 0 (cfArgsList req) es' (frResults resp)"
  proof (cases plan)
    case (InDoPlan k)
    then show ?thesis using assms(4) plan(4) by (simp add: planTopology_def)
  next
    case (HybridPlan k shape)
    then have "dispatchHybrid pl name path (replicate (length (cfArgsList req)) 1) req [] = (es', Inr (frResults resp))"
      using ok plan(2) ne by (simp add: dispatchPlan_def)
    from calm.dispatchHybrid_holds [OF sameTask_simps(1) _ this] show ?thesis by simp
  next
    case (TreePlan k F K cs)
    then have "dispatchTree pl name path (F, K, cs) req [] = (es', Inr (frResults resp))"
      using plan(2) by (simp add: dispatchPlan_def)
    from calm.dispatchTree_holds [OF _ _ _ _ _ this, of "cfSpec req"] show ?thesis
      using TreePlan ok ne by (simp add: fresh)
  qed
  then show ?thesis using assms(2) by (simp add: calmRun_def plan(3))
qed

theorem topologies_agree_witness:
  "\<exists>es resp. runMany samplePlatform ceilLog ''c'' [] sampleFanOut = (es, Inr resp) \<and>
     frResults resp = [ROk (RNumber 1), ROk (RNumber 1)] \<and> ranTasks es = [(0, [], None), (1, [], None)]"
proof -
  obtain es resp where r: "runMany samplePlatform ceilLog ''c'' [] sampleFanOut = (es, Inr resp)"
    "frTopology resp \<noteq> InDo"
    using sample_run by auto
  have c: "calmPlatform samplePlatform (cfSpec sampleFanOut) (\<lambda>_ _ _. Inr (RNumber 1)) 0
      [(''CfpWorkerDO'', Fetcher ''w''), (''CfpSubCoord'', Fetcher ''s'')]"
    using sample_calm by (simp add: sampleFanOut_def)
  have e: "enumerate 0 [[], []] = [(0 :: nat, [] :: rval list), (1, [])]" by code_simp
  from topologies_agree [OF logAccurate_ceilLog c r] show ?thesis using r(1)
    by (simp add: sampleFanOut_def sample_ref e sampleSpec_def [THEN arg_cong [where f = tsCancelStream]])
qed

section \<open>Errors\<close>

text \<open>
  C6. \<open>runMany\<close> throws exactly when the selector rejects the request or a binding that the chosen
  topology needs is missing; failures of tasks and of RPCs are results. When it throws it has run no
  task and made no call but this: for a tree with \<open>CfpSubCoord\<close> bound and \<open>CfpWorkerDO\<close> missing, which the
  code notices only after the prewarm pass, one \<open>noop\<close> to every sub-coordinator not prewarmed before.
\<close>

theorem runMany_throws:
  assumes "logAccurate lg"
  shows "(case runMany pl lg name path req of
      (es, Inl e) \<Rightarrow> cfArgsList req \<noteq> [] \<and>
        (case selectTopology lg (int (length (cfArgsList req))) (cfSelector req) of
           Inl e' \<Rightarrow> e = Lib e' \<and> es = []
         | Inr plan \<Rightarrow> planTopology plan \<noteq> InDo \<and> (\<exists>msg. e = PlainError ''Error'' msg None) \<and>
             \<not> (hasBinding pl name ''CfpWorkerDO'' \<and>
                (planTopology plan = Hybrid \<or> hasBinding pl name ''CfpSubCoord'')) \<and>
             es = (if planTopology plan = Tree \<and> hasBinding pl name ''CfpSubCoord''
                   then prewarmNoops (plPrewarmed pl (plId pl name) path) (prewarmNames (plId pl name) [] plan)
                   else []))
    | (es, Inr resp) \<Rightarrow>
        (if cfArgsList req = [] then True
         else \<exists>plan. selectTopology lg (int (length (cfArgsList req))) (cfSelector req) = Inr plan \<and>
           (planTopology plan = InDo \<or> hasBinding pl name ''CfpWorkerDO'' \<and>
             (planTopology plan = Hybrid \<or> hasBinding pl name ''CfpSubCoord''))))"
proof (cases "cfArgsList req = []")
  case True
  then show ?thesis by (simp add: runMany_empty)
next
  case False
  let ?sel = "selectTopology lg (int (length (cfArgsList req))) (cfSelector req)"
  show ?thesis
  proof (cases ?sel)
    case (Inl e)
    then show ?thesis using False by (simp add: runMany_def Let_def)
  next
    case (Inr plan)
    note ok = selected_plan [OF assms Inr]
    show ?thesis using False Inr ok
      by (cases plan)
        (auto simp: runMany_def Let_def dispatchPlan_def dispatchInDo_def dispatchHybrid_def dispatchTree_def
          prewarmPlan_def retryError_def planTopology_def split: prod.splits if_splits)
  qed
qed

text \<open>Two tasks in a tree of one sub-coordinator, which gets its \<open>noop\<close> before the call throws.\<close>

definition noWorkers :: Platform where
  "noWorkers = samplePlatform\<lparr>plEnv := \<lambda>_. [(''CfpSubCoord'', Fetcher ''s'')]\<rparr>"

definition sampleTree :: CoordinatorFanOutRequest where
  "sampleTree = sampleFanOut\<lparr>cfSelector := noSelector\<lparr>soTopology := Some Tree\<rparr>\<rparr>"

lemma sample_tree_plan:
  "selectTopology ceilLog 2 (noSelector\<lparr>soTopology := Some Tree\<rparr>) =
     Inr (TreePlan 2 8 1 [HybridPlan 1 [1], HybridPlan 1 [1]])"
proof -
  have "buildTreePlan ceilLog 2 8 32 = TreePlan 2 8 1 [HybridPlan 1 [1], HybridPlan 1 [1]]" by code_simp
  then show ?thesis
    by (simp add: selectTopology_def noSelector_def buildPinnedPlan_def DEFAULT_BRANCHING_FACTOR_def
        DEFAULT_MAX_FAN_OUT_def)
qed

theorem runMany_throws_witness:
  "\<exists>es e. runMany noWorkers ceilLog ''c'' [] sampleTree = (es, Inl e) \<and>
     Noop (''c'' @ ''-'' @ [] @ ''-sub-'' @ showNat 0) \<in> set es"
proof -
  have b: "\<not> hasBinding noWorkers ''c'' ''CfpWorkerDO''" "hasBinding noWorkers ''c'' ''CfpSubCoord''"
    by code_simp+
  have p: "plPrewarmed noWorkers x y = []" "plId noWorkers x = x" for x y
    by (simp_all add: noWorkers_def samplePlatform_def)
  have c: "int (length (cfArgsList sampleTree)) = 2" "cfArgsList sampleTree \<noteq> []"
    "cfSelector sampleTree = noSelector\<lparr>soTopology := Some Tree\<rparr>"
    by (simp_all add: sampleTree_def sampleFanOut_def)
  obtain es r where r: "runMany noWorkers ceilLog ''c'' [] sampleTree = (es, r)"
    by (cases "runMany noWorkers ceilLog ''c'' [] sampleTree")
  have u: "upt 0 (length [HybridPlan 1 [1], HybridPlan 1 [1]]) = [0, 1]" by (simp add: upt_rec)
  show ?thesis
    using runMany_throws [OF logAccurate_ceilLog, where pl = noWorkers and name = "''c''" and path = "[]"
        and req = sampleTree] r
    by (cases r) (simp_all add: b p c sample_tree_plan planTopology_def prewarmNames_def u)
qed

section \<open>How often a task runs\<close>

fun ranSlot :: "nat \<Rightarrow> event \<Rightarrow> bool" where
  "ranSlot slot (Ran _ slot' _ _) = (slot = slot')"
| "ranSlot slot _ = False"

fun ranOther :: "nat \<Rightarrow> rval list list \<Rightarrow> event \<Rightarrow> bool" where
  "ranOther b xs (Ran _ slot args _) = (\<not> (b \<le> slot \<and> slot < b + length xs \<and> args = xs ! (slot - b)))"
| "ranOther b xs _ = False"

text \<open>
  \<open>taskRuns B b xs es\<close>: every run is of one of the tasks \<open>xs\<close>, with its own arguments in its own slot,
  counted from \<open>b\<close>, and none of them has run more than \<open>B\<close> times.
\<close>

definition taskRuns :: "nat \<Rightarrow> nat \<Rightarrow> rval list list \<Rightarrow> event list \<Rightarrow> bool" where
  "taskRuns B b xs es \<longleftrightarrow>
     filter (ranOther b xs) es = [] \<and> (\<forall>slot. length (filter (ranSlot slot) es) \<le> B)"

lemma ranSlot_elsewhere:
  assumes "filter (ranOther b xs) es = []" "slot < b \<or> b + length xs \<le> slot"
  shows "filter (ranSlot slot) es = []"
proof -
  have "\<not> ranSlot slot e" if "e \<in> set es" for e
    using assms that by (cases e) (force simp: filter_empty_conv)+
  then show ?thesis by (simp add: filter_empty_conv)
qed

lemma ranOther_weaken:
  "\<not> ranOther b xs e \<Longrightarrow> \<not> ranOther b (xs @ ys) e"
  "\<not> ranOther (b + length xs) ys e \<Longrightarrow> \<not> ranOther b (xs @ ys) e"
  by (cases e; auto simp: nth_append)+

interpretation runs: slice_relation "\<lambda>b xs es rs. taskRuns B b xs es" for B
proof
  fix b xs es ys es'
  assume l: "taskRuns B b xs es" and r: "taskRuns B (b + length xs) ys es'"
  have "filter (ranOther b (xs @ ys)) (es @ es') = []"
    using l r ranOther_weaken [of b xs] by (auto simp: taskRuns_def filter_empty_conv)
  moreover have "length (filter (ranSlot slot) (es @ es')) \<le> B" for slot
  proof (cases "slot < b + length xs")
    case True
    then show ?thesis using l r ranSlot_elsewhere [of "b + length xs" ys es' slot] by (simp add: taskRuns_def)
  next
    case False
    then show ?thesis using l r ranSlot_elsewhere [of b xs es slot] by (simp add: taskRuns_def)
  qed
  ultimately show "taskRuns B b (xs @ ys) (es @ es')" by (simp add: taskRuns_def)
qed (simp_all add: taskRuns_def)

lemma taskRuns_settled:
  assumes "\<And>k. taskRuns B b xs (fst (body k))"
  shows "taskRuns (5 * B) b xs
    (fst (settleSlice ys (retryTransient x (\<lambda>k. callRpc pl name (k # path) (body k)) 0)))"
proof -
  let ?call = "\<lambda>k. callRpc pl name (k # path) (body k)"
  have one: "length (filter P (fst (?call k))) \<le> n"
    if "length (filter P (fst (body k))) \<le> n" "\<not> P (Rpc name (k # path))" for P k n
    using that by (auto simp: callRpc_def split: option.splits)
  have "length (filter (ranOther b xs) (fst (retryTransient x ?call 0))) \<le> (Suc MAX_TRANSIENT_RETRIES - 0) * 0"
    by (rule retryTransient_count, rule one) (use assms in \<open>auto simp: taskRuns_def\<close>)
  moreover have "length (filter (ranSlot slot) (fst (retryTransient x ?call 0))) \<le> (Suc MAX_TRANSIENT_RETRIES - 0) * B" for slot
    by (rule retryTransient_count, rule one) (use assms in \<open>auto simp: taskRuns_def\<close>)
  ultimately show ?thesis by (simp add: taskRuns_def settleSlice_def MAX_TRANSIENT_RETRIES_def)
qed

lemma taskRuns_leaf:
  "length xs = 1 \<Longrightarrow> taskRuns 1 b xs (fst (runBatchOnEnv pl name path (leafBatch spec xs b c)))"
  by (cases xs) (auto simp: leafBatch_runs taskRuns_def)

lemma taskRuns_leafRpc:
  "length xs = 1 \<Longrightarrow> taskRuns 5 b xs (fst (settleSlice ys (retryTransient x (\<lambda>k. callRpc pl name (k # path)
     (runBatchOnEnv pl name (k # path) (leafBatch spec xs b (attemptStream k c)))) 0)))"
  using taskRuns_settled [where B = 1, OF taskRuns_leaf] by simp

lemma taskRuns_hybridLeaf:
  "taskRuns 5 b part (fst (dispatchHybridLeaf pl ownerId path reqIdx req i part b c))"
  unfolding dispatchHybridLeaf_def case_prod_beta fst_conv Let_def
proof (rule runs.prewarmed, rule runs.overSlices_holds [where ok = "\<lambda>_. True"])
  show "sum_list (map (\<lambda>_. 1) part) = length part" by (simp add: sum_list_triv)
qed (auto intro: taskRuns_leafRpc)

lemma taskRuns_dispatchOnEnv:
  assumes "sum_list (dtPlanChildSizes req) = length (dtArgsList req)" "0 < dtBranchingFactor req"
  shows "taskRuns (5 ^ max 1 d) (nullish (dtTaskSlotBase req) 0) (dtArgsList req)
    (fst (dispatchOnEnv d pl ownerId path reqIdx req))"
  using assms
proof (induction d arbitrary: ownerId path reqIdx req)
  case 0
  show ?case unfolding dispatchOnEnv.simps
    by (rule runs.overSlices_holds [where ok = "\<lambda>_. True"]) (use 0 in \<open>auto intro: taskRuns_hybridLeaf\<close>)
next
  case (Suc d)
  have deeper: "taskRuns (5 * 5 ^ max 1 d) b part (fst (settleSlice part (retryTransient x
      (\<lambda>k. callRpc pl subId (k # path) (dispatchOnEnv d pl (plId pl subId) (k # path) 0
         (req\<lparr>dtSpec := (dtSpec req)\<lparr>tsCancelStream := attemptStream k c\<rparr>, dtArgsList := part,
              dtPlanChildSizes := balancedFill (length part) (dtBranchingFactor req),
              dtTaskSlotBase := Some b\<rparr>))) 0)))" for b part c subId x
  proof (rule taskRuns_settled)
    fix k
    show "taskRuns (5 ^ max 1 d) b part (fst (dispatchOnEnv d pl (plId pl subId) (k # path) 0
        (req\<lparr>dtSpec := (dtSpec req)\<lparr>tsCancelStream := attemptStream k c\<rparr>, dtArgsList := part,
             dtPlanChildSizes := balancedFill (length part) (dtBranchingFactor req),
             dtTaskSlotBase := Some b\<rparr>)))"
      using Suc.IH [of "req\<lparr>dtSpec := (dtSpec req)\<lparr>tsCancelStream := attemptStream k c\<rparr>, dtArgsList := part,
             dtPlanChildSizes := balancedFill (length part) (dtBranchingFactor req),
             dtTaskSlotBase := Some b\<rparr>" "plId pl subId" "k # path" 0] Suc.prems(2)
      by (simp add: sum_balancedFill)
  qed
  show ?case unfolding dispatchOnEnv.simps
  proof (rule runs.overSlices_holds [where ok = "\<lambda>_. True"], goal_cases)
    case (4 j part b c)
    show ?case
    proof (cases "Suc d \<le> 1")
      case True
      then show ?thesis using taskRuns_hybridLeaf by simp
    next
      case False
      then have d: "max 1 d = d" "max 1 (Suc d) = Suc d" by simp_all
      show ?thesis
        using deeper by (simp only: if_not_P [OF False] Let_def d power_Suc add_0)
    qed
  qed (use Suc.prems in auto)
qed

lemma taskRuns_dispatchHybrid:
  assumes "dispatchHybrid pl name path (replicate (length (cfArgsList req)) 1) req rid = (es, Inr rs)"
  shows "taskRuns 5 0 (cfArgsList req) es"
proof -
  have leaf: "taskRuns 5 b part (fst (invokeLeafBatchWithRetry pl n path (cfSpec req) part b c))"
    if "length part = 1" for n part b c
    using taskRuns_leafRpc [OF that] by (simp add: invokeLeafBatchWithRetry_def)
  have "taskRuns 5 0 (cfArgsList req) (fst (overSlices
      (\<lambda>leafIdx part slotBase cs. invokeLeafBatchWithRetry pl
         (plId pl name @ ''-'' @ rid @ ''-leaf-'' @ showNat leafIdx) path (cfSpec req) part slotBase cs)
      0 (zip (slicesFrom (replicate (length (cfArgsList req)) 1) (cfArgsList req) 0)
             (forkCancelStream (tsCancelStream (cfSpec req)) (length (replicate (length (cfArgsList req)) (1 :: nat)))))))"
    by (rule runs.overSlices_holds [where ok = "\<lambda>_. True"]) (use leaf in \<open>auto simp: sum_list_replicate\<close>)
  then show ?thesis using assms by (auto simp: dispatchHybrid_def split: if_splits prod.splits)
qed

lemma taskRuns_dispatchTree:
  assumes "sum_list (map planSize children) = length (cfArgsList req)" "0 < F"
    and "\<And>c. c \<in> set children \<Longrightarrow> sum_list (planSliceChildSizes c) = planSize c"
    and "dispatchTree pl name path (F, K, children) req rid = (es, Inr rs)"
  shows "taskRuns (5 ^ max 2 K) 0 (cfArgsList req) es"
proof -
  have K: "5 * 5 ^ max 1 (K - 1) = (5 :: nat) ^ max 2 K" by (cases K) (auto simp: max_def)
  have bound: "hasBinding pl name ''CfpSubCoord''" "hasBinding pl name ''CfpWorkerDO''"
    using assms(4) by (auto simp: dispatchTree_def split: if_splits)
  have not: "\<not> \<not> hasBinding pl name ''CfpSubCoord''" "\<not> \<not> hasBinding pl name ''CfpWorkerDO''"
    using bound by simp_all
  have sub: "taskRuns (5 ^ max 1 (K - 1)) b part (fst (dispatchOnEnv (K - 1) pl ownerId p 0
      \<lparr>dtSpec = spec, dtArgsList = part, dtPlanChildSizes = planSliceChildSizes (children ! j),
       dtBranchingFactor = F, dtMaxFanOut = m, dtTaskSlotBase = Some b, dtLocationHint = hint\<rparr>))"
    if "j < length children" "map planSize children ! j = length part" for b part ownerId p j spec m hint
    using taskRuns_dispatchOnEnv [of "\<lparr>dtSpec = spec, dtArgsList = part,
       dtPlanChildSizes = planSliceChildSizes (children ! j), dtBranchingFactor = F, dtMaxFanOut = m,
       dtTaskSlotBase = Some b, dtLocationHint = hint\<rparr>"] assms(2,3) that by simp
  have "taskRuns (5 ^ max 2 K) 0 (cfArgsList req) (fst (dispatchTree pl name path (F, K, children) req rid))"
    unfolding dispatchTree_def case_prod_conv case_prod_beta fst_conv
    unfolding if_not_P [OF not(1)] if_not_P [OF not(2)] K [symmetric] fst_conv snd_conv
  proof (rule runs.overSlices_holds [where ok = "\<lambda>_. True"], goal_cases)
    case (4 j part b c)
    then show ?case
      unfolding Let_def add_0 by (intro taskRuns_settled sub) auto
  qed (use assms(1) in auto)
  then show ?thesis using assms(4) by simp
qed

lemma slotRuns_ranTasks: "length (filter (ranSlot slot) es) = count_list (map fst (ranTasks es)) slot"
  by (induction es) (auto split: event.splits)

lemma taskRuns_exact:
  assumes "taskRuns B 0 xs es"
  shows "count_list (map fst (ranTasks es)) slot \<le> B"
    "list_all (\<lambda>(slot, args, stream). slot < length xs \<and> args = xs ! slot) (ranTasks es)"
proof -
  show "count_list (map fst (ranTasks es)) slot \<le> B"
    using assms by (simp add: taskRuns_def flip: slotRuns_ranTasks)
  have "filter (ranOther 0 xs) es = []" using assms by (simp add: taskRuns_def)
  then show "list_all (\<lambda>(slot, args, stream). slot < length xs \<and> args = xs ! slot) (ranTasks es)"
    by (induction es) (auto split: event.splits if_splits)
qed

lemma taskRuns_prewarm [simp]: "taskRuns B 0 xs (prewarmPlan pl name path plan rid @ es) = taskRuns B 0 xs es"
proof -
  have "filter (ranOther b xs) (prewarmNoops warm names) = []" "filter (ranSlot slot) (prewarmNoops warm names) = []"
    for b warm names slot
    by (induction warm names rule: prewarmNoops.induct) auto
  then show ?thesis by (simp add: taskRuns_def prewarmPlan_def)
qed

text \<open>
  C7. Retries are bounded for every task: all that runs are the tasks of the request, each with its own
  arguments in its own slot, and each at most once without a fan-out, at most 5 times in a hybrid
  fan-out, and at most \<open>5 ^ max 2 K\<close> times in a tree of depth \<open>K\<close>, where the retries of the tiers
  multiply.
\<close>

theorem runMany_runs:
  assumes "logAccurate lg" "runMany pl lg name path req = (es, Inr resp)"
  shows "count_list (map fst (ranTasks es)) slot \<le>
      (case frTopology resp of Hybrid \<Rightarrow> 5 | Tree \<Rightarrow> 5 ^ max 2 (frTreeDepth resp) | _ \<Rightarrow> 1) \<and>
    list_all (\<lambda>(slot, args, stream). slot < length (cfArgsList req) \<and> args = cfArgsList req ! slot) (ranTasks es)"
proof (cases "cfArgsList req = []")
  case True
  then show ?thesis using assms(2) by (auto simp: runMany_empty)
next
  case False
  obtain plan es' where plan: "selectTopology lg (int (length (cfArgsList req))) (cfSelector req) = Inr plan"
    "dispatchPlan pl name path plan req [] = (es', Inr (frResults resp))"
    "es = prewarmPlan pl name path plan [] @ es'"
    "frTopology resp = planTopology plan" "frTreeDepth resp = (case plan of TreePlan _ _ K _ \<Rightarrow> K | _ \<Rightarrow> 1)"
    using runMany_plan [OF assms(2) False] by blast
  note ok = selected_plan [OF assms(1) plan(1)]
  have "taskRuns (case frTopology resp of Hybrid \<Rightarrow> 5 | Tree \<Rightarrow> 5 ^ max 2 (frTreeDepth resp) | _ \<Rightarrow> 1) 0
      (cfArgsList req) es'"
  proof (cases plan)
    case (InDoPlan k)
    then have one: "k = 1" "cfArgsList req = [hd (cfArgsList req)]"
      using ok False by (auto simp: singleton_list)
    then show ?thesis using plan InDoPlan
      by (subst one(2)) (auto simp: dispatchPlan_def dispatchInDo_def runOne_def planTopology_def Let_def
          taskRuns_def hd_conv_nth False)
  next
    case (HybridPlan k shape)
    then have "dispatchHybrid pl name path (replicate (length (cfArgsList req)) 1) req [] = (es', Inr (frResults resp))"
      using ok plan(2) False by (simp add: dispatchPlan_def)
    from taskRuns_dispatchHybrid [OF this] show ?thesis
      using HybridPlan plan(4) by (simp add: planTopology_def)
  next
    case (TreePlan k F K cs)
    then have "dispatchTree pl name path (F, K, cs) req [] = (es', Inr (frResults resp))"
      using plan(2) by (simp add: dispatchPlan_def)
    then have "taskRuns (5 ^ max 2 K) 0 (cfArgsList req) es'"
      by (rule taskRuns_dispatchTree [rotated 3]) (use ok False TreePlan in auto)
    moreover have "frTopology resp = Tree" "frTreeDepth resp = K"
      using TreePlan plan(4,5) by (simp_all add: planTopology_def)
    ultimately show ?thesis by (simp only: Topology.case)
  qed
  then have "taskRuns (case frTopology resp of Hybrid \<Rightarrow> 5 | Tree \<Rightarrow> 5 ^ max 2 (frTreeDepth resp) | _ \<Rightarrow> 1) 0
      (cfArgsList req) es"
    by (simp only: plan(3) taskRuns_prewarm)
  then show ?thesis by (intro conjI taskRuns_exact)
qed

theorem runMany_runs_witness:
  "\<exists>es resp. runMany samplePlatform ceilLog ''c'' [] sampleFanOut = (es, Inr resp) \<and>
     count_list (map fst (ranTasks es)) 1 \<le> 5"
proof -
  obtain es resp where r: "runMany samplePlatform ceilLog ''c'' [] sampleFanOut = (es, Inr resp)"
    "frTopology resp = Hybrid"
    using sample_run by blast
  from runMany_runs [OF logAccurate_ceilLog r(1), of 1] r show ?thesis by simp
qed

section \<open>Retries of a failing task\<close>

text \<open>
  The retry loop cannot tell a reset object from a user function that throws an error with such a
  text: a task whose own error mentions, say, a lost network connection is run five times on its leaf,
  the last four times without the caller's cancel stream.
\<close>

theorem transient_text_reruns:
  assumes "\<And>p. plRpc pl leaf p = None"
    and "\<And>p c. \<exists>rec. taskOutcome pl leaf p spec ((tsEnvelope spec)\<lparr>reCancelTokenId := None\<rparr>) args slot c = RFail rec \<and>
      transientMessage (frMessage rec)"
  shows "ranTasks (fst (invokeLeafBatchWithRetry pl leaf path spec [args] slot stream)) =
    (slot, args, stream) # replicate 4 (slot, args, None)"
proof -
  let ?call = "\<lambda>k. callRpc pl leaf (k # path) (runBatchOnEnv pl leaf (k # path)
      (leafBatch spec [args] slot (attemptStream k stream)))"
  have call: "?call k = ([Rpc leaf (k # path), Ran leaf slot args (attemptStream k stream)],
      Inr [taskOutcome pl leaf (k # path) spec ((tsEnvelope spec)\<lparr>reCancelTokenId := None\<rparr>) args slot
        (attemptStream k stream)])" for k
    by (simp add: callRpc_def assms(1) leafBatch_runs)
  have bad: "hasTransientRunFailure [taskOutcome pl leaf p spec ((tsEnvelope spec)\<lparr>reCancelTokenId := None\<rparr>) args slot c]" for p c
    using assms(2) [of p c] by (auto simp: hasTransientRunFailure_def)
  have last: "ranTasks (fst (retryTransient x ?call 4)) = [(slot, args, None)]" for x
    by (subst retryTransient.simps) (simp add: call MAX_TRANSIENT_RETRIES_def, simp add: attemptStream_def)
  have step: "ranTasks (fst (retryTransient x ?call k)) =
      (slot, args, attemptStream k stream) # ranTasks (fst (retryTransient x ?call (Suc k)))" if "k < 4" for x k
    by (subst retryTransient.simps)
      (use that in \<open>simp add: call bad MAX_TRANSIENT_RETRIES_def case_prod_beta\<close>)
  have s: "Suc 0 = 1" "Suc 1 = 2" "Suc 2 = 3" "Suc 3 = (4 :: nat)" by simp_all
  have "ranTasks (fst (retryTransient x ?call 0)) = (slot, args, stream) # replicate 4 (slot, args, None)" for x
    using step [of 0 x] step [of 1 x] step [of 2 x] step [of 3 x] last [of x] unfolding s
    by (simp add: attemptStream_def eval_nat_numeral)
  then show ?thesis by (simp add: invokeLeafBatchWithRetry_def settleSlice_def)
qed

definition throwingPlatform :: Platform where
  "throwingPlatform = samplePlatform\<lparr>plLoad :=
     \<lambda>_ _ _ _ _. Inl (PlainError ''Error'' ''upstream: Network connection lost'' None)\<rparr>"

theorem transient_text_reruns_witness:
  "ranTasks (fst (invokeLeafBatchWithRetry throwingPlatform ''leaf'' [] sampleSpec [[RNumber 7]] 0 (Some Pending))) =
     (0, [RNumber 7], Some Pending) # replicate 4 (0, [RNumber 7], None)"
proof (rule transient_text_reruns)
  show "plRpc throwingPlatform ''leaf'' p = None" for p
    by (simp add: throwingPlatform_def samplePlatform_def)
next
  fix p c
  have m: "marshalError None (PlainError ''Error'' ''upstream: Network connection lost'' None) =
      ExecutionError ''upstream: Network connection lost'' None None None"
    by code_simp
  have t: "transientMessage ''upstream: Network connection lost''" by code_simp
  have "taskOutcome throwingPlatform ''leaf'' p sampleSpec ((tsEnvelope sampleSpec)\<lparr>reCancelTokenId := None\<rparr>)
      [RNumber 7] 0 c = errorToFailedResult (Lib (ExecutionError ''upstream: Network connection lost'' None None None))"
    by (simp add: taskOutcome_def runTask_def runWithMode_def contextHash_def taskInput_def sampleSpec_def
        loadAndCall_def toResult_def throwingPlatform_def samplePlatform_def m split: prod.splits)
  then show "\<exists>rec. taskOutcome throwingPlatform ''leaf'' p sampleSpec ((tsEnvelope sampleSpec)\<lparr>reCancelTokenId := None\<rparr>)
      [RNumber 7] 0 c = RFail rec \<and> transientMessage (frMessage rec)"
    using t by (simp add: errorToFailedResult_def errorToRecord_def)
qed

section \<open>The width of the last tier\<close>

fun isRpc :: "event \<Rightarrow> bool" where
  "isRpc (Rpc _ _) = True"
| "isRpc _ = False"

definition rpcs :: "event list \<Rightarrow> nat" where
  "rpcs es = length (filter isRpc es)"

lemma rpcs_append [simp]: "rpcs (es @ es') = rpcs es + rpcs es'"
  by (simp add: rpcs_def)

interpretation width: slice_relation "\<lambda>b xs es rs. rpcs es = length xs"
  by unfold_locales (simp_all add: rpcs_def)

text \<open>
  A sub-coordinator of the last tier (depth 0 or 1) issues one RPC per job of all its slices by
  itself, whatever \<open>maxFanOut\<close> it was given: in a tree of depth 2 or more these are up to
  \<open>branchingFactor * maxFanOut\<close> leaves.
\<close>

theorem last_tier_width:
  assumes "d \<le> 1" "sum_list (dtPlanChildSizes req) = length (dtArgsList req)"
    and "calmPlatform pl ((dtSpec req)\<lparr>tsFreshIsolate := False\<rparr>) load now env"
  shows "rpcs (fst (dispatchOnEnv d pl ownerId path reqIdx req)) = length (dtArgsList req)"
proof -
  let ?spec = "(dtSpec req)\<lparr>tsFreshIsolate := False\<rparr>"
  have leaf: "rpcs (fst (settleSlice xs (retryTransient x (\<lambda>k. callRpc pl n (k # path)
      (runBatchOnEnv pl n (k # path) (leafBatch ?spec xs b (attemptStream k c)))) 0))) = length xs"
    if one: "length xs = 1" and c: "c = tsCancelStream ?spec" for xs x n b c
  proof -
    obtain a where xs: "xs = [a]" using one by (cases xs) auto
    have nf: "\<not> hasTransientRunFailure [taskRef load (plCpu pl) now env ?spec b a]"
      using assms(3) by (simp add: hasTransientRunFailure_def calmPlatform_def)
    have rpc: "plRpc pl n p = None" for p using assms(3) by (simp add: calmPlatform_def)
    show ?thesis
      using retryTransient_first [of "\<lambda>k. callRpc pl n (k # path)
          (runBatchOnEnv pl n (k # path) (leafBatch ?spec xs b (attemptStream k c)))" _ _ x] nf
      by (simp add: settleSlice_def callRpc_def rpc xs leafBatch_runs attemptStream_def c
          calm_outcome [OF assms(3), simplified] rpcs_def)
  qed
  have tier: "rpcs (fst (dispatchHybridLeaf pl ownerId path reqIdx req i part b c)) = length part"
    if "c = tsCancelStream ?spec" for i part b c
    unfolding dispatchHybridLeaf_def Let_def case_prod_beta fst_conv
  proof (rule width.prewarmed, rule width.overSlices_holds [where ok = "\<lambda>c. c = tsCancelStream ?spec"])
    show "sum_list (map (\<lambda>_. 1) part) = length part" by (simp add: sum_list_triv)
    show "c' = tsCancelStream ?spec" if "c' \<in> set (forkCancelStream c (length part))" for c'
      using that \<open>c = _\<close> fork_calm assms(3) by (auto simp: calmPlatform_def)
  qed (use leaf in auto)
  have "rpcs (fst (dispatchOnEnv d' pl ownerId path reqIdx req)) = length (dtArgsList req)" if "d' = 0 \<or> d' = Suc 0" for d'
    using that
  proof (elim disjE, goal_cases)
    case 1
    show ?case unfolding 1 dispatchOnEnv.simps
    proof (rule width.overSlices_holds [where ok = "\<lambda>c. c = tsCancelStream ?spec"])
      show "c = tsCancelStream ?spec"
        if "c \<in> set (forkCancelStream (tsCancelStream (dtSpec req)) (length (dtPlanChildSizes req)))" for c
        using that fork_calm assms(3) by (auto simp: calmPlatform_def)
    qed (use assms(2) tier in auto)
  next
    case 2
    show ?case unfolding 2 dispatchOnEnv.simps
    proof (rule width.overSlices_holds [where ok = "\<lambda>c. c = tsCancelStream ?spec"])
      show "c = tsCancelStream ?spec"
        if "c \<in> set (forkCancelStream (tsCancelStream (dtSpec req)) (length (dtPlanChildSizes req)))" for c
        using that fork_calm assms(3) by (auto simp: calmPlatform_def)
    qed (use assms(2) tier in auto)
  qed
  moreover have "d = 0 \<or> d = Suc 0" using assms(1) by auto
  ultimately show ?thesis by blast
qed

text \<open>Six jobs in one slice with \<open>maxFanOut = 2\<close>.\<close>

definition wideRequest :: DispatchTreeRequest where
  "wideRequest =
     \<lparr>dtSpec = sampleSpec, dtArgsList = replicate 6 [], dtPlanChildSizes = [6], dtBranchingFactor = 4,
      dtMaxFanOut = 2, dtTaskSlotBase = None, dtLocationHint = None\<rparr>"

theorem last_tier_width_witness:
  "int (rpcs (fst (dispatchOnEnv 1 samplePlatform ''s'' [] 0 wideRequest))) = 6 \<and> dtMaxFanOut wideRequest = 2"
proof -
  have "rpcs (fst (dispatchOnEnv 1 samplePlatform ''s'' [] 0 wideRequest)) = length (dtArgsList wideRequest)"
  proof (rule last_tier_width)
    show "calmPlatform samplePlatform ((dtSpec wideRequest)\<lparr>tsFreshIsolate := False\<rparr>) (\<lambda>_ _ _. Inr (RNumber 1)) 0
        [(''CfpWorkerDO'', Fetcher ''w''), (''CfpSubCoord'', Fetcher ''s'')]"
      using sample_calm by (simp add: wideRequest_def sampleSpec_def)
  qed (simp_all add: wideRequest_def)
  then show ?thesis by (simp add: wideRequest_def)
qed

end
