(* ===== verification/Observability.thy ===== *)
theory Observability
  imports Pool RunMany
begin

text \<open>
  Observability (\<open>src/observability/index.ts\<close>) and the events of a submit and of a fan-out
  (\<open>src/api/pool.ts\<close>). Hooks and the Analytics Engine dataset are the user's and the platform's: each is
  a function on the world that they change, and may throw. A number of a data point is an \<open>int\<close>.
\<close>

section \<open>Events\<close>

record TaskInfo =
  tiTs :: int
  tiPoolId :: string
  tiTaskId :: string
  tiTopology :: Topology
  tiFnHash :: string

record TaskEndEvent =
  teTask :: TaskInfo
  teWallMs :: int
  teRetryCount :: nat

record TaskErrorEvent =
  trTask :: TaskInfo
  trErrorClass :: string
  trMessage :: string
  trRetryCount :: nat

record TaskOrphanEvent =
  toTs :: int
  toPoolId :: string
  toTaskId :: string
  toReason :: "string option"

datatype PressureKind = LruThrash | BackpressureRetry | FanOutCap

record PoolPressureEvent =
  ppTs :: int
  ppKind :: PressureKind
  ppDetail :: "string option"

record TopologyDecisionEvent =
  tdTs :: int
  tdSize :: nat
  tdTopology :: Topology
  tdFanOutPerLevel :: "nat list"
  tdTreeDepth :: nat

record LruEvictionEvent =
  leTs :: int
  leCacheKey :: string

record SchedulerEvent =
  seTs :: int
  seJobId :: string
  seKind :: EventKind
  seDetail :: "string option"

datatype ObservabilityEvent = TaskStart TaskInfo | TaskEnd TaskEndEvent | TaskError TaskErrorEvent
  | TaskOrphan TaskOrphanEvent | PoolPressure PoolPressureEvent | TopologyDecision TopologyDecisionEvent
  | LruEviction LruEvictionEvent | SchedulerNote SchedulerEvent

text \<open>The discriminator \<open>kind\<close>.\<close>

fun eventTag :: "ObservabilityEvent \<Rightarrow> string" where
  "eventTag (TaskStart p) = ''taskStart''"
| "eventTag (TaskEnd p) = ''taskEnd''"
| "eventTag (TaskError p) = ''taskError''"
| "eventTag (TaskOrphan p) = ''taskOrphan''"
| "eventTag (PoolPressure p) = ''poolPressure''"
| "eventTag (TopologyDecision p) = ''topologyDecision''"
| "eventTag (LruEviction p) = ''lruEviction''"
| "eventTag (SchedulerNote p) = ''scheduler''"

section \<open>Hooks and data points\<close>

type_synonym ('p, 'w) effect = "'p \<Rightarrow> 'w \<Rightarrow> 'w \<times> thrown option"

record DataPoint =
  dpBlobs :: "string list"
  dpDoubles :: "int list"
  dpIndexes :: "string list"

record 'w Hooks =
  onTaskStart :: "(TaskInfo, 'w) effect option"
  onTaskEnd :: "(TaskEndEvent, 'w) effect option"
  onTaskError :: "(TaskErrorEvent, 'w) effect option"
  onTaskOrphan :: "(TaskOrphanEvent, 'w) effect option"
  onPoolPressure :: "(PoolPressureEvent, 'w) effect option"
  onTopologyDecision :: "(TopologyDecisionEvent, 'w) effect option"
  onLruEviction :: "(LruEvictionEvent, 'w) effect option"
  onSchedulerEvent :: "(SchedulerEvent, 'w) effect option"

text \<open>\<open>metrics\<close> is a dataset, \<open>'off'\<close> or missing; both of the latter are \<open>None\<close>.\<close>

record 'w ObservabilityOptions =
  obHooks :: "'w Hooks option"
  obMetrics :: "(DataPoint, 'w) effect option"
  obTailBindingName :: "string option"

definition callHook :: "('p, 'w) effect option \<Rightarrow> ('p, 'w) effect" where
  "callHook h p w = (case h of None \<Rightarrow> (w, None) | Some f \<Rightarrow> f p w)"

fun runHook :: "'w Hooks \<Rightarrow> (ObservabilityEvent, 'w) effect" where
  "runHook hooks (TaskStart p) = callHook (onTaskStart hooks) p"
| "runHook hooks (TaskEnd p) = callHook (onTaskEnd hooks) p"
| "runHook hooks (TaskError p) = callHook (onTaskError hooks) p"
| "runHook hooks (TaskOrphan p) = callHook (onTaskOrphan hooks) p"
| "runHook hooks (PoolPressure p) = callHook (onPoolPressure hooks) p"
| "runHook hooks (TopologyDecision p) = callHook (onTopologyDecision hooks) p"
| "runHook hooks (LruEviction p) = callHook (onLruEviction hooks) p"
| "runHook hooks (SchedulerNote p) = callHook (onSchedulerEvent hooks) p"

fun topologyText :: "Topology \<Rightarrow> string" where
  "topologyText Auto = ''auto''"
| "topologyText InDo = ''in-do''"
| "topologyText Hybrid = ''hybrid''"
| "topologyText Tree = ''tree''"

fun pressureText :: "PressureKind \<Rightarrow> string" where
  "pressureText LruThrash = ''lru-thrash''"
| "pressureText BackpressureRetry = ''backpressure-retry''"
| "pressureText FanOutCap = ''fan-out-cap''"

fun eventKindText :: "EventKind \<Rightarrow> string" where
  "eventKindText EvEnqueued = ''enqueued''"
| "eventKindText EvLeased = ''leased''"
| "eventKindText EvDone = ''done''"
| "eventKindText EvFailed = ''failed''"
| "eventKindText EvCancelled = ''cancelled''"
| "eventKindText EvRetrying = ''retrying''"
| "eventKindText EvExpired = ''expired''"

fun dataPoint :: "ObservabilityEvent \<Rightarrow> DataPoint option" where
  "dataPoint (TaskEnd p) = Some
     \<lparr>dpBlobs = [''taskEnd'', tiPoolId (teTask p), topologyText (tiTopology (teTask p)), ''ok'', tiFnHash (teTask p)],
      dpDoubles = [teWallMs p, int (teRetryCount p)], dpIndexes = [tiPoolId (teTask p)]\<rparr>"
| "dataPoint (TaskError p) = Some
     \<lparr>dpBlobs = [''taskError'', tiPoolId (trTask p), topologyText (tiTopology (trTask p)), trErrorClass p, tiFnHash (trTask p)],
      dpDoubles = [0, int (trRetryCount p)], dpIndexes = [tiPoolId (trTask p)]\<rparr>"
| "dataPoint (TaskOrphan p) = Some
     \<lparr>dpBlobs = [''taskOrphan'', toPoolId p, toTaskId p, nullish (toReason p) []],
      dpDoubles = [0], dpIndexes = [toPoolId p]\<rparr>"
| "dataPoint (PoolPressure p) = Some
     \<lparr>dpBlobs = [''poolPressure'', pressureText (ppKind p), nullish (ppDetail p) []],
      dpDoubles = [1], dpIndexes = [pressureText (ppKind p)]\<rparr>"
| "dataPoint (TopologyDecision p) = Some
     \<lparr>dpBlobs = [''topologyDecision'', topologyText (tdTopology p)],
      dpDoubles = [int (tdSize p), int (tdTreeDepth p)] @ map int (tdFanOutPerLevel p),
      dpIndexes = [topologyText (tdTopology p)]\<rparr>"
| "dataPoint (LruEviction p) = Some
     \<lparr>dpBlobs = [''lruEviction'', leCacheKey p], dpDoubles = [1], dpIndexes = [''lruEviction'']\<rparr>"
| "dataPoint (SchedulerNote p) = Some
     \<lparr>dpBlobs = [''scheduler'', eventKindText (seKind p), seJobId p, nullish (seDetail p) []],
      dpDoubles = [1], dpIndexes = [eventKindText (seKind p)]\<rparr>"
| "dataPoint (TaskStart p) = None"

definition writeAnalyticsEngine :: "(DataPoint, 'w) effect \<Rightarrow> (ObservabilityEvent, 'w) effect" where
  "writeAnalyticsEngine ds ev w = (case dataPoint ev of None \<Rightarrow> (w, None) | Some p \<Rightarrow> ds p w)"

text \<open>What a hook or the dataset throws is dropped: there is no outcome but the changed world.\<close>

definition emitObservabilityEvent :: "'w ObservabilityOptions option \<Rightarrow> ObservabilityEvent \<Rightarrow> 'w \<Rightarrow> 'w" where
  "emitObservabilityEvent opts ev w =
     (case opts of
        None \<Rightarrow> w
      | Some ob \<Rightarrow>
          let w1 = (case obHooks ob of None \<Rightarrow> w | Some hooks \<Rightarrow> fst (runHook hooks ev w))
          in (case obMetrics ob of None \<Rightarrow> w1 | Some ds \<Rightarrow> fst (writeAnalyticsEngine ds ev w1)))"

section \<open>The events of a submit\<close>

text \<open>The calls of \<open>onRetry\<close> in \<open>dispatchWithResilience\<close>: when, the attempt, the error and the delay.\<close>

fun retryCalls :: "string option \<Rightarrow> (nat \<Rightarrow> int \<Rightarrow> 'a settlement) \<Rightarrow> (nat \<Rightarrow> rat) \<Rightarrow> DispatchOptions \<Rightarrow>
    nat \<Rightarrow> nat \<Rightarrow> int \<Rightarrow> (int \<times> nat \<times> ParallelError \<times> int) list" where
  "retryCalls p task jitter opts attempt 0 now = []"
| "retryCalls p task jitter opts attempt (Suc left) now =
     (if isCancelledAt now opts then []
      else case withRaces now (task attempt now) opts of
        Some (t, Inl raw) \<Rightarrow>
          (let err = marshalError p raw in
           if isDeadlineExceeded err \<or> isCancelled err \<or> \<not> isRetryable err then []
           else if 0 < left then
             (let delay = dispatchBackoff (nullish (doRetryDelay opts) 100) err attempt (jitter attempt)
              in (t, Suc attempt, err, delay) # retryCalls p task jitter opts (Suc attempt) left (t + delay))
           else [])
      | _ \<Rightarrow> [])"

definition pressureEvent :: "int \<times> nat \<times> ParallelError \<times> int \<Rightarrow> ObservabilityEvent list" where
  "pressureEvent r =
     (case r of (t, attempt, err, delay) \<Rightarrow>
        if errName err = ''BackpressureError''
        then [PoolPressure \<lparr>ppTs = t, ppKind = LruThrash, ppDetail = Some (errMessage err)\<rparr>] else [])"

definition submitTaskId :: "string \<Rightarrow> int \<Rightarrow> string \<Rightarrow> string" where
  "submitTaskId fnHash now rnd = fnHash @ ''-'' @ renderBase 36 (nat now) @ ''-'' @ rnd"

definition taskErrorOf :: "TaskInfo \<Rightarrow> int \<Rightarrow> nat \<Rightarrow> ParallelError \<Rightarrow> ObservabilityEvent" where
  "taskErrorOf task t retries err =
     TaskError \<lparr>trTask = task\<lparr>tiTs := t\<rparr>, trErrorClass = errName err, trMessage = errMessage err,
                trRetryCount = retries\<rparr>"

definition orphanOf :: "TaskInfo \<Rightarrow> int \<Rightarrow> ParallelError \<Rightarrow> ObservabilityEvent list" where
  "orphanOf task t err =
     (if errName err = ''CancelledError''
      then [TaskOrphan \<lparr>toTs = t, toPoolId = tiPoolId task, toTaskId = tiTaskId task,
                        toReason = Some (errMessage err)\<rparr>] else [])"

text \<open>
  What a submit emits once it has its envelope: the start, the retries, and how the dispatch ended. A
  failure that the leaf reports is an error before it is an orphan, a failed dispatch the other way
  round. A dispatch that never settles emits no end. One without any attempt throws \<open>undefined\<close>, whose
  name the handler reads, which throws again before any event.
\<close>

definition endEvents :: "TaskInfo \<Rightarrow> nat \<Rightarrow> RunOneResult dispatched \<Rightarrow> ObservabilityEvent list" where
  "endEvents task retries outcome =
     (case outcome of
        Never \<Rightarrow> []
      | Settled t (Inr r) \<Rightarrow>
          (case decodeResult r of
             Inr v \<Rightarrow> [TaskEnd \<lparr>teTask = task\<lparr>tiTs := t\<rparr>, teWallMs = t - tiTs task, teRetryCount = retries\<rparr>]
           | Inl e \<Rightarrow> taskErrorOf task t retries e # orphanOf task t e)
      | Settled t (Inl err) \<Rightarrow>
          (case err of Lib e \<Rightarrow> orphanOf task t e @ [taskErrorOf task t retries e] | _ \<Rightarrow> []))"

definition submitTask :: "Pool \<Rightarrow> Topology option \<Rightarrow> string \<Rightarrow> string \<Rightarrow> int \<Rightarrow> TaskInfo" where
  "submitTask pool lastTopology fnHash rnd now =
     \<lparr>tiTs = now, tiPoolId = plCoordinatorName pool, tiTaskId = submitTaskId fnHash now rnd,
      tiTopology = nullish lastTopology InDo, tiFnHash = fnHash\<rparr>"

definition runOneEvents :: "Platform \<Rightarrow> nat list \<Rightarrow> (nat \<Rightarrow> int \<Rightarrow> int option) \<Rightarrow> (nat \<Rightarrow> rat) \<Rightarrow> Pool \<Rightarrow>
    Topology option \<Rightarrow> string \<Rightarrow> int \<Rightarrow> string \<Rightarrow> rval list \<Rightarrow> SubmitOptions \<Rightarrow> ObservabilityEvent list" where
  "runOneEvents pl path settlesAt jitter pool lastTopology rnd now fnSource args opts =
     (case callEnvelope now PoolFn opts of
        Inl e \<Rightarrow> []
      | Inr envelope \<Rightarrow>
          let co = poClient (plOpts pool);
              name = targetName (runOneTarget pool);
              req = \<lparr>crSpec = clientSpec co fnSource opts envelope (callStream now (sbCancel opts)),
                     crArgs = args, crTaskSlot = Some 0\<rparr>;
              dopts = callDispatchOptions co opts envelope;
              attempt = (\<lambda>k t. (settlesAt k t,
                 snd (callRpc pl name (k # path) (runOne pl name (k # path) req))));
              task = submitTask pool lastTopology (hashSource fnSource) rnd now;
              retries = retryCalls (plCpu pl) attempt jitter dopts 0 (nat (1 + nullish (doRetries dopts) 0)) now
          in [TaskStart task] @ concat (map pressureEvent retries) @
             endEvents task (length retries) (snd (dispatchWithResilience (plCpu pl) attempt jitter dopts now)))"

definition fanOutEvent :: "int \<Rightarrow> nat \<Rightarrow> FanOutResponse \<Rightarrow> ObservabilityEvent" where
  "fanOutEvent now n resp =
     TopologyDecision \<lparr>tdTs = now, tdSize = n, tdTopology = frTopology resp,
       tdFanOutPerLevel = frFanOutPerLevel resp, tdTreeDepth = frTreeDepth resp\<rparr>"

section \<open>Properties\<close>

lemma retryCalls_count:
  "length (retryCalls p task jitter opts k left now) \<le> fst (dispatchLoop p task jitter opts k left now e) \<and>
   fst (dispatchLoop p task jitter opts k left now e) \<le> Suc (length (retryCalls p task jitter opts k left now))"
proof (induction p task jitter opts k left now arbitrary: e rule: retryCalls.induct)
  case (2 p task jitter opts attempt left now)
  show ?case
  proof (cases "isCancelledAt now opts \<or> (\<forall>t raw. withRaces now (task attempt now) opts \<noteq> Some (t, Inl raw))")
    case True
    then show ?thesis by (auto split: option.splits sum.splits)
  next
    case False
    then obtain t raw where w: "withRaces now (task attempt now) opts = Some (t, Inl raw)" by blast
    show ?thesis
    proof (cases left)
      case 0
      then show ?thesis using False w by (simp add: Let_def)
    next
      case (Suc m)
      then show ?thesis using 2 [OF _ w refl refl] False w
        by (auto simp: Let_def split: prod.splits)
    qed
  qed
qed simp

lemma dispatchLoop_Lib:
  "dispatchLoop p task jitter opts k left now (Some e) = (n, Settled t (Inl err)) \<Longrightarrow> \<exists>le. err = Lib le"
proof (induction left arbitrary: k now e n t)
  case 0
  then show ?case by (auto simp: Let_def split: if_splits)
next
  case (Suc left)
  then show ?case by (auto simp: Let_def split: if_splits option.splits prod.splits sum.splits)
qed

lemma dispatch_throws_Lib:
  assumes "0 \<le> nullish (doRetries opts) 0"
    and "snd (dispatchWithResilience p task jitter opts now) = Settled t (Inl err)"
  shows "\<exists>le. err = Lib le"
proof -
  have "nat (1 + nullish (doRetries opts) 0) = Suc (nat (nullish (doRetries opts) 0))" using assms(1) by simp
  then show ?thesis using assms(2)
    by (auto simp: dispatchWithResilience_def Let_def split: if_splits option.splits prod.splits sum.splits
        dest: dispatchLoop_Lib)
qed

definition tagCount :: "string \<Rightarrow> ObservabilityEvent list \<Rightarrow> nat" where
  "tagCount k evs = length (filter (\<lambda>e. eventTag e = k) evs)"

lemma tagCount_simps [simp]:
  "tagCount k [] = 0" "tagCount k (e # evs) = (if eventTag e = k then 1 else 0) + tagCount k evs"
  "tagCount k (evs @ evs') = tagCount k evs + tagCount k evs'"
  by (simp_all add: tagCount_def)

lemma tagCount_pressure:
  "k \<noteq> ''poolPressure'' \<Longrightarrow> tagCount k (concat (map pressureEvent rs)) = 0"
  by (induction rs) (auto simp: pressureEvent_def split: prod.splits)

lemma endEvents_counts:
  assumes "case r of Inl err \<Rightarrow> \<exists>le. err = Lib le | Inr x \<Rightarrow> True"
  shows "tagCount ''taskStart'' (endEvents task n (Settled t r)) = 0 \<and>
    psCompleted (snd (submitEnds r s)) = psCompleted s + tagCount ''taskEnd'' (endEvents task n (Settled t r)) \<and>
    psCancelled (snd (submitEnds r s)) = psCancelled s + tagCount ''taskOrphan'' (endEvents task n (Settled t r)) \<and>
    psFailed (snd (submitEnds r s)) =
      psFailed s + (if isOk r then tagCount ''taskError'' (endEvents task n (Settled t r)) else 0) \<and>
    tagCount ''taskEnd'' (endEvents task n (Settled t r)) + tagCount ''taskError'' (endEvents task n (Settled t r)) = 1 \<and>
    (tagCount ''taskEnd'' (endEvents task n (Settled t r)) = 1 \<longleftrightarrow> isOk (fst (submitEnds r s)))"
proof -
  have D: "psCompleted (inFlightDec k x) = psCompleted x" "psCancelled (inFlightDec k x) = psCancelled x"
    "psFailed (inFlightDec k x) = psFailed x" for k x
    by (simp_all add: inFlightDec_def Let_def)
  show ?thesis using assms
    by (auto simp: endEvents_def submitEnds_def Let_def D orphanOf_def taskErrorOf_def decodeResult_def
        split: sum.splits RunOneResult.splits)
qed

text \<open>
  C37. Every submit whose envelope is built (and that asks for no negative number of retries) is reported
  once: it emits one \<open>taskStart\<close>, first, and when it settles exactly one of \<open>taskEnd\<close> and \<open>taskError\<close>,
  the former if and only if the caller gets a value. The \<open>completed\<close> and \<open>cancelled\<close> counters of the pool
  grow by the number of \<open>taskEnd\<close> and \<open>taskOrphan\<close> events; \<open>failed\<close> grows by the \<open>taskError\<close> of a failure
  that the leaf reports, and not for one that reaches the caller as a rejected dispatch. A submit that is
  refused with its envelope (two deadlines, or one that is too short) throws without any event.
\<close>

theorem submit_reported:
  assumes "0 \<le> nullish (sbRetries opts) (nullish (coRetries (poClient (plOpts pool))) 0)"
    and evs: "evs = runOneEvents pl path settlesAt jitter pool lastTopology rnd now fnSource args opts"
  shows "case runOneSource pl path settlesAt jitter pool now fnSource args opts of
      Inl e \<Rightarrow> evs = []
    | Inr outcome \<Rightarrow>
        hd evs = TaskStart (submitTask pool lastTopology (hashSource fnSource) rnd now) \<and>
        tagCount ''taskStart'' evs = 1 \<and>
        (case outcome of
           Never \<Rightarrow> tagCount ''taskEnd'' evs + tagCount ''taskError'' evs = 0
         | Settled t r \<Rightarrow>
             tagCount ''taskEnd'' evs + tagCount ''taskError'' evs = 1 \<and>
             (tagCount ''taskEnd'' evs = 1 \<longleftrightarrow> isOk (fst (submitEnds r s))) \<and>
             psCompleted (snd (submitEnds r s)) = psCompleted s + tagCount ''taskEnd'' evs \<and>
             psCancelled (snd (submitEnds r s)) = psCancelled s + tagCount ''taskOrphan'' evs \<and>
             psFailed (snd (submitEnds r s)) =
               psFailed s + (if isOk r then tagCount ''taskError'' evs else 0))"
proof (cases "callEnvelope now PoolFn opts")
  case (Inl e)
  then show ?thesis by (simp add: evs runOneSource_def runOneEvents_def)
next
  case (Inr envelope)
  let ?co = "poClient (plOpts pool)" and ?name = "targetName (runOneTarget pool)"
  let ?req = "\<lparr>crSpec = clientSpec ?co fnSource opts envelope (callStream now (sbCancel opts)), crArgs = args, crTaskSlot = Some 0\<rparr>"
  let ?dopts = "callDispatchOptions ?co opts envelope"
  let ?attempt = "\<lambda>k t. (settlesAt k t, snd (callRpc pl ?name (k # path) (runOne pl ?name (k # path) ?req)))"
  let ?task = "submitTask pool lastTopology (hashSource fnSource) rnd now"
  let ?retries = "retryCalls (plCpu pl) ?attempt jitter ?dopts 0 (nat (1 + nullish (doRetries ?dopts) 0)) now"
  obtain out where d: "snd (dispatchWithResilience (plCpu pl) ?attempt jitter ?dopts now) = out" by blast
  have src: "runOneSource pl path settlesAt jitter pool now fnSource args opts = Inr out"
    using Inr d by (simp add: runOneSource_def Let_def)
  have ev: "evs = [TaskStart ?task] @ concat (map pressureEvent ?retries) @ endEvents ?task (length ?retries) out"
    using Inr evs d by (simp add: runOneEvents_def Let_def)
  have ret: "0 \<le> nullish (doRetries ?dopts) 0" using assms(1) by (simp add: callDispatchOptions_def nullish_def)
  show ?thesis
  proof (cases out)
    case Never
    then show ?thesis by (simp add: src ev tagCount_pressure endEvents_def)
  next
    case (Settled t r)
    have lib: "case r of Inl err \<Rightarrow> \<exists>le. err = Lib le | Inr x \<Rightarrow> True"
      using ret dispatch_throws_Lib d Settled by (cases r) auto
    show ?thesis
      using endEvents_counts [OF lib, of ?task "length ?retries" t s]
      by (simp add: src ev tagCount_pressure Settled)
  qed
qed

lemma submit_reported_witness:
  "tagCount ''taskEnd'' (runOneEvents samplePlatform [] (\<lambda>_ _. None) (\<lambda>_. 1) samplePool None ''r'' 5 ''x => x'' []
     (noSubmitOptions\<lparr>sbCancel := Some (0, None)\<rparr>)) = 0"
  (is "tagCount _ (runOneEvents _ _ _ _ _ _ _ _ _ _ ?opts) = 0")
proof -
  obtain envelope where e: "callEnvelope 5 PoolFn ?opts = Inr envelope"
    by (simp add: callEnvelope_def noSubmitOptions_def buildEnvelope_def nullish_def Let_def)
  have r: "runOneSource samplePlatform [] (\<lambda>_ _. None) (\<lambda>_. 1) samplePool 5 ''x => x'' [] ?opts
      = Inr (Settled 5 (Inl (Lib (CancelledError None None))))"
    using e by (simp add: runOneSource_def Let_def dispatchWithResilience_def callDispatchOptions_def isCancelledAt_def
        noSubmitOptions_def samplePool_def samplePoolOptions_def sampleClient_def nullish_def numeral_eq_Suc)
  have "0 \<le> nullish (sbRetries ?opts) (nullish (coRetries (poClient (plOpts samplePool))) 0)"
    by (simp add: noSubmitOptions_def samplePool_def samplePoolOptions_def sampleClient_def nullish_def)
  from submit_reported [OF this refl, of samplePlatform "[]" "\<lambda>_ _. None" "\<lambda>_. 1" None "''r''" 5 "''x => x''" "[]" newPoolState] r
  show ?thesis by (auto simp: submitEnds_def Let_def)
qed

text \<open>
  What a hook does, it does once, and whether it throws makes no difference: neither to the dataset,
  which still gets its point, nor to the caller.
\<close>

definition quietEffect :: "('p, 'w) effect \<Rightarrow> ('p, 'w) effect" where
  "quietEffect f p w = (fst (f p w), None)"

definition quietHooks :: "'w Hooks \<Rightarrow> 'w Hooks" where
  "quietHooks h =
     \<lparr>onTaskStart = map_option quietEffect (onTaskStart h), onTaskEnd = map_option quietEffect (onTaskEnd h),
      onTaskError = map_option quietEffect (onTaskError h), onTaskOrphan = map_option quietEffect (onTaskOrphan h),
      onPoolPressure = map_option quietEffect (onPoolPressure h),
      onTopologyDecision = map_option quietEffect (onTopologyDecision h),
      onLruEviction = map_option quietEffect (onLruEviction h),
      onSchedulerEvent = map_option quietEffect (onSchedulerEvent h)\<rparr>"

lemma hook_errors_swallowed:
  "emitObservabilityEvent (Some ob) ev w =
   emitObservabilityEvent (Some (ob\<lparr>obHooks := map_option quietHooks (obHooks ob),
                                     obMetrics := map_option quietEffect (obMetrics ob)\<rparr>)) ev w"
  by (cases ev; cases "obHooks ob"; cases "obMetrics ob")
    (simp_all add: emitObservabilityEvent_def Let_def quietHooks_def callHook_def quietEffect_def
       writeAnalyticsEngine_def split: option.splits)

end
