(* ===== verification/Auth.thy ===== *)
theory Auth
  imports Serialize
begin

text \<open>
  The authentication recipes of \<open>src/api/auth.ts\<close>: the comparison of strings with and without the
  primitive of the platform, the bearer token and the HMAC over timestamp and body.

  Strings are sequences of code units below 256, which every header value is. The platform is a
  parameter: whether it has \<open>timingSafeEqual\<close>, the HMAC under the imported key, and how it reads a
  number; what the comparison leaks through its running time is not modelled.
\<close>

unbundle bit_operations_syntax

section \<open>Bytes and their encodings\<close>

type_synonym bytes = "8 word list"

text \<open>\<open>TextEncoder.encode\<close> below 256: one byte, or two from 128 on.\<close>

definition utf8Char :: "char \<Rightarrow> bytes" where
  "utf8Char c = (let n = of_char c :: nat in
     if n < 128 then [of_nat n] else [of_nat (192 + n div 64), of_nat (128 + n mod 64)])"

definition encodeUtf8 :: "string \<Rightarrow> bytes" where
  "encodeUtf8 s = concat (map utf8Char s)"

definition toHex :: "bytes \<Rightarrow> string" where
  "toHex bs = concat (map (\<lambda>b. let h = renderBase 16 (unat b) in if length h = 1 then CHR ''0'' # h else h) bs)"

definition base64Char :: "nat \<Rightarrow> char" where
  "base64Char n = ''ABCDEFGHIJKLMNOPQRSTUVWXYZabcdefghijklmnopqrstuvwxyz0123456789+/'' ! n"

text \<open>\<open>btoa\<close> on the binary string of the bytes.\<close>

fun toBase64 :: "bytes \<Rightarrow> string" where
  "toBase64 [] = []"
| "toBase64 [a] = (let n = unat a * 16 in [base64Char (n div 64), base64Char (n mod 64)] @ ''=='')"
| "toBase64 [a, b] = (let n = (unat a * 256 + unat b) * 4 in
     [base64Char (n div 4096), base64Char (n div 64 mod 64), base64Char (n mod 64)] @ ''='')"
| "toBase64 (a # b # c # bs) = (let n = (unat a * 256 + unat b) * 256 + unat c in
     [base64Char (n div 262144), base64Char (n div 4096 mod 64), base64Char (n div 64 mod 64), base64Char (n mod 64)] @
     toBase64 bs)"

section \<open>Comparison\<close>

text \<open>The loop over the code units on 32-bit integers, for strings of one length.\<close>

definition xorLoop :: "string \<Rightarrow> string \<Rightarrow> 32 word" where
  "xorLoop a b = fold (\<lambda>i mismatch. mismatch OR (of_char (a ! i) XOR of_char (b ! i))) [0..<length a] 0"

text \<open>\<open>native\<close>: the \<open>timingSafeEqual\<close> of the platform, if it has one.\<close>

definition constantTimeEqual :: "(bytes \<Rightarrow> bytes \<Rightarrow> bool) option \<Rightarrow> string \<Rightarrow> string \<Rightarrow> bool" where
  "constantTimeEqual native a b =
     (if length a \<noteq> length b then False
      else case native of
        Some tse \<Rightarrow>
          (let ab = encodeUtf8 a; bb = encodeUtf8 b in
           if length ab \<noteq> length bb then False else tse ab bb)
      | None \<Rightarrow> xorLoop a b = 0)"

section \<open>Requests and recipes\<close>

text \<open>Header names in lower case. The body comes in chunks; \<open>None\<close> is \<open>req.body === null\<close>.\<close>

record Request =
  rqMethod :: string
  rqHeaders :: "(string \<times> string) list"
  rqBody :: "bytes list option"

definition header :: "Request \<Rightarrow> string \<Rightarrow> string option" where
  "header req name = map_of (rqHeaders req) name"

definition bearerAuth :: "(bytes \<Rightarrow> bytes \<Rightarrow> bool) option \<Rightarrow> string \<Rightarrow> string + (Request \<Rightarrow> bool)" where
  "bearerAuth native secret =
     (if length secret < 16 then Inl ''bearerAuth: secret must be at least 16 characters''
      else Inr (\<lambda>req. constantTimeEqual native (nullish (header req ''authorization'') []) (''Bearer '' @ secret)))"

datatype Encoding = Hex | Base64

record HmacAuthOptions =
  haSecret :: string
  haSignatureHeader :: "string option"
  haTimestampHeader :: "string option"
  haTtlSeconds :: "rat option"
  haEncoding :: "Encoding option"

text \<open>
  \<open>hcSign key message\<close>: the HMAC; \<open>hcNumber\<close>: a finite \<open>Number(s)\<close>; \<open>hcShow\<close>: a number in a template;
  \<open>hcText\<close>: the UTF-8 bytes of the text of a body.
\<close>

record HmacPlatform =
  hcNative :: "(bytes \<Rightarrow> bytes \<Rightarrow> bool) option"
  hcSign :: "bytes \<Rightarrow> bytes \<Rightarrow> bytes"
  hcNumber :: "string \<Rightarrow> rat option"
  hcShow :: "rat \<Rightarrow> string"
  hcText :: "bytes \<Rightarrow> bytes"

definition signedBytes :: "HmacPlatform \<Rightarrow> rat \<Rightarrow> Request \<Rightarrow> bytes" where
  "signedBytes hp ts req = encodeUtf8 (hcShow hp ts @ [CHR 0x0A]) @ hcText hp (concat (nullish (rqBody req) []))"

definition encodeSignature :: "Encoding option \<Rightarrow> bytes \<Rightarrow> string" where
  "encodeSignature e sig = (if nullish e Hex = Hex then toHex sig else toBase64 sig)"

text \<open>\<open>now\<close> in milliseconds.\<close>

definition hmacAuth :: "HmacPlatform \<Rightarrow> HmacAuthOptions \<Rightarrow> string + (int \<Rightarrow> Request \<Rightarrow> bool)" where
  "hmacAuth hp opts =
     (if length (haSecret opts) < 32 then Inl ''hmacAuth: secret must be at least 32 characters''
      else Inr (\<lambda>now req.
        let provided = nullish (header req (nullish (haSignatureHeader opts) ''x-cfp-signature'')) [];
            tsRaw = nullish (header req (nullish (haTimestampHeader opts) ''x-cfp-timestamp'')) []
        in if provided = [] \<or> tsRaw = [] then False
           else case hcNumber hp tsRaw of
             None \<Rightarrow> False
           | Some ts \<Rightarrow>
               let ageSeconds = \<bar>of_int (now div 1000) - ts\<bar> in
               if nullish (haTtlSeconds opts) 300 < ageSeconds then False
               else constantTimeEqual (hcNative hp) provided
                 (encodeSignature (haEncoding opts)
                   (hcSign hp (encodeUtf8 (haSecret opts)) (signedBytes hp ts req)))))"

section \<open>Lemmas\<close>

lemma utf8Char_first:
  "utf8Char c @ xs = utf8Char d @ ys \<Longrightarrow> c = d \<and> xs = ys"
proof -
  have b: "of_char c < (256 :: nat)" "of_char d < (256 :: nat)" by (simp_all add: nat_of_char_less_256)
  assume *: "utf8Char c @ xs = utf8Char d @ ys"
  have w: "(of_nat m :: 8 word) = of_nat n \<longleftrightarrow> m = n" if "m < 256" "n < 256" for m n
    using that by (simp add: word_unat_eq_iff unsigned_of_nat take_bit_nat_eq_self)
  have "of_char c = (of_char d :: nat) \<and> xs = ys"
  proof (cases "of_char c < (128 :: nat)"; cases "of_char d < (128 :: nat)")
    assume 1: "\<not> of_char c < (128 :: nat)" and 2: "\<not> of_char d < (128 :: nat)"
    let ?m = "of_char c :: nat" and ?n = "of_char d :: nat"
    have lt: "192 + ?m div 64 < 256" "192 + ?n div 64 < 256" "128 + ?m mod 64 < 256" "128 + ?n mod 64 < 256"
      using b by linarith+
    have "192 + ?m div 64 = 192 + ?n div 64" "128 + ?m mod 64 = 128 + ?n mod 64" "xs = ys"
      using * 1 2 w [OF lt(1,2)] w [OF lt(3,4)] by (simp_all add: utf8Char_def Let_def del: of_nat_add)
    then show ?thesis by (metis add_left_cancel div_mult_mod_eq)
  next
    assume 1: "of_char c < (128 :: nat)" and 2: "\<not> of_char d < (128 :: nat)"
    have "of_char c = 192 + (of_char d :: nat) div 64"
      using * 1 2 b w [of "of_char c" "192 + of_char d div 64"] by (simp add: utf8Char_def Let_def del: of_nat_add)
    then show ?thesis using 1 by simp
  next
    assume 1: "\<not> of_char c < (128 :: nat)" and 2: "of_char d < (128 :: nat)"
    have "of_char d = 192 + (of_char c :: nat) div 64"
      using * 1 2 b w [of "192 + of_char c div 64" "of_char d"] by (simp add: utf8Char_def Let_def del: of_nat_add)
    then show ?thesis using 2 by simp
  next
    assume "of_char c < (128 :: nat)" "of_char d < (128 :: nat)"
    then show ?thesis using * w [of "of_char c" "of_char d"] b by (simp add: utf8Char_def Let_def)
  qed
  then show ?thesis by simp
qed

lemma encodeUtf8_inject: "encodeUtf8 a = encodeUtf8 b \<longleftrightarrow> a = b"
proof
  show "encodeUtf8 a = encodeUtf8 b \<Longrightarrow> a = b"
  proof (induction a arbitrary: b)
    case Nil
    then show ?case by (cases b) (auto simp: encodeUtf8_def utf8Char_def Let_def split: if_splits)
  next
    case (Cons c a)
    then obtain d b' where b: "b = d # b'"
      by (cases b) (auto simp: encodeUtf8_def utf8Char_def Let_def split: if_splits)
    have "utf8Char c @ encodeUtf8 a = utf8Char d @ encodeUtf8 b'"
      using Cons.prems by (simp add: encodeUtf8_def b)
    from utf8Char_first [OF this] Cons.IH [of b'] show ?case by (simp add: b)
  qed
qed simp

lemma xor_eq_0_word: "a XOR b = 0 \<longleftrightarrow> a = b" for a b :: "'a::len word"
  by (metis xor.right_neutral xor.assoc xor_self_eq)

lemma xorLoop_zero:
  assumes "length a = length b"
  shows "xorLoop a b = 0 \<longleftrightarrow> a = b"
proof -
  have loop: "fold (\<lambda>i m. m OR f i) xs m = 0 \<longleftrightarrow> m = 0 \<and> (\<forall>i\<in>set xs. f i = 0)" for f :: "nat \<Rightarrow> 32 word" and xs m
    by (induction xs arbitrary: m) (auto simp: or_eq_0_iff)
  have chars: "(of_char c :: 32 word) = of_char d \<longleftrightarrow> c = d" for c d
  proof -
    have small: "unat (of_nat n :: 32 word) = n" if "n < 2 ^ 32" for n
      using that by (simp add: unsigned_of_nat take_bit_nat_eq_self)
    have u: "unat (of_char x :: 32 word) = of_char x" for x
    proof -
      have lt: "of_char x < (2 ^ 32 :: nat)" by (rule less_trans [OF nat_of_char_less_256]) simp
      have "unat (of_char x :: 32 word) = unat (of_nat (of_char x) :: 32 word)" by (simp only: of_nat_of_char)
      also have "\<dots> = of_char x" by (rule small [OF lt])
      finally show ?thesis .
    qed
    have "c = d" if "(of_char c :: 32 word) = of_char d"
    proof -
      have "(of_char c :: nat) = of_char d"
        using arg_cong [OF that, of unat] by (simp only: u)
      then have "char_of (of_char c :: nat) = char_of (of_char d :: nat)" by (rule arg_cong)
      then show ?thesis by (simp only: char_of_char)
    qed
    then show ?thesis by blast
  qed
  have "xorLoop a b = 0 \<longleftrightarrow> (\<forall>i\<in>set [0..<length a]. a ! i = b ! i)"
    unfolding xorLoop_def loop xor_eq_0_word chars by blast
  then show ?thesis
    unfolding list_eq_iff_nth_eq [of a b] set_upt using assms by (simp add: Ball_def)
qed

text \<open>What the documentation of the platform says of its primitive.\<close>

definition nativeOk :: "(bytes \<Rightarrow> bytes \<Rightarrow> bool) option \<Rightarrow> bool" where
  "nativeOk native \<longleftrightarrow> (case native of None \<Rightarrow> True | Some tse \<Rightarrow> (\<forall>x y. length x = length y \<longrightarrow> tse x y = (x = y)))"

lemma constantTimeEqual_iff: "nativeOk native \<Longrightarrow> constantTimeEqual native a b \<longleftrightarrow> a = b"
  by (auto simp: constantTimeEqual_def nativeOk_def xorLoop_zero encodeUtf8_inject Let_def split: option.splits)

text \<open>A byte is two hexadecimal digits, so the texts of different signatures differ.\<close>

lemma hexByte:
  "(let h = renderBase 16 (unat b) in if length h = 1 then CHR ''0'' # h else h) =
     [digitChar (unat b div 16), digitChar (unat b mod 16)]" for b :: "8 word"
proof -
  have "unat b < 256" using unsigned_less [of b] by simp
  moreover have "renderBase 16 n = (if n < 16 then [digitChar n] else [digitChar (n div 16), digitChar (n mod 16)])"
    if "n < 256" for n
    using that by (subst renderBase.simps, subst renderBase.simps) auto
  moreover have "digitChar 0 = CHR ''0''" by code_simp
  ultimately show ?thesis by (simp add: Let_def)
qed

lemma toHex_inject: "toHex xs = toHex ys \<longleftrightarrow> xs = ys"
proof
  have cons: "toHex (b # bs) = digitChar (unat b div 16) # digitChar (unat b mod 16) # toHex bs" for b bs
    using hexByte [of b] by (simp add: toHex_def)
  show "toHex xs = toHex ys \<Longrightarrow> xs = ys"
  proof (induction xs arbitrary: ys)
    case Nil
    then show ?case by (cases ys) (simp_all add: cons toHex_def [of "[]"])
  next
    case (Cons b bs)
    then obtain c cs where ys: "ys = c # cs" by (cases ys) (simp_all add: cons toHex_def [of "[]"])
    have "unat b < 256" "unat c < 256" using unsigned_less [of b] unsigned_less [of c] by simp_all
    then have "unat b div 16 < 36" "unat c div 16 < 36" "unat b mod 16 < 36" "unat c mod 16 < 36" by linarith+
    then have "unat b div 16 = unat c div 16" "unat b mod 16 = unat c mod 16"
      using Cons.prems by (simp_all add: ys cons) (metis digitVal_digitChar)+
    then have "unat b = unat c" by (metis div_mult_mod_eq)
    then show ?case using Cons by (simp add: ys cons word_unat_eq_iff)
  qed
qed simp

section \<open>Properties\<close>

text \<open>
  A recipe refuses a short secret when it is built. The bearer recipe then accepts exactly the header
  \<open>Bearer <secret>\<close>, with or without the primitive of the platform.
\<close>

theorem bearer_exact:
  assumes "nativeOk native"
  shows "(case bearerAuth native secret of
      Inl msg \<Rightarrow> length secret < 16
    | Inr accepts \<Rightarrow> 16 \<le> length secret \<and>
        accepts = (\<lambda>req. header req ''authorization'' = Some (''Bearer '' @ secret)))"
  using assms
  by (auto simp: bearerAuth_def constantTimeEqual_iff fun_eq_iff nullish_def split: option.splits)

theorem bearer_exact_witness:
  "(case bearerAuth None ''0123456789abcdef'' of
      Inl msg \<Rightarrow> False
    | Inr accepts \<Rightarrow> accepts \<lparr>rqMethod = ''POST'', rqHeaders = [(''authorization'', ''Bearer 0123456789abcdef'')], rqBody = None\<rparr>)"
proof -
  have "nativeOk None" by (simp add: nativeOk_def)
  from bearer_exact [OF this, of "''0123456789abcdef''"] show ?thesis
    by (auto simp: header_def split: sum.splits)
qed

text \<open>
  The HMAC recipe accepts exactly the requests whose timestamp is a finite number at most the time to
  live away from now, in either direction, and whose signature header is the encoded HMAC of that
  timestamp and the body.
\<close>

theorem hmac_exact:
  assumes "nativeOk (hcNative hp)" "hmacAuth hp opts = Inr verify"
  shows "verify now req \<longleftrightarrow>
    (\<exists>tsRaw ts sig. header req (nullish (haTimestampHeader opts) ''x-cfp-timestamp'') = Some tsRaw \<and> tsRaw \<noteq> [] \<and>
      hcNumber hp tsRaw = Some ts \<and> \<bar>of_int (now div 1000) - ts\<bar> \<le> nullish (haTtlSeconds opts) 300 \<and>
      header req (nullish (haSignatureHeader opts) ''x-cfp-signature'') = Some sig \<and> sig \<noteq> [] \<and>
      sig = encodeSignature (haEncoding opts) (hcSign hp (encodeUtf8 (haSecret opts)) (signedBytes hp ts req)))"
proof -
  have v: "verify now req = (case hmacAuth hp opts of Inr f \<Rightarrow> f now req | Inl e \<Rightarrow> False)"
    by (simp add: assms(2))
  have len: "\<not> length (haSecret opts) < 32" using assms(2) by (auto simp: hmacAuth_def)
  show ?thesis unfolding v using len
    by (cases "header req (nullish (haTimestampHeader opts) ''x-cfp-timestamp'')";
        cases "header req (nullish (haSignatureHeader opts) ''x-cfp-signature'')")
      (auto simp: hmacAuth_def Let_def constantTimeEqual_iff [OF assms(1)] split: option.splits)
qed

text \<open>A platform for the example: the signature is the last byte of the message.\<close>

definition samplePlatformHmac :: HmacPlatform where
  "samplePlatformHmac = \<lparr>hcNative = None, hcSign = (\<lambda>key msg. drop (length msg - 1) msg),
     hcNumber = (\<lambda>s. if s = ''100'' then Some 100 else None), hcShow = (\<lambda>_. ''100''), hcText = (\<lambda>b. b)\<rparr>"

definition sampleHmac :: HmacAuthOptions where
  "sampleHmac = \<lparr>haSecret = ''0123456789abcdef0123456789abcdef'', haSignatureHeader = None,
     haTimestampHeader = None, haTtlSeconds = Some 60, haEncoding = None\<rparr>"

theorem hmac_exact_witness:
  "\<exists>verify. hmacAuth samplePlatformHmac sampleHmac = Inr verify \<and>
     verify 150000 \<lparr>rqMethod = ''POST'', rqHeaders = [(''x-cfp-timestamp'', ''100''), (''x-cfp-signature'', ''07'')],
       rqBody = Some [[1], [2, 7]]\<rparr>"
proof -
  obtain verify where v: "hmacAuth samplePlatformHmac sampleHmac = Inr verify"
    by (simp add: hmacAuth_def sampleHmac_def)
  have n: "nativeOk (hcNative samplePlatformHmac)" by (simp add: nativeOk_def samplePlatformHmac_def)
  have h: "toHex [7] = ''07''" by code_simp
  show ?thesis using v hmac_exact [OF n v]
    by (auto simp: header_def sampleHmac_def samplePlatformHmac_def signedBytes_def encodeSignature_def h)
qed

end
