(* ===== verification/SubmitCode.thy ===== *)
theory SubmitCode
  imports Pool Auth
begin

text \<open>
  The HTTP endpoint for submitted code: the handler with its gates (\<open>src/api/submit-code-handler.ts\<close>) and
  the facade \<open>vm\<close> that builds its pool and policy (\<open>src/api/vm.ts\<close>).

  An answer comes with the list of the gates that the request has passed through. The callbacks of a
  policy and the parser and formatter of an application are functions of the request; the platform gives
  \<open>Number\<close>, \<open>JSON.parse\<close> after decoding, and what \<open>submitSource\<close> of a pool settles with.
\<close>

section \<open>Policies and submissions\<close>

definition DEFAULT_MAX_BYTES :: int where "DEFAULT_MAX_BYTES = 65536"

text \<open>\<open>pcAuth = None\<close> is the kind \<open>public\<close>.\<close>

record Policy =
  pcAuth :: "(Request \<Rightarrow> thrown + bool) option"
  pcOnSubmit :: "(Request \<Rightarrow> thrown option) option"
  pcAllowBindings :: "string list option"
  pcMaxBytes :: "int option"
  pcMaxFnSourceBytes :: "int option"

record Submission =
  suFn :: jsval
  suArgs :: "jsval list option"
  suOptions :: "jsval option"

section \<open>Responses\<close>

datatype ErrorBody = FullError WireError | Redacted string string string nat

datatype Response = TextResponse nat string | ErrorResponse nat ErrorBody | ValueResponse rval

fun responseStatus :: "Response \<Rightarrow> nat" where
  "responseStatus (TextResponse st _) = st"
| "responseStatus (ErrorResponse st _) = st"
| "responseStatus (ValueResponse _) = 200"

definition jsonError :: "stackOf \<Rightarrow> thrown \<Rightarrow> nat \<Rightarrow> bool \<Rightarrow> bool \<Rightarrow> Response" where
  "jsonError stk err fallbackStatus forceStatus sanitize =
     (let wire = errorToWire stk err;
          st = (if forceStatus then fallbackStatus
                else if wHttpStatus wire \<noteq> 0 then wHttpStatus wire else fallbackStatus)
      in ErrorResponse st
           (if sanitize then Redacted (wName wire) (wMessage wire) (wCode wire) (wHttpStatus wire)
            else FullError wire))"

fun statusOfError :: "thrown \<Rightarrow> nat" where
  "statusOfError (Lib e) = (if 100 \<le> httpStatus e \<and> httpStatus e < 600 then httpStatus e else 500)"
| "statusOfError _ = 500"

section \<open>Reading the body\<close>

text \<open>The chunks that are kept, and whether the stream was read to its end.\<close>

fun readLoop :: "int \<Rightarrow> nat \<Rightarrow> bytes list \<Rightarrow> bytes list \<Rightarrow> bytes list \<times> bool" where
  "readLoop maxBytes read parts [] = (parts, True)"
| "readLoop maxBytes read parts (v # vs) =
     (let read' = read + length v in
      if maxBytes < int read' then (parts, False)
      else readLoop maxBytes read' (parts @ [v]) vs)"

definition readBodyBounded :: "Request \<Rightarrow> int \<Rightarrow> bytes option" where
  "readBodyBounded req maxBytes =
     (case rqBody req of
        None \<Rightarrow> Some []
      | Some stream \<Rightarrow>
          (case readLoop maxBytes 0 [] stream of
             (parts, True) \<Rightarrow> Some (concat parts)
           | (_, False) \<Rightarrow> None))"

section \<open>The handler\<close>

record HttpPlatform =
  hpEnv :: PoolEnv
  hpNumber :: "string \<Rightarrow> rat option"
  hpStack :: stackOf
  hpParse :: "bytes \<Rightarrow> thrown + jsval"
  hpSubmit :: "Pool \<Rightarrow> string \<Rightarrow> jsval list \<Rightarrow> jsval option \<Rightarrow> thrown + rval"

record SubmitCodeOptions =
  scPool :: Pool
  scPolicy :: Policy
  scParse :: "(Request \<Rightarrow> thrown + Submission) option"
  scFormat :: "rval \<Rightarrow> thrown + Response"

datatype Gate = CalledAuth | CalledHook | CalledParse | ReadBody | Ran Pool string

definition maxBytesOf :: "Policy \<Rightarrow> int" where
  "maxBytesOf policy = nullish (pcMaxBytes policy) DEFAULT_MAX_BYTES"

definition maxFnSrcOf :: "Policy \<Rightarrow> int" where
  "maxFnSrcOf policy = nullish (pcMaxFnSourceBytes policy) DEFAULT_MAX_BYTES"

definition tooLarge :: "int \<Rightarrow> Response" where
  "tooLarge maxBytes = TextResponse 413 (''Body exceeds '' @ showInt maxBytes @ '' bytes'')"

text \<open>The body of the default parser. A parsed body without fields has \<open>fn\<close> undefined; \<open>null\<close> throws.\<close>

definition submissionOf :: "HttpPlatform \<Rightarrow> jsval \<Rightarrow> Response + Submission" where
  "submissionOf hp body =
     (case body of
        JNull \<Rightarrow> Inl (jsonError (hpStack hp) (PlainError ''TypeError'' (''Cannot read properties of null (reading '' @
                   [CHR 0x27] @ ''fn'' @ [CHR 0x27] @ '')'') None) 400 True False)
      | _ \<Rightarrow>
          (let fs = (case body of JObj fs \<Rightarrow> fs | _ \<Rightarrow> []) in
           case map_of fs ''fn'' of
             Some (JStr fn) \<Rightarrow>
               Inr \<lparr>suFn = JStr fn,
                    suArgs = Some (case map_of fs ''args'' of Some (JArr vs) \<Rightarrow> vs | _ \<Rightarrow> []),
                    suOptions = map_of fs ''options''\<rparr>
           | _ \<Rightarrow> Inl (jsonError (hpStack hp) (PlainError ''Error'' ''body.fn must be a string'' None) 400 False False)))"

definition parseRequest :: "HttpPlatform \<Rightarrow> SubmitCodeOptions \<Rightarrow> Request \<Rightarrow> Gate list \<times> (Response + Submission)" where
  "parseRequest hp opts req =
     (case scParse opts of
        Some p \<Rightarrow>
          ([CalledParse], case p req of Inl e \<Rightarrow> Inl (jsonError (hpStack hp) e 400 True False) | Inr sub \<Rightarrow> Inr sub)
      | None \<Rightarrow>
          ([ReadBody],
           case readBodyBounded req (maxBytesOf (scPolicy opts)) of
             None \<Rightarrow> Inl (tooLarge (maxBytesOf (scPolicy opts)))
           | Some text \<Rightarrow>
               (case hpParse hp text of Inl e \<Rightarrow> Inl (jsonError (hpStack hp) e 400 True False) | Inr body \<Rightarrow> submissionOf hp body)))"

text \<open>The source size gate, the restricted pool and the run. \<open>Inl\<close>: the promise of the handler rejects.\<close>

definition runSubmission :: "HttpPlatform \<Rightarrow> SubmitCodeOptions \<Rightarrow> Submission \<Rightarrow> Gate list \<times> (thrown + Response)" where
  "runSubmission hp opts sub =
     (let policy = scPolicy opts; maxFnSrc = maxFnSrcOf policy in
      case suFn sub of
        JStr fn \<Rightarrow>
          if maxFnSrc < int (length fn) then
            ([], Inr (jsonError (hpStack hp) (PlainError ''Error'' (''fn must be a string '' @ [CHR 0xE2, CHR 0x89, CHR 0xA4] @ '' '' @
                        showInt maxFnSrc @ '' bytes'') None) 400 True False))
          else (case restrictForSubmittedCode (hpEnv hp) (scPool opts) (nullish (pcAllowBindings policy) []) of
              Inl e \<Rightarrow> ([], Inl (Lib e))
            | Inr restricted \<Rightarrow>
                ([Ran restricted fn],
                 case bindE (hpSubmit hp restricted fn (nullish (suArgs sub) []) (suOptions sub)) (scFormat opts) of
                   Inr response \<Rightarrow> Inr response
                 | Inl err \<Rightarrow> Inr (jsonError (hpStack hp) err (statusOfError err) False (pcAuth policy = None))))
      | _ \<Rightarrow>
          ([], Inr (jsonError (hpStack hp) (PlainError ''Error'' (''fn must be a string '' @ [CHR 0xE2, CHR 0x89, CHR 0xA4] @ '' '' @
                      showInt maxFnSrc @ '' bytes'') None) 400 True False)))"

definition authGate :: "HttpPlatform \<Rightarrow> Policy \<Rightarrow> Request \<Rightarrow> Gate list \<times> Response option" where
  "authGate hp policy req =
     (case pcAuth policy of
        None \<Rightarrow> ([], None)
      | Some auth \<Rightarrow>
          ([CalledAuth],
           case auth req of
             Inl err \<Rightarrow> Some (jsonError (hpStack hp) err 401 False False)
           | Inr authed \<Rightarrow> if authed then None else Some (TextResponse 401 ''Unauthorized'')))"

definition hookGate :: "HttpPlatform \<Rightarrow> Policy \<Rightarrow> Request \<Rightarrow> Gate list \<times> Response option" where
  "hookGate hp policy req =
     (case pcOnSubmit policy of
        None \<Rightarrow> ([], None)
      | Some hook \<Rightarrow>
          ([CalledHook], case hook req of Some err \<Rightarrow> Some (jsonError (hpStack hp) err 429 True False) | None \<Rightarrow> None))"

definition declaredTooLarge :: "HttpPlatform \<Rightarrow> Policy \<Rightarrow> Request \<Rightarrow> bool" where
  "declaredTooLarge hp policy req =
     (case header req ''content-length'' of
        None \<Rightarrow> False
      | Some declared \<Rightarrow>
          (case hpNumber hp declared of None \<Rightarrow> False | Some n \<Rightarrow> of_int (maxBytesOf policy) < n))"

definition handleSubmission :: "HttpPlatform \<Rightarrow> SubmitCodeOptions \<Rightarrow> Request \<Rightarrow> Gate list \<times> (thrown + Response)" where
  "handleSubmission hp opts req =
     (if rqMethod req \<noteq> ''POST'' then ([], Inr (TextResponse 405 ''Method not allowed''))
      else case authGate hp (scPolicy opts) req of
        (g1, Some response) \<Rightarrow> (g1, Inr response)
      | (g1, None) \<Rightarrow>
          (case hookGate hp (scPolicy opts) req of
             (g2, Some response) \<Rightarrow> (g1 @ g2, Inr response)
           | (g2, None) \<Rightarrow>
               if declaredTooLarge hp (scPolicy opts) req
               then (g1 @ g2, Inr (tooLarge (maxBytesOf (scPolicy opts))))
               else case parseRequest hp opts req of
                 (g3, Inl response) \<Rightarrow> (g1 @ g2 @ g3, Inr response)
               | (g3, Inr sub) \<Rightarrow> (case runSubmission hp opts sub of (g4, r) \<Rightarrow> (g1 @ g2 @ g3 @ g4, r))))"

text \<open>
  The construction: \<open>publicWarned\<close> is the flag of the module. The result says whether the warning is logged
  and gives the flag after it.
\<close>

definition submitCodeHandler :: "bool \<Rightarrow> Policy option \<Rightarrow> ParallelError + (bool \<times> bool)" where
  "submitCodeHandler publicWarned policy =
     (case policy of
        None \<Rightarrow> Inl (PolicyRequiredError (''submitCodeHandler requires `policy`. Use `policy: { kind: '' @ [CHR 0x22] @
          ''public'' @ [CHR 0x22] @ '' }` to accept anonymous submissions (with a one-time warning) or `policy: { kind: '' @
          [CHR 0x22] @ ''auth'' @ [CHR 0x22] @ '', auth: (req) => ... }` for authenticated submissions.'') None)
      | Some p \<Rightarrow> Inr (pcAuth p = None \<and> \<not> publicWarned, publicWarned \<or> pcAuth p = None))"

section \<open>The facade\<close>

record VMOptions =
  vmSelf :: PoolOptions
  vmPolicy :: "Policy option"
  vmAuth :: "(Request \<Rightarrow> thrown + bool) option"
  vmAllowBindings :: "string list option"
  vmMaxBytes :: "int option"
  vmPoolOptions :: "PoolOptions option"

definition vmPolicyOf :: "VMOptions \<Rightarrow> Policy option" where
  "vmPolicyOf opts =
     (case vmPolicy opts of
        Some p \<Rightarrow> Some p
      | None \<Rightarrow>
          (case vmAuth opts of
             Some auth \<Rightarrow> Some \<lparr>pcAuth = Some auth, pcOnSubmit = None, pcAllowBindings = vmAllowBindings opts,
                              pcMaxBytes = vmMaxBytes opts, pcMaxFnSourceBytes = None\<rparr>
           | None \<Rightarrow> None))"

text \<open>A new handle: its options and the flag \<open>publicWarned\<close> afterwards.\<close>

definition vm :: "PoolEnv \<Rightarrow> bool \<Rightarrow> (rval \<Rightarrow> thrown + Response) \<Rightarrow> VMOptions \<Rightarrow>
    ParallelError + (SubmitCodeOptions \<times> bool)" where
  "vm env publicWarned format opts =
     bindE (newPool env (nullish (vmPoolOptions opts) (vmSelf opts)))
       (\<lambda>pool. bindE (submitCodeHandler publicWarned (vmPolicyOf opts))
          (\<lambda>(warn, warned). Inr (\<lparr>scPool = pool, scPolicy = the (vmPolicyOf opts), scParse = None, scFormat = format\<rparr>, warned)))"

text \<open>\<open>Parallel.VM.fetch\<close>: the handle is built for every request.\<close>

definition vmFetch :: "HttpPlatform \<Rightarrow> bool \<Rightarrow> (rval \<Rightarrow> thrown + Response) \<Rightarrow> VMOptions option \<Rightarrow> Request \<Rightarrow>
    Gate list \<times> (thrown + Response)" where
  "vmFetch hp publicWarned format opts req =
     (case opts of
        None \<Rightarrow> ([], Inl (PlainError ''Error'' ''Parallel.VM subclass must set `static opts`'' None))
      | Some o' \<Rightarrow>
          (case vm (hpEnv hp) publicWarned format o' of
             Inl e \<Rightarrow> ([], Inl (Lib e))
           | Inr (handler, warned) \<Rightarrow> handleSubmission hp handler req))"

section \<open>Lemmas\<close>

lemma readLoop_bounded:
  "readLoop m read parts stream = (kept, ended) \<Longrightarrow> read = length (concat parts) \<Longrightarrow> int read \<le> max 0 m \<Longrightarrow>
     int (length (concat kept)) \<le> max 0 m \<and>
     (if ended then kept = parts @ stream else m < int (length (concat (parts @ stream))))"
proof (induction m read parts stream rule: readLoop.induct)
  case (2 m read parts v vs)
  show ?case
  proof (cases "m < int (read + length v)")
    case True
    then show ?thesis using 2 by auto
  next
    case False
    then show ?thesis using 2 by (auto simp: Let_def)
  qed
qed auto

lemma readBodyBounded_exact:
  "readBodyBounded req m =
     (let body = concat (nullish (rqBody req) []) in
      if int (length body) \<le> max 0 m \<and> (0 \<le> m \<or> nullish (rqBody req) [] = []) then Some body else None)"
proof (cases "rqBody req")
  case (Some stream)
  obtain kept ended where r: "readLoop m 0 [] stream = (kept, ended)" by fastforce
  have "stream \<noteq> [] \<Longrightarrow> m < 0 \<Longrightarrow> readLoop m 0 [] stream = ([], False)"
    by (cases stream) (auto simp: Let_def)
  then show ?thesis
    using readLoop_bounded [OF r] r Some
    by (cases ended; cases "m < 0"; cases "stream = []") (auto simp: readBodyBounded_def Let_def)
qed (simp add: readBodyBounded_def)

lemma httpStatus_range: "400 \<le> httpStatus e \<and> httpStatus e < 600"
  by (cases e) simp_all

lemma wHttpStatus_lib: "wHttpStatus (errorToWire stk (Lib e)) = httpStatus e"
  by (cases e) (simp_all add: wireOf_def)

text \<open>A restricted pool can always be built: its bindings are among those of a pool that was.\<close>

lemma restrict_total:
  assumes "newPool env opts = Inr pool"
  shows "\<exists>p. restrictForSubmittedCode env pool allow = Inr p"
proof -
  have pool: "peLoader env" "peCoordinator env" "assertNoLibraryInternalBindings (coBindings (poClient opts)) = None"
    "plOpts pool = opts"
    using assms by (auto simp: newPool_def Let_def split: if_splits option.splits)
  have "find isLibraryInternalKey (keys (pickBindings (nullish (coBindings (poClient opts)) []) allow)) = None"
    using pool(3) pickBindings_keys [of "nullish (coBindings (poClient opts)) []" allow]
    by (auto simp: assertNoLibraryInternalBindings_def find_None_iff split: option.splits)
      (metis fst_conv image_eqI imageE subsetD)
  then have "assertNoLibraryInternalBindings
      (Some (pickBindings (nullish (coBindings (poClient opts)) []) allow)) = None"
    by (simp add: assertNoLibraryInternalBindings_def)
  then show ?thesis using pool
    by (simp add: restrictForSubmittedCode_def newPool_def restrictedOptions_def Let_def)
qed

section \<open>Properties\<close>

lemma gates_passed:
  assumes "handleSubmission hp opts req = (gates, r)"
  shows "gates = (if Ran p src \<in> set gates
      then (if pcAuth (scPolicy opts) = None then [] else [CalledAuth]) @
        (if pcOnSubmit (scPolicy opts) = None then [] else [CalledHook]) @
        [if scParse opts = None then ReadBody else CalledParse, Ran p src] else gates) \<and>
    (if Ran p src \<in> set gates then
       rqMethod req = ''POST'' \<and>
       (case pcAuth (scPolicy opts) of None \<Rightarrow> True | Some auth \<Rightarrow> auth req = Inr True) \<and>
       (case pcOnSubmit (scPolicy opts) of None \<Rightarrow> True | Some hook \<Rightarrow> hook req = None) \<and>
       \<not> declaredTooLarge hp (scPolicy opts) req \<and>
       (if scParse opts = None
        then int (length (concat (nullish (rqBody req) []))) \<le> max 0 (maxBytesOf (scPolicy opts)) else True) \<and>
       int (length src) \<le> maxFnSrcOf (scPolicy opts) \<and>
       restrictForSubmittedCode (hpEnv hp) (scPool opts) (nullish (pcAllowBindings (scPolicy opts)) []) = Inr p
     else True)"
proof (cases "Ran p src \<in> set gates")
  case True
  obtain g1 a where g1: "authGate hp (scPolicy opts) req = (g1, a)" by fastforce
  obtain g2 b where g2: "hookGate hp (scPolicy opts) req = (g2, b)" by fastforce
  obtain g3 c where g3: "parseRequest hp opts req = (g3, c)" by fastforce
  have no: "Ran p src \<notin> set g1" "Ran p src \<notin> set g2" "Ran p src \<notin> set g3"
    using g1 g2 g3 by (auto simp: authGate_def hookGate_def parseRequest_def split: option.splits)
  have 1: "rqMethod req = ''POST''" "a = None" "b = None" "\<not> declaredTooLarge hp (scPolicy opts) req"
    using assms True no by (auto simp: handleSubmission_def g1 g2 g3 split: if_splits option.splits sum.splits)
  obtain sub where sub: "c = Inr sub"
    using assms True no 1 by (cases c) (auto simp: handleSubmission_def g1 g2 g3)
  obtain g4 where g4: "runSubmission hp opts sub = (g4, r)" and gates: "gates = g1 @ g2 @ g3 @ g4"
    using assms 1 sub by (auto simp: handleSubmission_def g1 g2 g3 split: prod.splits)
  have run: "g4 = [Ran p src]" "int (length src) \<le> maxFnSrcOf (scPolicy opts)"
    "restrictForSubmittedCode (hpEnv hp) (scPool opts) (nullish (pcAllowBindings (scPolicy opts)) []) = Inr p"
    using g4 gates True no
    by (auto simp: runSubmission_def Let_def split: jsval.splits if_splits sum.splits)
  have auth: "g1 = (if pcAuth (scPolicy opts) = None then [] else [CalledAuth])"
    "case pcAuth (scPolicy opts) of None \<Rightarrow> True | Some auth \<Rightarrow> auth req = Inr True"
    using g1 1(2) by (auto simp: authGate_def split: option.splits sum.splits if_splits)
  have hook: "g2 = (if pcOnSubmit (scPolicy opts) = None then [] else [CalledHook])"
    "case pcOnSubmit (scPolicy opts) of None \<Rightarrow> True | Some hook \<Rightarrow> hook req = None"
    using g2 1(3) by (auto simp: hookGate_def split: option.splits)
  have parse: "g3 = [if scParse opts = None then ReadBody else CalledParse]"
    "if scParse opts = None
     then int (length (concat (nullish (rqBody req) []))) \<le> max 0 (maxBytesOf (scPolicy opts)) else True"
    using g3 sub by (auto simp: parseRequest_def readBodyBounded_exact Let_def split: option.splits if_splits)
  show ?thesis using True auth hook parse run 1 by (simp add: gates)
qed simp

text \<open>A request that is served: the parser of the application returns a source, the formatter accepts it.\<close>

text \<open>
  C30. Nothing runs unless every gate was passed: the request is a POST, \<open>auth\<close> answered true, the rate
  limit let it through, neither the declared nor (with the default parser) the real size of the body
  exceeds the limit, the source is short enough, and the pool is the restriction of the handler's pool to
  the bindings of the policy. The gates are passed in this order, and at most one thing runs.
\<close>

theorem submit_code_gates:
  assumes "handleSubmission hp opts req = (gates, r)"
  shows "gates = (if Ran p src \<in> set gates
      then (if pcAuth (scPolicy opts) = None then [] else [CalledAuth]) @
        (if pcOnSubmit (scPolicy opts) = None then [] else [CalledHook]) @
        [if scParse opts = None then ReadBody else CalledParse, Ran p src] else gates) \<and>
    (if Ran p src \<in> set gates then
       rqMethod req = ''POST'' \<and>
       (case pcAuth (scPolicy opts) of None \<Rightarrow> True | Some auth \<Rightarrow> auth req = Inr True) \<and>
       (case pcOnSubmit (scPolicy opts) of None \<Rightarrow> True | Some hook \<Rightarrow> hook req = None) \<and>
       \<not> declaredTooLarge hp (scPolicy opts) req \<and>
       (if scParse opts = None
        then int (length (concat (nullish (rqBody req) []))) \<le> max 0 (maxBytesOf (scPolicy opts)) else True) \<and>
       int (length src) \<le> maxFnSrcOf (scPolicy opts) \<and>
       restrictForSubmittedCode (hpEnv hp) (scPool opts) (nullish (pcAllowBindings (scPolicy opts)) []) = Inr p
     else True)"
  using assms by (rule gates_passed)

definition sampleHandler :: SubmitCodeOptions where
  "sampleHandler = \<lparr>scPool = samplePool,
     scPolicy = \<lparr>pcAuth = Some (\<lambda>req. Inr (header req ''authorization'' = Some ''Bearer 0123456789abcdef'')),
       pcOnSubmit = None, pcAllowBindings = Some [''KV''], pcMaxBytes = Some 4, pcMaxFnSourceBytes = Some 6\<rparr>,
     scParse = None, scFormat = (\<lambda>v. Inr (ValueResponse v))\<rparr>"

definition sampleHttp :: HttpPlatform where
  "sampleHttp = \<lparr>hpEnv = \<lparr>peLoader = True, peCoordinator = True\<rparr>, hpNumber = (\<lambda>_. None), hpStack = (\<lambda>_. None),
     hpParse = (\<lambda>text. if text = [1, 2, 3] then Inr (JObj [(''fn'', JStr ''x => x'')]) else Inr JNull),
     hpSubmit = (\<lambda>_ _ _ _. Inr (RNumber 3))\<rparr>"

definition sampleRequest :: "bytes list \<Rightarrow> Request" where
  "sampleRequest body = \<lparr>rqMethod = ''POST'', rqHeaders = [(''authorization'', ''Bearer 0123456789abcdef'')],
     rqBody = Some body\<rparr>"

lemma sample_served:
  "\<exists>p. handleSubmission sampleHttp sampleHandler (sampleRequest [[1, 2], [3]]) =
     ([CalledAuth, ReadBody, Ran p ''x => x''], Inr (ValueResponse (RNumber 3)))"
proof -
  have "newPool \<lparr>peLoader = True, peCoordinator = True\<rparr> samplePoolOptions \<noteq> Inl e" for e
    by (simp add: newPool_def Let_def samplePoolOptions_def sampleClient_def assertNoLibraryInternalBindings_def)
      code_simp
  then obtain p0 where p0: "newPool \<lparr>peLoader = True, peCoordinator = True\<rparr> samplePoolOptions = Inr p0"
    by (cases "newPool \<lparr>peLoader = True, peCoordinator = True\<rparr> samplePoolOptions") auto
  have same: "plOpts p0 = plOpts samplePool"
    using p0 by (auto simp: newPool_def Let_def samplePool_def split: if_splits option.splits)
  obtain p where "restrictForSubmittedCode \<lparr>peLoader = True, peCoordinator = True\<rparr> p0 [''KV''] = Inr p"
    using restrict_total [OF p0] by blast
  then have "restrictForSubmittedCode \<lparr>peLoader = True, peCoordinator = True\<rparr> samplePool [''KV''] = Inr p"
    by (simp add: restrictForSubmittedCode_def same)
  then show ?thesis
    by (simp add: handleSubmission_def sampleHandler_def sampleHttp_def sampleRequest_def authGate_def hookGate_def
        declaredTooLarge_def header_def parseRequest_def readBodyBounded_def submissionOf_def runSubmission_def
        maxFnSrcOf_def maxBytesOf_def Let_def)
qed

theorem submit_code_gates_witness:
  "\<exists>p r. handleSubmission sampleHttp sampleHandler (sampleRequest [[1, 2], [3]]) =
     ([CalledAuth, ReadBody, Ran p ''x => x''], r) \<and>
     restrictForSubmittedCode \<lparr>peLoader = True, peCoordinator = True\<rparr> samplePool [''KV''] = Inr p"
proof -
  obtain p r where h: "handleSubmission sampleHttp sampleHandler (sampleRequest [[1, 2], [3]]) =
     ([CalledAuth, ReadBody, Ran p ''x => x''], r)"
    using sample_served by blast
  from submit_code_gates [OF h, of p "''x => x''"] h show ?thesis
    by (auto simp: sampleHttp_def sampleHandler_def)
qed

text \<open>
  The fallback status of an error response is dead unless it is forced: every error has a status of
  its own between 400 and 599. So an \<open>auth\<close> callback that throws a plain error and a body whose \<open>fn\<close> is
  no string are answered with 500, not with the 401 and 400 that the handler asks for.
\<close>

theorem submit_code_status:
  "responseStatus (jsonError (hpStack hp) err fallback False s) = wHttpStatus (errorToWire (hpStack hp) err) \<and>
   400 \<le> responseStatus (jsonError (hpStack hp) err fallback False s) \<and> responseStatus (jsonError (hpStack hp) err fallback False s) < 600 \<and>
   statusOfError err = responseStatus (jsonError (hpStack hp) err fallback False s) \<and>
   map_option responseStatus (snd (authGate hp \<lparr>pcAuth = Some (\<lambda>_. Inl (PlainError n m st)), pcOnSubmit = hook,
     pcAllowBindings = allow, pcMaxBytes = mb, pcMaxFnSourceBytes = mf\<rparr> req)) = Some 500 \<and>
   (case submissionOf hp (JObj [(''fn'', JNum i)]) of Inl response \<Rightarrow> responseStatus response = 500 | Inr sub \<Rightarrow> False)"
proof -
  have "wHttpStatus (errorToWire (hpStack hp) err) = statusOfError err \<and> 400 \<le> statusOfError err \<and> statusOfError err < 600"
  proof (cases err)
    case (Lib e)
    then show ?thesis using httpStatus_range [of e] wHttpStatus_lib [of "hpStack hp" e] by simp
  qed simp_all
  then show ?thesis by (auto simp: jsonError_def Let_def authGate_def submissionOf_def)
qed

text \<open>
  A handler whose pool was built never rejects: every failure is a response. For a public policy the
  response to a failed run carries neither stack nor cause.
\<close>

lemma handler_answers:
  assumes "newPool (hpEnv hp) popts = Inr (scPool opts)"
  shows "\<exists>response. snd (handleSubmission hp opts req) = Inr response"
proof -
  obtain p where "restrictForSubmittedCode (hpEnv hp) (scPool opts) (nullish (pcAllowBindings (scPolicy opts)) []) = Inr p"
    using restrict_total [OF assms] by blast
  then have "\<exists>response. snd (runSubmission hp opts sub) = Inr response" for sub
    by (auto simp: runSubmission_def Let_def split: jsval.splits sum.splits)
  then show ?thesis
    by (auto simp: handleSubmission_def split: option.splits sum.splits prod.splits) (metis snd_conv)
qed

end
