(* ===== verification/PoolClient.thy ===== *)
theory PoolClient
  imports IsolateReuse SerializeFn Observability SubmitCode RunMany
begin

text \<open>
  The public methods of a pool (\<open>src/api/pool.ts\<close>) as transitions of the whole object: the memo of
  serialized functions, the cached stub of the coordinator, the counters and the prewarm of \<open>Pool\<close>, and
  the dispatch of \<open>Pool.runOneSource\<close> and \<open>Pool.fanOutResponse\<close>. A call is run from its start to its end;
  how calls overlap is the step relation of \<open>Pool\<close>.

  A function is a reference (the key of the memo) with its \<open>callee\<close>. The trailing options bag is read
  by \<open>readBag\<close>, since the cancel token in it is an object and no value.
\<close>

section \<open>The client\<close>

record PoolClient =
  ccPool :: Pool
  ccState :: PoolState
  ccSerialized :: "(nat \<times> string \<times> string) list"
  ccStub :: "DOStub option"

definition newClient :: "Pool \<Rightarrow> PoolClient" where
  "newClient pool = \<lparr>ccPool = pool, ccState = newPoolState, ccSerialized = [], ccStub = None\<rparr>"

definition upd :: "(PoolState \<Rightarrow> PoolState) \<Rightarrow> PoolClient \<Rightarrow> PoolClient" where
  "upd f c = c\<lparr>ccState := f (ccState c)\<rparr>"

definition serializeCached :: "nat \<Rightarrow> callee \<Rightarrow> PoolClient \<Rightarrow> (ParallelError + string \<times> string) \<times> PoolClient" where
  "serializeCached ref fn c =
     (case map_of (ccSerialized c) ref of
        Some entry \<Rightarrow> (Inr entry, upd (noteShape (snd entry)) c)
      | None \<Rightarrow>
          (case serializeFunction fn of
             Inl e \<Rightarrow> (Inl e, c)
           | Inr fnSource \<Rightarrow>
               (let entry = (fnSource, hashSource fnSource) in
                (Inr entry, (upd (noteShape (snd entry)) c)\<lparr>ccSerialized := AList.update ref entry (ccSerialized c)\<rparr>))))"

definition poolStub :: "bool \<Rightarrow> PoolClient \<Rightarrow> DOStub \<times> PoolClient" where
  "poolStub byName c =
     (case ccStub c of
        Some stub \<Rightarrow> (stub, c)
      | None \<Rightarrow> (let stub = getStub byName (plCoordinatorName (ccPool c)) (plLocationHint (ccPool c))
                in (stub, c\<lparr>ccStub := Some stub\<rparr>)))"

section \<open>Prewarm\<close>

definition primeSpec :: "Pool \<Rightarrow> RpcEnvelope \<Rightarrow> TaskSpec" where
  "primeSpec pool envelope =
     (let co = poClient (plOpts pool) in
      \<lparr>tsFnSource = ''() => 0'', tsFnHash = hashSource ''() => 0'', tsContext = None,
       tsCacheKeyStrategy = Some (nullish (coCacheKeyStrategy co) Stable),
       tsWorkerOptions = workerOptionsToWire (Some (clientWorkerOptions co)),
       tsAllowList = bindingAllowList (coBindings co), tsEnvelope = envelope, tsFreshIsolate = False,
       tsCancelStream = None\<rparr>)"

text \<open>What the prewarm does on the platform; whether it fails is swallowed.\<close>

definition primeInProcessIsolate :: "Platform \<Rightarrow> nat list \<Rightarrow> int \<Rightarrow> Pool \<Rightarrow> event list" where
  "primeInProcessIsolate pl path now pool =
     (if \<not> plInProcess pool then []
      else case callEnvelope now PoolFn noSubmitOptions of
        Inl e \<Rightarrow> []
      | Inr envelope \<Rightarrow>
          fst (callRpc pl (targetName Loopback) path
                 (runOne pl (targetName Loopback) path
                    \<lparr>crSpec = primeSpec pool envelope, crArgs = [], crTaskSlot = None\<rparr>)))"

fun prewarmLog :: "Platform \<Rightarrow> nat list \<Rightarrow> int \<Rightarrow> Pool \<Rightarrow> PrewarmCall option \<Rightarrow> event list" where
  "prewarmLog pl path now pool None = []"
| "prewarmLog pl path now pool (Some PrimeLoopback) = primeInProcessIsolate pl path now pool"
| "prewarmLog pl path now pool (Some (NoopCoordinator name)) = fst (callRpc pl name path ([], ()))"

section \<open>Submits\<close>

text \<open>The retries that a dispatch announces, each with its time and error.\<close>

definition noteRetries :: "(int \<times> nat \<times> ParallelError \<times> int) list \<Rightarrow> PoolState \<Rightarrow> PoolState" where
  "noteRetries rs = fold (\<lambda>(t, attempt, e, delay). noteRetry t e) rs"

definition submitRetries :: "Platform \<Rightarrow> nat list \<Rightarrow> (nat \<Rightarrow> int \<Rightarrow> int option) \<Rightarrow> (nat \<Rightarrow> rat) \<Rightarrow> Pool \<Rightarrow> int \<Rightarrow>
    string \<Rightarrow> rval list \<Rightarrow> SubmitOptions \<Rightarrow> (int \<times> nat \<times> ParallelError \<times> int) list" where
  "submitRetries pl path settlesAt jitter pool now fnSource args opts =
     (case callEnvelope now PoolFn opts of
        Inl e \<Rightarrow> []
      | Inr envelope \<Rightarrow>
          let co = poClient (plOpts pool); name = targetName (runOneTarget pool);
              req = \<lparr>crSpec = clientSpec co fnSource opts envelope (callStream now (sbCancel opts)),
                     crArgs = args, crTaskSlot = Some 0\<rparr>;
              dopts = callDispatchOptions co opts envelope
          in retryCalls (plCpu pl) (\<lambda>k t. (settlesAt k t, snd (callRpc pl name (k # path) (runOne pl name (k # path) req))))
               jitter dopts 0 (nat (1 + nullish (doRetries dopts) 0)) now)"

text \<open>\<open>None\<close>: the promise of the submit never settles.\<close>

definition dispatchSubmit :: "Platform \<Rightarrow> nat list \<Rightarrow> (nat \<Rightarrow> int \<Rightarrow> int option) \<Rightarrow> (nat \<Rightarrow> rat) \<Rightarrow> int \<Rightarrow>
    string \<Rightarrow> rval list \<Rightarrow> SubmitOptions \<Rightarrow> PoolClient \<Rightarrow> (thrown + rval) option \<times> PoolClient" where
  "dispatchSubmit pl path settlesAt jitter now fnSource args opts c =
     (case runOneSource pl path settlesAt jitter (ccPool c) now fnSource args opts of
        Inl e \<Rightarrow> (Some (Inl (Lib e)), c)
      | Inr d \<Rightarrow>
          let c1 = upd (inFlightInc 1 \<circ> snd \<circ> ensurePrewarm False (ccPool c)) c;
              c2 = upd (noteRetries (submitRetries pl path settlesAt jitter (ccPool c) now fnSource args opts)) c1
          in case d of
               Never \<Rightarrow> (None, c2)
             | Settled t r \<Rightarrow> (Some (fst (submitEnds r (ccState c2))), upd (snd \<circ> submitEnds r) c2))"

definition submit :: "Platform \<Rightarrow> nat list \<Rightarrow> (nat \<Rightarrow> int \<Rightarrow> int option) \<Rightarrow> (nat \<Rightarrow> rat) \<Rightarrow> int \<Rightarrow>
    (rval option \<Rightarrow> SubmitOptions) \<Rightarrow> nat \<Rightarrow> callee \<Rightarrow> rval list \<Rightarrow> PoolClient \<Rightarrow> (thrown + rval) option \<times> PoolClient" where
  "submit pl path settlesAt jitter now readBag ref fn rest c =
     (case splitSubmitOptions rest of
        (args, bag) \<Rightarrow>
          (case serializeCached ref fn c of
             (Inl e, c') \<Rightarrow> (Some (Inl (Lib e)), c')
           | (Inr (fnSource, fnHash), c') \<Rightarrow> dispatchSubmit pl path settlesAt jitter now fnSource args (readBag bag) c'))"

definition submitSource :: "Platform \<Rightarrow> nat list \<Rightarrow> (nat \<Rightarrow> int \<Rightarrow> int option) \<Rightarrow> (nat \<Rightarrow> rat) \<Rightarrow> int \<Rightarrow>
    string \<Rightarrow> rval list \<Rightarrow> SubmitOptions \<Rightarrow> PoolClient \<Rightarrow> (thrown + rval) option \<times> PoolClient" where
  "submitSource pl path settlesAt jitter now fnSource args opts c =
     dispatchSubmit pl path settlesAt jitter now fnSource args opts (upd (noteShape (hashSource fnSource)) c)"

text \<open>A stream is a result like any other here: the method is a cast.\<close>

definition submitStream :: "Platform \<Rightarrow> nat list \<Rightarrow> (nat \<Rightarrow> int \<Rightarrow> int option) \<Rightarrow> (nat \<Rightarrow> rat) \<Rightarrow> int \<Rightarrow>
    (rval option \<Rightarrow> SubmitOptions) \<Rightarrow> nat \<Rightarrow> callee \<Rightarrow> rval list \<Rightarrow> PoolClient \<Rightarrow> (thrown + rval) option \<times> PoolClient" where
  "submitStream pl path settlesAt jitter now readBag ref fn rest c =
     submit pl path settlesAt jitter now readBag ref fn rest c"

section \<open>Fan-outs\<close>

datatype fanEnd = FanPending | FanThrows thrown | FanFails "rval FanError" | FanReturns "rval FanItem list"

definition fanOutRetries :: "Platform \<Rightarrow> logFn \<Rightarrow> nat list \<Rightarrow> (nat \<Rightarrow> int \<Rightarrow> int option) \<Rightarrow> (nat \<Rightarrow> rat) \<Rightarrow>
    Pool \<Rightarrow> int \<Rightarrow> string \<Rightarrow> rval list list \<Rightarrow> SubmitOptions \<Rightarrow> (int \<times> nat \<times> ParallelError \<times> int) list" where
  "fanOutRetries pl lg path settlesAt jitter pool now fnSource argsList opts =
     (case callEnvelope now PoolFn opts of
        Inl e \<Rightarrow> []
      | Inr envelope \<Rightarrow>
          let co = poClient (plOpts pool); target = runManyTarget pool (length argsList);
              req = \<lparr>cfSpec = clientSpec co fnSource opts envelope (callStream now (sbCancel opts)),
                     cfArgsList = argsList, cfSelector = poSelector (plOpts pool),
                     cfLocationHint = plLocationHint pool\<rparr>;
              dopts = callDispatchOptions co opts envelope
          in retryCalls (plCpu pl) (\<lambda>k t. (settlesAt k t,
                 joinE (snd (callRpc pl (targetName target) (k # path) (runManyOn pl lg target (k # path) req)))))
               jitter dopts 0 (nat (1 + nullish (doRetries dopts) 0)) now)"

definition fanOut :: "Platform \<Rightarrow> logFn \<Rightarrow> nat list \<Rightarrow> (nat \<Rightarrow> int \<Rightarrow> int option) \<Rightarrow> (nat \<Rightarrow> rat) \<Rightarrow> int \<Rightarrow>
    nat \<Rightarrow> callee \<Rightarrow> rval list list \<Rightarrow> OnErrorStrategy \<Rightarrow> SubmitOptions \<Rightarrow> PoolClient \<Rightarrow> fanEnd \<times> PoolClient" where
  "fanOut pl lg path settlesAt jitter now ref fn argsList onError opts c =
     (case serializeCached ref fn c of
        (Inl e, c') \<Rightarrow> (FanThrows (Lib e), c')
      | (Inr (fnSource, fnHash), c') \<Rightarrow>
          (case fanOutResponse pl lg path settlesAt jitter (ccPool c') now fnSource argsList opts of
             Inl e \<Rightarrow> (FanThrows (Lib e), c')
           | Inr d \<Rightarrow>
               let n = length argsList;
                   c1 = upd (inFlightInc n \<circ> snd \<circ> ensurePrewarm False (ccPool c')) c';
                   c2 = upd (noteRetries (fanOutRetries pl lg path settlesAt jitter (ccPool c') now fnSource argsList opts)) c1
               in case d of
                    Never \<Rightarrow> (FanPending, c2)
                  | Settled t (Inl e) \<Rightarrow> (FanThrows e, upd (fanOutEnds t n (Inl e)) c2)
                  | Settled t (Inr resp) \<Rightarrow>
                      ((case fanOutOutcome onError (frResults resp) of Inl e \<Rightarrow> FanFails e | Inr vs \<Rightarrow> FanReturns vs),
                       upd (fanOutEnds t n (Inr resp)) c2)))"

definition poolMap :: "Platform \<Rightarrow> logFn \<Rightarrow> nat list \<Rightarrow> (nat \<Rightarrow> int \<Rightarrow> int option) \<Rightarrow> (nat \<Rightarrow> rat) \<Rightarrow> int \<Rightarrow>
    nat \<Rightarrow> callee \<Rightarrow> rval list \<Rightarrow> OnErrorStrategy option \<Rightarrow> SubmitOptions \<Rightarrow> PoolClient \<Rightarrow> fanEnd \<times> PoolClient" where
  "poolMap pl lg path settlesAt jitter now ref fn items onError opts c =
     (if items = [] then (FanReturns [], c)
      else fanOut pl lg path settlesAt jitter now ref fn (mapArgs items) (nullish onError Throw) opts c)"

text \<open>
  \<open>warm\<close>: the prewarm is awaited and forced; a positive number of isolates is a \<open>map\<close> of a new no-op
  function (a fresh reference) over as many zeros. \<open>new Array\<close> throws for a negative number.
\<close>

definition warm :: "Platform \<Rightarrow> logFn \<Rightarrow> nat list \<Rightarrow> (nat \<Rightarrow> int \<Rightarrow> int option) \<Rightarrow> (nat \<Rightarrow> rat) \<Rightarrow> int \<Rightarrow>
    nat \<Rightarrow> int option \<Rightarrow> PoolClient \<Rightarrow> event list \<times> fanEnd \<times> PoolClient" where
  "warm pl lg path settlesAt jitter now ref isolates c =
     (let n = nullish isolates 0;
          log = prewarmLog pl path now (ccPool c) (fst (ensurePrewarm True (ccPool c) (ccState c)));
          c1 = upd (snd \<circ> ensurePrewarm True (ccPool c)) c
      in if n = 0 then (log, FanReturns [], c1)
         else if n < 0 then (log, FanThrows (PlainError ''RangeError'' ''Invalid array length'' None), c1)
         else (log, poolMap pl lg path settlesAt jitter now ref (Function [] ''async () => undefined'')
                      (replicate (nat n) (RNumber 0)) None noSubmitOptions c1))"

text \<open>\<open>handle\<close>: the options of the submit handler; whether it warns and the flag after it.\<close>

definition handle :: "bool \<Rightarrow> Policy option \<Rightarrow> (Request \<Rightarrow> thrown + Submission) option \<Rightarrow> (rval \<Rightarrow> thrown + Response) \<Rightarrow>
    PoolClient \<Rightarrow> ParallelError + SubmitCodeOptions \<times> bool \<times> bool" where
  "handle publicWarned policy parse format c =
     bindE (submitCodeHandler publicWarned policy)
       (\<lambda>warned. Inr (\<lparr>scPool = ccPool c, scPolicy = the policy, scParse = parse, scFormat = format\<rparr>, warned))"

section \<open>Lemmas\<close>

text \<open>The memo is right: its entries are what serializing the function gives.\<close>

definition memoOk :: "(nat \<Rightarrow> callee) \<Rightarrow> PoolClient \<Rightarrow> bool" where
  "memoOk fnOf c \<longleftrightarrow> (\<forall>ref src h. map_of (ccSerialized c) ref = Some (src, h) \<longrightarrow>
     serializeFunction (fnOf ref) = Inr src \<and> h = hashSource src)"

lemma upd_simps [simp]:
  "ccPool (upd f c) = ccPool c" "ccSerialized (upd f c) = ccSerialized c" "ccStub (upd f c) = ccStub c"
  "ccState (upd f c) = f (ccState c)"
  by (simp_all add: upd_def)

lemma memoOk_upd [simp]: "memoOk fnOf (upd f c) = memoOk fnOf c"
  by (simp add: memoOk_def)

text \<open>With a right memo, serializing is \<open>serializeFunction\<close> and notes the shape.\<close>

lemma serializeCached_ok:
  assumes "memoOk fnOf c" "serializeFunction (fnOf ref) = Inr src"
  obtains c' where "serializeCached ref (fnOf ref) c = (Inr (src, hashSource src), c')" "memoOk fnOf c'"
    "ccPool c' = ccPool c" "ccState c' = noteShape (hashSource src) (ccState c)"
proof (cases "map_of (ccSerialized c) ref")
  case None
  then show thesis using assms
    by (intro that [of "snd (serializeCached ref (fnOf ref) c)"])
      (auto simp: serializeCached_def memoOk_def Let_def update_conv upd_def split: if_splits)
next
  case (Some entry)
  then have "entry = (src, hashSource src)" using assms by (cases entry) (auto simp: memoOk_def)
  then show thesis using Some assms 
    by (intro that [of "snd (serializeCached ref (fnOf ref) c)"]) (auto simp: serializeCached_def)
qed

lemma dispatchSubmit_state:
  assumes "ccPool c' = ccPool c" "ccState c' = ccState c"
  shows "fst (dispatchSubmit pl path settlesAt jitter now src args opts c') =
      fst (dispatchSubmit pl path settlesAt jitter now src args opts c) \<and>
    ccState (snd (dispatchSubmit pl path settlesAt jitter now src args opts c')) =
      ccState (snd (dispatchSubmit pl path settlesAt jitter now src args opts c))"
  using assms by (auto simp: dispatchSubmit_def Let_def split: sum.splits dispatched.splits)

text \<open>What the steps of a call leave alone.\<close>

lemma counters_kept [simp]:
  "psCompleted (noteShape h s) = psCompleted s" "psFailed (noteShape h s) = psFailed s"
  "psInFlight (noteShape h s) = psInFlight s"
  "psCompleted (snd (ensurePrewarm f p s)) = psCompleted s" "psFailed (snd (ensurePrewarm f p s)) = psFailed s"
  "psInFlight (snd (ensurePrewarm f p s)) = psInFlight s"
  "psCompleted (inFlightInc n s) = psCompleted s" "psFailed (inFlightInc n s) = psFailed s"
  "psInFlight (inFlightInc n s) = psInFlight s + n" "psInFlight (inFlightDec n s) = psInFlight s - n"
  by (simp_all add: noteShape_def ensurePrewarm_def inFlightInc_def inFlightDec_def Let_def)

lemma noteRetries_kept [simp]:
  "psCompleted (noteRetries rs s) = psCompleted s" "psFailed (noteRetries rs s) = psFailed s"
  "psInFlight (noteRetries rs s) = psInFlight s"
proof -
  have "psCompleted (noteRetries rs s) = psCompleted s \<and> psFailed (noteRetries rs s) = psFailed s \<and>
      psInFlight (noteRetries rs s) = psInFlight s"
    by (induction rs arbitrary: s) (auto simp: noteRetries_def noteRetry_def)
  then show "psCompleted (noteRetries rs s) = psCompleted s" "psFailed (noteRetries rs s) = psFailed s"
    "psInFlight (noteRetries rs s) = psInFlight s" by simp_all
qed

section \<open>A submit is a submit of its text\<close>

text \<open>
  Submitting a function is submitting its text: the outcome and the state of the pool are those of
  \<open>submitSource\<close> on the serialized function, whether or not the memo holds it, and the memo stays right.
\<close>

theorem submit_is_submitSource:
  assumes "memoOk fnOf c" "serializeFunction (fnOf ref) = Inr src" "splitSubmitOptions rest = (args, bag)"
  shows "fst (submit pl path settlesAt jitter now readBag ref (fnOf ref) rest c) =
      fst (submitSource pl path settlesAt jitter now src args (readBag bag) c) \<and>
    ccState (snd (submit pl path settlesAt jitter now readBag ref (fnOf ref) rest c)) =
      ccState (snd (submitSource pl path settlesAt jitter now src args (readBag bag) c)) \<and>
    memoOk fnOf (snd (submit pl path settlesAt jitter now readBag ref (fnOf ref) rest c))"
proof -
  obtain c' where c': "serializeCached ref (fnOf ref) c = (Inr (src, hashSource src), c')" "memoOk fnOf c'"
    "ccPool c' = ccPool c" "ccState c' = noteShape (hashSource src) (ccState c)"
    using serializeCached_ok [OF assms(1,2)] by blast
  then show ?thesis
    using dispatchSubmit_state [of c' "upd (noteShape (hashSource src)) c" pl path settlesAt jitter now src args "readBag bag"]
    by (auto simp: submit_def submitSource_def assms(3) dispatchSubmit_def Let_def split: sum.splits dispatched.splits)
qed

lemma submit_is_submitSource_witness:
  "fst (submit samplePlatform [] (\<lambda>_ _. Some 7) (\<lambda>_. 1) 5 (\<lambda>_. noSubmitOptions) 0 (Function [] ''x => x'') [RNumber 3] (newClient samplePool)) =
   fst (submitSource samplePlatform [] (\<lambda>_ _. Some 7) (\<lambda>_. 1) 5 ''x => x'' [RNumber 3] noSubmitOptions (newClient samplePool))"
proof -
  have m: "memoOk (\<lambda>_. Function [] ''x => x'') (newClient samplePool)" by (simp add: memoOk_def newClient_def)
  have f: "serializeFunction ((\<lambda>_. Function [] ''x => x'') (0::nat)) = Inr ''x => x''" by code_simp
  have s: "splitSubmitOptions [RNumber 3] = ([RNumber 3], None)" by code_simp
  show ?thesis by (rule submit_is_submitSource [OF m f s, THEN conjunct1])
qed

section \<open>A map from the caller to the runners\<close>

lemma race_mem: "race now rs = Some (t, r) \<Longrightarrow> \<exists>u. (u, r) \<in> set rs"
  by (induction now rs arbitrary: t r rule: race.induct) (auto split: option.splits if_splits)

text \<open>A value that a dispatch settles with is the value of one of its attempts.\<close>

lemma withRaces_value: "withRaces now task opts = Some (t, Inr v) \<Longrightarrow> snd task = Inr v"
  by (auto simp: withRaces_def racers_def split: if_splits option.splits dest!: race_mem)

lemma dispatchLoop_value:
  "dispatchLoop p task jitter opts attempt left now lastError = (n, Settled t (Inr v)) \<Longrightarrow> \<exists>k t'. snd (task k t') = Inr v"
proof (induction left arbitrary: attempt now lastError n)
  case (Suc left)
  then show ?case
    by (auto simp: Let_def split: if_splits option.splits sum.splits prod.splits) (blast dest: withRaces_value)
qed simp

lemma dispatch_value:
  "snd (dispatchWithResilience p task jitter opts now) = Settled t (Inr v) \<Longrightarrow> \<exists>k t'. snd (task k t') = Inr v"
  unfolding dispatchWithResilience_def by (metis prod.collapse dispatchLoop_value)

text \<open>The values of a fan-out that \<open>throw\<close> lets through.\<close>

lemma throw_values:
  assumes "fanOutOutcome Throw results = Inr vs"
  shows "length vs = length results \<and> (\<forall>i < length results. \<exists>v. vs ! i = Value v \<and> results ! i = ROk v)"
proof -
  let ?ss = "map (settleItem \<circ> resultRun results) [0..<length results]"
  have "fanErrors ?ss = []" and vs: "vs = map Value (List.map_filter okValue ?ss)"
    using assms by (auto simp: fanOutOutcome_def fanResult_def Let_def split: if_splits)
  then have ss: "map SettledOk (List.map_filter okValue ?ss) = ?ss"
    by (intro okValue_all) (simp add: fanErrors_empty)
  then have len: "length vs = length results" using vs by (metis diff_zero length_map length_upt)
  have "\<exists>v. vs ! i = Value v \<and> results ! i = ROk v" if "i < length results" for i
  proof -
    have "SettledOk (List.map_filter okValue ?ss ! i) = settleItem (resultRun results i)"
      using that len vs arg_cong [OF ss, of "\<lambda>xs. xs ! i"] by simp
    then have "results ! i = ROk (List.map_filter okValue ?ss ! i)"
      by (auto simp: settleItem_def resultRun_def decodeResult_def split: sum.splits RunOneResult.splits)
    then show ?thesis using vs that len by simp
  qed
  then show ?thesis using len by blast
qed

text \<open>What a target answers: one result per argument list, each from a runner or from a failed RPC.\<close>

definition sameSpec :: "TaskSpec \<Rightarrow> TaskSpec \<Rightarrow> bool" where
  "sameSpec spec spec' \<longleftrightarrow> spec'\<lparr>tsFreshIsolate := False\<rparr> = spec\<lparr>tsFreshIsolate := False\<rparr>"

lemma runManyOn_values:
  assumes "logAccurate lg" "runManyOn pl lg target path req = (es, Inr resp)"
  shows "length (frResults resp) = length (cfArgsList req) \<and>
    (\<forall>i < length (cfArgsList req). \<forall>v. frResults resp ! i = ROk v \<longrightarrow>
       (\<exists>spec name p e s. sameSpec (cfSpec req) spec \<and> taskOutcome pl name p spec e (cfArgsList req ! i) i s = ROk v))"
proof (cases target)
  case Loopback
  then show ?thesis using assms(2)
    by (auto simp: inProcessRunMany_def runOne_def emptyResponse_def taskOutcome_def sameSpec_def Let_def
        split: list.splits) blast
next
  case (Coordinator name)
  then have "runMany pl lg name path req = (es, Inr resp)" using assms(2) by simp
  from runMany_origins [OF assms(1) this] obtain spec where spec: "sameSpec (cfSpec req) spec"
    "origins pl spec 0 (cfArgsList req) (frResults resp)"
    by (cases "frTopology resp = Tree") (auto simp: sameSpec_def intro!: that [of "(cfSpec req)\<lparr>tsFreshIsolate := False\<rparr>"])
  have "\<exists>spec name p e s. sameSpec (cfSpec req) spec \<and> taskOutcome pl name p spec e (cfArgsList req ! i) i s = ROk v"
    if "i < length (cfArgsList req)" "frResults resp ! i = ROk v" for i v
    using list_all2_nthD [OF spec(2), of i] that spec(1)
    by (auto simp: taskOrigin_def errorToFailedResult_def nth_enumerate_eq) metis+
  then show ?thesis using list_all2_lengthD [OF spec(2)] by auto
qed

text \<open>
  C3. \<open>map\<close> from end to end: when a map under \<open>throw\<close> returns, whatever RPCs failed and were retried and
  whichever topology was chosen, it returns one value per item, in order, and the value at \<open>i\<close> is what
  a runner answered for the serialized function on exactly the item \<open>i\<close>, in slot \<open>i\<close>, under the context
  and the allow-list of the pool; the calls in flight are what they were, and the items are counted as
  completed, none as failed.
\<close>

theorem map_end_to_end:
  assumes "logAccurate lg" "memoOk fnOf c" "serializeFunction (fnOf ref) = Inr src"
    and "poolMap pl lg path settlesAt jitter now ref (fnOf ref) items None opts c = (FanReturns vs, c')"
  shows "length vs = length items \<and>
    psCompleted (ccState c') = psCompleted (ccState c) + length items \<and> psFailed (ccState c') = psFailed (ccState c) \<and>
    psInFlight (ccState c') = psInFlight (ccState c) \<and>
    list_all (\<lambda>i. \<exists>v spec name p e s. vs ! i = Value v \<and> taskOutcome pl name p spec e [items ! i] i s = ROk v \<and>
       tsFnSource spec = src \<and> tsContext spec = mergeContext (coContext (poClient (plOpts (ccPool c)))) (sbContext opts) \<and>
       tsAllowList spec = bindingAllowList (coBindings (poClient (plOpts (ccPool c))))) [0..<length items]"
proof (cases "items = []")
  case True
  then show ?thesis using assms(4) by (simp add: poolMap_def)
next
  case False
  obtain c1 where c1: "serializeCached ref (fnOf ref) c = (Inr (src, hashSource src), c1)" "ccPool c1 = ccPool c"
    "ccState c1 = noteShape (hashSource src) (ccState c)"
    using serializeCached_ok [OF assms(2,3)] by metis
  let ?n = "length items" and ?co = "poClient (plOpts (ccPool c))"
  obtain t resp where d: "fanOutResponse pl lg path settlesAt jitter (ccPool c) now src (mapArgs items) opts = Inr (Settled t (Inr resp))"
    and out: "fanOutOutcome Throw (frResults resp) = Inr vs"
    and c': "c' = upd (fanOutEnds t ?n (Inr resp)) (upd (noteRetries (fanOutRetries pl lg path settlesAt jitter (ccPool c) now src (mapArgs items) opts))
               (upd (inFlightInc ?n \<circ> snd \<circ> ensurePrewarm False (ccPool c)) c1))"
    using assms(4) False c1(1,2)
    by (auto simp: poolMap_def fanOut_def mapArgs_def nullish_def Let_def split: sum.splits dispatched.splits)
  obtain envelope where env: "callEnvelope now PoolFn opts = Inr envelope"
    using d by (cases "callEnvelope now PoolFn opts") (auto simp: fanOutResponse_def)
  define req where "req = \<lparr>cfSpec = clientSpec ?co src opts envelope (callStream now (sbCancel opts)),
    cfArgsList = mapArgs items, cfSelector = poSelector (plOpts (ccPool c)), cfLocationHint = plLocationHint (ccPool c)\<rparr>"
  let ?target = "runManyTarget (ccPool c) (length (mapArgs items))"
  let ?task = "\<lambda>k t'. (settlesAt k t', joinE (snd (callRpc pl (targetName ?target) (k # path) (runManyOn pl lg ?target (k # path) req))))"
  have "snd (dispatchWithResilience (plCpu pl) ?task jitter (callDispatchOptions ?co opts envelope) now) = Settled t (Inr resp)"
    using d env by (simp add: fanOutResponse_def Let_def req_def)
  from dispatch_value [OF this]
  obtain k where "joinE (snd (callRpc pl (targetName ?target) (k # path) (runManyOn pl lg ?target (k # path) req))) = Inr resp"
    by auto
  then obtain es where "runManyOn pl lg ?target (k # path) req = (es, Inr resp)"
    by (cases "runManyOn pl lg ?target (k # path) req") (auto simp: callRpc_def split: option.splits prod.splits)
  note answers = runManyOn_values [OF assms(1) this]
  have len: "length (frResults resp) = ?n" using answers by (simp add: req_def mapArgs_def)
  note vals = throw_values [OF out]
  have "list_all (\<lambda>i. \<exists>v spec name p e s. vs ! i = Value v \<and> taskOutcome pl name p spec e [items ! i] i s = ROk v \<and>
       tsFnSource spec = src \<and> tsContext spec = mergeContext (coContext ?co) (sbContext opts) \<and>
       tsAllowList spec = bindingAllowList (coBindings ?co)) [0..<?n]"
    unfolding list_all_iff
  proof
    fix i assume i: "i \<in> set [0..<?n]"
    then obtain v where v: "vs ! i = Value v" "frResults resp ! i = ROk v" using vals len by auto
    then obtain spec name p e s where o': "sameSpec (cfSpec req) spec" "taskOutcome pl name p spec e [items ! i] i s = ROk v"
      using answers [THEN conjunct2, rule_format, of i v] i by (auto simp: req_def mapArgs_def)
    have "tsFnSource spec = src" "tsContext spec = mergeContext (coContext ?co) (sbContext opts)"
      "tsAllowList spec = bindingAllowList (coBindings ?co)"
      using o'(1) by (cases spec, simp add: sameSpec_def req_def clientSpec_def)+
    then show "\<exists>v spec name p e s. vs ! i = Value v \<and> taskOutcome pl name p spec e [items ! i] i s = ROk v \<and>
       tsFnSource spec = src \<and> tsContext spec = mergeContext (coContext ?co) (sbContext opts) \<and>
       tsAllowList spec = bindingAllowList (coBindings ?co)" using v(1) o'(2) by blast
  qed
  moreover have "isOk (decodeResult r)" if r: "r \<in> set (frResults resp)" for r
  proof -
    obtain i where "i < length (frResults resp)" "r = frResults resp ! i" using r by (auto simp: in_set_conv_nth)
    then obtain v where "r = ROk v" using vals by blast
    then show ?thesis by (simp add: decodeResult_def)
  qed
  then have "filter (\<lambda>x. isOk (decodeResult x)) (frResults resp) = frResults resp"
    "filter (\<lambda>x. \<not> isOk (decodeResult x)) (frResults resp) = []"
    by (auto simp: filter_id_conv filter_empty_conv)
  ultimately show ?thesis using vals len c1(3) by (simp add: c' fanOutEnds_def)
qed

text \<open>A map over one item on an in-process pool.\<close>

definition loopbackPool :: Pool where
  "loopbackPool = samplePool\<lparr>plInProcess := True\<rparr>"

lemma sample_runOne:
  assumes "tsContext (crSpec req) = None" "crTaskSlot req = Some 0"
  shows "snd (runOne samplePlatform name path req) = ROk (RNumber 1)"
proof -
  have "checkResult (RNumber 1) = Inr (RNumber 1)"
    by (simp add: checkResult_def validateReturn_def HARD_RPC_PAYLOAD_BYTES_def)
  then show ?thesis using assms
    by (simp add: runOne_def runTask_def runWithMode_def contextHash_def taskInput_def loadAndCall_def toResult_def
        samplePlatform_def Let_def split: prod.splits)
qed

lemma sample_map:
  "\<exists>c'. poolMap samplePlatform ceilLog [] (\<lambda>_ _. Some 7) (\<lambda>_. 1) 5 0 (Function [] ''x => x'') [RNumber 3] None
     noSubmitOptions (newClient loopbackPool) = (FanReturns [Value (RNumber 1)], c')"
proof -
  have f: "serializeFunction (Function [] ''x => x'') = Inr ''x => x''" by code_simp
  have t: "runManyTarget loopbackPool (Suc 0) = Loopback"
    by (simp add: runManyTarget_def loopbackPool_def samplePool_def samplePoolOptions_def IN_PROCESS_THRESHOLD_def)
  have c: "coContext (poClient (plOpts loopbackPool)) = None" "coTimeout (poClient (plOpts loopbackPool)) = None"
    "coRetries (poClient (plOpts loopbackPool)) = None"
    by (simp_all add: loopbackPool_def samplePool_def samplePoolOptions_def sampleClient_def)
  have one: "snd (inProcessRunMany samplePlatform name path
      \<lparr>cfSpec = clientSpec (poClient (plOpts loopbackPool)) src noSubmitOptions e st, cfArgsList = [a], cfSelector = sel, cfLocationHint = lh\<rparr>)
      = Inr \<lparr>frResults = [ROk (RNumber 1)], frTopology = InDo, frFanOutPerLevel = [1], frTreeDepth = 1\<rparr>"
    for name path src e st a sel lh
    by (simp add: inProcessRunMany_def case_prod_beta sample_runOne clientSpec_def c(1) mergeContext_def noSubmitOptions_def)
  have rpc: "plRpc samplePlatform n p = None" for n p by (simp add: samplePlatform_def)
  obtain envelope where env: "callEnvelope 5 PoolFn noSubmitOptions = Inr envelope" "reDeadlineEpochMs envelope = 0"
    by (simp add: callEnvelope_def buildEnvelope_def noSubmitOptions_def Let_def nullish_def)
  have opts: "callDispatchOptions (poClient (plOpts loopbackPool)) noSubmitOptions envelope =
      \<lparr>doTimeout = None, doRetries = Some 0, doRetryDelay = Some 100, doCancel = None, doDeadlineEpochMs = None\<rparr>"
    using env(2) by (simp add: callDispatchOptions_def noSubmitOptions_def nullish_def loopbackPool_def samplePool_def
        samplePoolOptions_def sampleClient_def)
  have "\<exists>resp. fanOutResponse samplePlatform ceilLog [] (\<lambda>_ _. Some 7) (\<lambda>_. 1) loopbackPool 5 ''x => x'' [[RNumber 3]] noSubmitOptions
      = Inr (Settled 7 (Inr resp)) \<and> frResults resp = [ROk (RNumber 1)]"
    by (simp add: fanOutResponse_def env opts Let_def nullish_def t dispatchWithResilience_def isCancelledAt_def
        withRaces_def racers_def callRpc_def rpc one)
  then obtain resp where "fanOutResponse samplePlatform ceilLog [] (\<lambda>_ _. Some 7) (\<lambda>_. 1) loopbackPool 5 ''x => x'' [[RNumber 3]] noSubmitOptions
      = Inr (Settled 7 (Inr resp))" "frResults resp = [ROk (RNumber 1)]" by blast
  then show ?thesis
    by (simp add: poolMap_def fanOut_def serializeCached_def newClient_def f Let_def upd_def mapArgs_def nullish_def
        fanOutOutcome_def fanResult_def resultRun_def decodeResult_def settleItem_def fanErrors_def
        List.map_filter_simps)
qed

lemma map_end_to_end_witness:
  "\<exists>c' spec name p e s. poolMap samplePlatform ceilLog [] (\<lambda>_ _. Some 7) (\<lambda>_. 1) 5 0 (Function [] ''x => x'') [RNumber 3] None
     noSubmitOptions (newClient loopbackPool) = (FanReturns [Value (RNumber 1)], c') \<and>
     taskOutcome samplePlatform name p spec e [RNumber 3] 0 s = ROk (RNumber 1) \<and> tsFnSource spec = ''x => x''"
proof -
  have m: "memoOk (\<lambda>_. Function [] ''x => x'') (newClient loopbackPool)" by (simp add: memoOk_def newClient_def)
  have f: "serializeFunction ((\<lambda>_. Function [] ''x => x'') (0::nat)) = Inr ''x => x''" by code_simp
  obtain c' where c': "poolMap samplePlatform ceilLog [] (\<lambda>_ _. Some 7) (\<lambda>_. 1) 5 0 (Function [] ''x => x'') [RNumber 3] None
     noSubmitOptions (newClient loopbackPool) = (FanReturns [Value (RNumber 1)], c')"
    using sample_map by blast
  from map_end_to_end [OF logAccurate_ceilLog m f c'] obtain spec name p e s
    where "taskOutcome samplePlatform name p spec e [RNumber 3] 0 s = ROk (RNumber 1)" "tsFnSource spec = ''x => x''"
    by auto
  then show ?thesis using c' by blast
qed

section \<open>What a prewarm warms\<close>

text \<open>
  An isolate that the in-process prewarm has loaded is used by a call of the default strategy only
  if the hash of the call's source and context is that of \<open>() => 0\<close> without a context: the worker
  options that the prewarm copies from the pool play no part in it.
\<close>

theorem prime_reused_iff:
  assumes "nullish (coCacheKeyStrategy (poClient (plOpts pool))) Stable = Stable" "sbFreshIsolate opts = False"
    and "contextHash (mergeContext (coContext (poClient (plOpts pool))) (sbContext opts)) = Inr h"
  shows "runKey now (runnerFor (primeSpec pool e1) denv) (taskInput (primeSpec pool e1) denv e1 [] 0 None) n =
      runKey now' (runnerFor (clientSpec (poClient (plOpts pool)) src opts e2 stream) denv)
        (taskInput (clientSpec (poClient (plOpts pool)) src opts e2 stream) denv e2 args 0 stream) n' \<longleftrightarrow>
    hashSource (''() => 0'' @ '':'') = hashSource (src @ '':'' @ h)"
  using assms
  by (simp add: runKey_def taskInput_def runnerFor_def primeSpec_def clientSpec_def contextHash_def nullish_def
      buildCacheKey_def Let_def del: append_Cons split: option.splits)


text \<open>No call of \<open>x => x\<close> without a context finds the primed isolate.\<close>

lemma prime_reused_iff_witness:
  "runKey 5 (runnerFor (primeSpec loopbackPool sampleEnvelope) []) (taskInput (primeSpec loopbackPool sampleEnvelope) [] sampleEnvelope [] 0 None) 0 \<noteq>
   runKey 9 (runnerFor (plainSpec loopbackPool ''x => x'' sampleEnvelope None) [])
     (taskInput (plainSpec loopbackPool ''x => x'' sampleEnvelope None) [] sampleEnvelope [] 0 None) 0"
proof -
  have s: "nullish (coCacheKeyStrategy (poClient (plOpts loopbackPool))) Stable = Stable"
    by (simp add: loopbackPool_def samplePool_def samplePoolOptions_def sampleClient_def nullish_def)
  have f: "sbFreshIsolate noSubmitOptions = False" by (simp add: noSubmitOptions_def)
  have c: "contextHash (mergeContext (coContext (poClient (plOpts loopbackPool))) (sbContext noSubmitOptions)) = Inr []"
    by (simp add: loopbackPool_def samplePool_def samplePoolOptions_def sampleClient_def noSubmitOptions_def
        mergeContext_def contextHash_def)
  have "hashSource (''() => 0'' @ '':'') \<noteq> hashSource (''x => x'' @ '':'' @ [])"
    by (simp add: hashSource_def djb2Step_def push_bit_eq_mult renderBase.simps digitChar_def)
  then show ?thesis using prime_reused_iff [OF s f c] by blast
qed

end
