(* ===== verification/CancelHooks.thy ===== *)
theory CancelHooks
  imports Cancel
begin

text \<open>
  The listeners of cancel tokens (\<open>src/api/cancel.ts\<close>): \<open>onCancel\<close>, the \<open>cancelled\<close> promise,
  \<open>fromAbortSignal\<close> with its abort listener and its microtask, and the disposal. The tokens are those of
  \<open>Cancel\<close>; listeners are numbered in the order of their registration, and a delivery is the number of
  the listener with the reason it gets. Hooks do not cancel, register or dispose themselves.
\<close>

section \<open>Who fires\<close>

text \<open>The tokens that a \<open>cancel\<close> aborts, in the order in which their abort events are dispatched.\<close>

function abortOrder :: "string option \<Rightarrow> nat list \<Rightarrow> tokens \<Rightarrow> nat list" where
  "abortOrder reason [] h = []"
| "abortOrder reason (i # stack) h =
     (if length h \<le> i \<or> ctAborted (h ! i) then abortOrder reason stack h
      else i # abortOrder reason (ctChildren (h ! i) @ stack) (abortOne reason i h))"
  by pat_completeness auto
termination
proof (relation "inv_image (less_than <*lex*> less_than) (\<lambda>(r, stack, h). (live h, length stack))", goal_cases)
  case (3 reason i stack h)
  then show ?case using live_abortOne [of i h reason] by simp
qed auto

record HookState =
  hkTokens :: tokens
  hkReg :: "nat list"
  hkAttached :: "(nat \<times> nat) list"
  hkFired :: "(nat \<times> string option) list"
  hkSources :: "string option option list"
  hkLinks :: "(nat \<times> nat) list"
  hkMicro :: "(nat \<times> string option) list"

definition firedBy :: "(nat \<times> nat) list \<Rightarrow> string option \<Rightarrow> nat list \<Rightarrow> (nat \<times> string option) list" where
  "firedBy attached r order = concat (map (\<lambda>k. map (\<lambda>(t, l). (l, r)) (filter (\<lambda>(t, l). t = k) attached)) order)"

definition hookedCancel :: "nat \<Rightarrow> string option \<Rightarrow> HookState \<Rightarrow> HookState" where
  "hookedCancel i r s =
     (let order = abortOrder r [i] (hkTokens s) in
      s\<lparr>hkTokens := cancel i r (hkTokens s),
        hkFired := hkFired s @ firedBy (hkAttached s) r order,
        hkAttached := filter (\<lambda>(t, l). t \<notin> set order) (hkAttached s)\<rparr>)"

definition onCancel :: "nat \<Rightarrow> HookState \<Rightarrow> HookState" where
  "onCancel k s =
     (let l = length (hkReg s); s' = s\<lparr>hkReg := hkReg s @ [k]\<rparr> in
      if ctAborted (hkTokens s ! k) then s'\<lparr>hkFired := hkFired s @ [(l, ctRawReason (hkTokens s ! k))]\<rparr>
      else s'\<lparr>hkAttached := hkAttached s @ [(k, l)]\<rparr>)"

text \<open>The getter \<open>cancelled\<close>: a promise that is one more listener; a delivery rejects it.\<close>

definition cancelledPromise :: "nat \<Rightarrow> HookState \<Rightarrow> HookState" where
  "cancelledPromise k s = onCancel k s"

definition cancelledError :: "string option \<Rightarrow> ParallelError" where
  "cancelledError rawReason = CancelledError rawReason None"

text \<open>\<open>fromAbortSignal\<close>: a signal that is aborted already cancels in a microtask, any other one by a listener.\<close>

definition fromAbortSignal :: "nat \<Rightarrow> HookState \<Rightarrow> HookState" where
  "fromAbortSignal src s =
     (case newToken (hkTokens s) of (t, h) \<Rightarrow>
        case hkSources s ! src of
          Some r \<Rightarrow> s\<lparr>hkTokens := h, hkMicro := hkMicro s @ [(t, r)]\<rparr>
        | None \<Rightarrow> s\<lparr>hkTokens := h, hkLinks := hkLinks s @ [(src, t)]\<rparr>)"

definition runMicrotask :: "HookState \<Rightarrow> HookState" where
  "runMicrotask s = (case hkMicro s of [] \<Rightarrow> s | (t, r) # m \<Rightarrow> hookedCancel t r (s\<lparr>hkMicro := m\<rparr>))"

definition sourceAborts :: "nat \<Rightarrow> string option \<Rightarrow> HookState \<Rightarrow> HookState" where
  "sourceAborts src r s =
     fold (\<lambda>(x, t) s'. hookedCancel t r s') (filter (\<lambda>(x, t). x = src) (hkLinks s))
       (s\<lparr>hkSources := (hkSources s)[src := Some r], hkLinks := filter (\<lambda>(x, t). x \<noteq> src) (hkLinks s)\<rparr>)"

definition asyncDispose :: "nat \<Rightarrow> HookState \<Rightarrow> HookState" where
  "asyncDispose i s =
     s\<lparr>hkLinks := filter (\<lambda>(x, t). t \<noteq> i) (hkLinks s),
       hkTokens := (hkTokens s)[i := (hkTokens s ! i)\<lparr>ctChildren := []\<rparr>]\<rparr>"

definition newHooks :: "nat \<Rightarrow> HookState" where
  "newHooks sources = \<lparr>hkTokens = [], hkReg = [], hkAttached = [], hkFired = [],
     hkSources = replicate sources None, hkLinks = [], hkMicro = []\<rparr>"

inductive hookReach :: "nat \<Rightarrow> HookState \<Rightarrow> bool" for n where
  start: "hookReach n (newHooks n)"
| token: "hookReach n s \<Longrightarrow> hookReach n (s\<lparr>hkTokens := snd (newToken (hkTokens s))\<rparr>)"
| child: "hookReach n s \<Longrightarrow> p < length (hkTokens s) \<Longrightarrow> hookReach n (s\<lparr>hkTokens := snd (childToken p (hkTokens s))\<rparr>)"
| adapt: "hookReach n s \<Longrightarrow> src < length (hkSources s) \<Longrightarrow> hookReach n (fromAbortSignal src s)"
| listen: "hookReach n s \<Longrightarrow> k < length (hkTokens s) \<Longrightarrow> hookReach n (onCancel k s)"
| promise: "hookReach n s \<Longrightarrow> k < length (hkTokens s) \<Longrightarrow> hookReach n (cancelledPromise k s)"
| cancel: "hookReach n s \<Longrightarrow> hookReach n (hookedCancel i r s)"
| microtask: "hookReach n s \<Longrightarrow> hookReach n (runMicrotask s)"
| source: "hookReach n s \<Longrightarrow> hookReach n (sourceAborts src r s)"
| dispose: "hookReach n s \<Longrightarrow> hookReach n (asyncDispose i s)"

section \<open>Lemmas\<close>

lemma set_abortOrder:
  assumes "wfTokens h"
  shows "set (abortOrder r stack h) = {k. k < length h \<and> \<not> ctAborted (h ! k) \<and> ctAborted (cancelTokens r stack h ! k)} \<and>
    distinct (abortOrder r stack h)"
  using assms
proof (induction r stack h rule: abortOrder.induct)
  case (2 reason i stack h)
  show ?case
  proof (cases "length h \<le> i \<or> ctAborted (h ! i)")
    case True
    then show ?thesis using 2(1) [OF True 2(3)] by auto
  next
    case False
    let ?h = "abortOne reason i h" and ?stack = "ctChildren (h ! i) @ stack"
    have i: "i < length h" "\<not> ctAborted (h ! i)" using False by auto
    have ab: "ctAborted (?h ! k) = (k = i \<or> ctAborted (h ! k))" if "k < length h" for k
      using nth_abortOne [OF that, of reason i] by simp
    have "ctAborted (cancelTokens reason ?stack ?h ! i)"
      using cancelTokens_exact [OF wfTokens_abortOne [OF 2(3)], of i reason i reason ?stack] ab [OF i(1)] i by simp
    then show ?thesis using 2(2) [OF False wfTokens_abortOne [OF 2(3)]] i ab by auto
  qed
qed simp

lemma wfTokens_update: "wfTokens h \<Longrightarrow> wfTokens (h[i := (h ! i)\<lparr>ctChildren := []\<rparr>])"
  by (cases "i < length h") (auto simp: wfTokens_def list_all_length nth_list_update)

text \<open>The listeners of a state: attached ones wait at a live token, the others have been served, once each.\<close>

definition hookInv :: "HookState \<Rightarrow> bool" where
  "hookInv s \<longleftrightarrow> wfTokens (hkTokens s) \<and>
     list_all (\<lambda>k. k < length (hkTokens s)) (hkReg s) \<and>
     list_all (\<lambda>(t, l). l < length (hkReg s) \<and> hkReg s ! l = t \<and> \<not> ctAborted (hkTokens s ! t)) (hkAttached s) \<and>
     list_all (\<lambda>(l, r). l < length (hkReg s) \<and> poll (hkReg s ! l) (hkTokens s) = (True, r)) (hkFired s) \<and>
     distinct (map fst (hkFired s) @ map snd (hkAttached s)) \<and>
     set (map fst (hkFired s) @ map snd (hkAttached s)) = {..<length (hkReg s)}"

lemma set_firedBy: "set (firedBy ls r order) = {(l, r) | l t. (t, l) \<in> set ls \<and> t \<in> set order}"
  by (auto simp: firedBy_def)

lemma distinct_snd: "distinct (map snd xs) \<Longrightarrow> (t, l) \<in> set xs \<Longrightarrow> (t', l) \<in> set xs \<Longrightarrow> t = t'"
  by (force simp: distinct_map inj_on_def)

lemma fst_firedBy: "map fst (firedBy ls r order) = concat (map (\<lambda>k. map snd (filter (\<lambda>(t, l). t = k) ls)) order)"
  by (induction order) (simp_all add: firedBy_def comp_def case_prod_unfold)

lemma distinct_firedBy: "distinct order \<Longrightarrow> distinct (map snd ls) \<Longrightarrow> distinct (map fst (firedBy ls r order))"
  unfolding fst_firedBy
  by (induction order) (auto simp: distinct_map_filter dest: distinct_snd)

lemma cancel_poll:
  assumes "wfTokens h" "t < length h"
  shows "poll t (cancel i r h) = (if t \<in> set (abortOrder r [i] h) then (True, r) else poll t h)"
  using cancelTokens_exact [OF assms, of r "[i]"] set_abortOrder [OF assms(1), of r "[i]"] assms(2)
  by (auto simp: poll_def cancel_def)

lemma length_cancel [simp]: "wfTokens h \<Longrightarrow> length (cancel i r h) = length h"
  using cancelTokens_exact [of h 0 r "[i]"] by (cases "h = []") (auto simp: cancel_def)

lemma hookedCancel_inv: "hookInv s \<Longrightarrow> hookInv (hookedCancel i r s)"
proof -
  assume inv: "hookInv s"
  let ?h = "hkTokens s" and ?order = "abortOrder r [i] (hkTokens s)"
  have wf: "wfTokens ?h" using inv by (simp add: hookInv_def)
  have at: "(t, l) \<in> set (hkAttached s) \<Longrightarrow> t < length ?h \<and> l < length (hkReg s) \<and> hkReg s ! l = t \<and> \<not> ctAborted (?h ! t)" for t l
    using inv by (auto simp: hookInv_def list_all_iff)
  have ab: "poll t (cancel i r ?h) = poll t ?h" if "t < length ?h" "ctAborted (?h ! t)" for t
    using that cancel_poll [OF wf that(1), of i r] set_abortOrder [OF wf, of r "[i]"] by auto
  have old: "l < length (hkReg s) \<and> poll (hkReg s ! l) (cancel i r ?h) = (True, x)" if "(l, x) \<in> set (hkFired s)" for l x
  proof -
    have f: "l < length (hkReg s)" "poll (hkReg s ! l) ?h = (True, x)" "hkReg s ! l < length ?h"
      using inv that by (auto simp: hookInv_def list_all_iff)
    then show ?thesis using ab [of "hkReg s ! l"] by (simp add: poll_def)
  qed
  have new: "l < length (hkReg s) \<and> poll (hkReg s ! l) (cancel i r ?h) = (True, x)"
    if f: "(l, x) \<in> set (firedBy (hkAttached s) r ?order)" for l x
  proof -
    obtain t where "(t, l) \<in> set (hkAttached s)" "t \<in> set ?order" "x = r" using f by (auto simp: set_firedBy)
    then show ?thesis using at [of t l] cancel_poll [OF wf, of t i r] by auto
  qed
  have fired: "list_all (\<lambda>(l, x). l < length (hkReg s) \<and> poll (hkReg s ! l) (cancel i r ?h) = (True, x))
      (hkFired s @ firedBy (hkAttached s) r ?order)"
    using old new by (auto simp: list_all_iff)
  have attached: "list_all (\<lambda>(t, l). l < length (hkReg s) \<and> hkReg s ! l = t \<and> \<not> ctAborted (cancel i r ?h ! t))
      (filter (\<lambda>(t, l). t \<notin> set ?order) (hkAttached s))"
  proof -
    have "\<not> ctAborted (cancel i r ?h ! t)" if "(t, l) \<in> set (hkAttached s)" "t \<notin> set ?order" for t l
      using at [OF that(1)] that(2) cancel_poll [OF wf, of t i r] by (simp add: poll_def)
    then show ?thesis using at by (auto simp: list_all_iff simp del: abortOrder.simps)
  qed
  let ?kept = "filter (\<lambda>(t, l). t \<notin> set ?order) (hkAttached s)"
  have sets: "set (map fst (firedBy (hkAttached s) r ?order)) \<union> set (map snd ?kept) = set (map snd (hkAttached s))"
    by (force simp: set_firedBy)
  have d: "distinct (map snd (hkAttached s))" using inv by (simp add: hookInv_def)
  then have "set (map fst (firedBy (hkAttached s) r ?order)) \<inter> set (map snd ?kept) = {}"
    by (auto simp: set_firedBy dest: distinct_snd)
  moreover have "distinct (map fst (firedBy (hkAttached s) r ?order))"
    using distinct_firedBy d set_abortOrder [OF wf] by blast
  moreover have "distinct (map snd ?kept)" using d by (simp add: distinct_map_filter)
  ultimately have "distinct (map fst (hkFired s @ firedBy (hkAttached s) r ?order) @ map snd ?kept)"
    "set (map fst (hkFired s @ firedBy (hkAttached s) r ?order) @ map snd ?kept) = {..<length (hkReg s)}"
    using inv sets unfolding hookInv_def map_append distinct_append set_append by blast+
  then show ?thesis using inv fired attached wf wfTokens_cancel [OF wf]
    by (simp add: hookedCancel_def Let_def hookInv_def)
qed

lemma hookedCancel_regs [simp]:
  "hkReg (hookedCancel i r s) = hkReg s" "hkSources (hookedCancel i r s) = hkSources s"
  "wfTokens (hkTokens s) \<Longrightarrow> length (hkTokens (hookedCancel i r s)) = length (hkTokens s)"
  by (simp_all add: hookedCancel_def Let_def)

lemma onCancel_inv: "hookInv s \<Longrightarrow> k < length (hkTokens s) \<Longrightarrow> hookInv (onCancel k s)"
  by (auto simp: onCancel_def hookInv_def Let_def list_all_iff nth_append poll_def lessThan_Suc)

text \<open>Tokens may be added and may lose or gain children, as long as no state of a token changes.\<close>

lemma hookInv_tokens:
  assumes "hookInv s" "wfTokens h" "length (hkTokens s) \<le> length h"
    and "\<And>k. k < length (hkTokens s) \<Longrightarrow> poll k h = poll k (hkTokens s)"
  shows "hookInv (s\<lparr>hkTokens := h\<rparr>)"
proof -
  have "t < length (hkTokens s)" if "l < length (hkReg s)" "t = hkReg s ! l" for t l
    using assms(1) that by (auto simp: hookInv_def list_all_length)
  then show ?thesis using assms
    by (fastforce simp: hookInv_def list_all_iff poll_def)
qed

lemma hookInv_other [simp]:
  "hookInv (s\<lparr>hkLinks := l\<rparr>) = hookInv s" "hookInv (s\<lparr>hkMicro := m\<rparr>) = hookInv s"
  "hookInv (s\<lparr>hkSources := x\<rparr>) = hookInv s"
  by (simp_all add: hookInv_def)

lemma poll_child: "k < length h \<Longrightarrow> p < length h \<Longrightarrow> wfTokens h \<Longrightarrow> poll k (snd (childToken p h)) = poll k h"
proof -
  assume k: "k < length h" and p: "p < length h" and wf: "wfTokens h"
  have "wfTokens (h @ [freshToken])" using wfTokens_new [OF wf] by (simp add: newToken_def)
  moreover have "abortOrder r [length h] (h @ [freshToken]) = [length h]" for r
    by (simp add: nth_append freshToken_def)
  ultimately have "poll k (cancel (length h) r (h @ [freshToken])) = poll k (h @ [freshToken])" for r
    using cancel_poll [of "h @ [freshToken]" k "length h" r] k by simp
  then show ?thesis using k p
    by (simp add: childToken_def newToken_def poll_def nth_append nth_list_update)
qed

lemma length_child: "wfTokens h \<Longrightarrow> length (snd (childToken p h)) = Suc (length h)"
  using wfTokens_new [of h] by (simp add: childToken_def newToken_def)

lemma sourceAborts_inv: "hookInv s \<Longrightarrow> hookInv (sourceAborts src r s)"
proof -
  have "hookInv s \<Longrightarrow> hookInv (fold (\<lambda>(x, t) s'. hookedCancel t r s') xs s)" for xs s
    by (induction xs arbitrary: s) (auto intro: hookedCancel_inv)
  note * = this
  show "hookInv s \<Longrightarrow> hookInv (sourceAborts src r s)" unfolding sourceAborts_def by (rule *) simp
qed

lemma hookReach_inv: "hookReach n s \<Longrightarrow> hookInv s"
proof (induction rule: hookReach.induct)
  case start
  show ?case by (simp add: hookInv_def newHooks_def wfTokens_def)
next
  case (token s)
  then show ?case using wfTokens_new [of "hkTokens s"]
    by (intro hookInv_tokens) (auto simp: newToken_def poll_def nth_append hookInv_def)
next
  case (child s p)
  then show ?case using wfTokens_child [of "hkTokens s" p]
    by (intro hookInv_tokens) (auto simp: hookInv_def poll_child length_child)
next
  case (adapt s src)
  then have "hookInv (s\<lparr>hkTokens := snd (newToken (hkTokens s))\<rparr>)" using wfTokens_new [of "hkTokens s"]
    by (intro hookInv_tokens) (auto simp: newToken_def poll_def nth_append hookInv_def)
  then show ?case by (auto simp: fromAbortSignal_def newToken_def hookInv_def split: option.splits)
next
  case (microtask s)
  then show ?case by (auto simp: runMicrotask_def split: list.splits intro: hookedCancel_inv)
next
  case (dispose s i)
  have "poll k ((hkTokens s)[i := (hkTokens s ! i)\<lparr>ctChildren := []\<rparr>]) = poll k (hkTokens s)" for k
    by (cases "i < length (hkTokens s)"; cases "k = i") (auto simp: poll_def list_update_beyond)
  then have "hookInv (s\<lparr>hkTokens := (hkTokens s)[i := (hkTokens s ! i)\<lparr>ctChildren := []\<rparr>]\<rparr>)"
    using dispose wfTokens_update [of "hkTokens s" i] by (intro hookInv_tokens) (auto simp: hookInv_def)
  then show ?case by (simp add: asyncDispose_def hookInv_def)
qed (auto simp: cancelledPromise_def intro: hookedCancel_inv onCancel_inv sourceAborts_inv)

text \<open>
  C38. Whatever sequence of cancels, children, adapted signals, timers and disposals leads to a state,
  every listener that was ever registered on a token has been served exactly once, with the token's
  first reason, if the token is cancelled, and not at all if it is not; a \<open>cancelled\<close> promise rejects
  under the same condition.
\<close>

theorem listeners_served_once:
  assumes "hookReach n s" "l < length (hkReg s)"
  shows "filter (\<lambda>(l', r). l' = l) (hkFired s) =
     (case poll (hkReg s ! l) (hkTokens s) of (True, r) \<Rightarrow> [(l, r)] | (False, r) \<Rightarrow> [])"
proof -
  have inv: "hookInv s" by (rule hookReach_inv [OF assms(1)])
  have fired: "poll (hkReg s ! l) (hkTokens s) = (True, r)" if "(l, r) \<in> set (hkFired s)" for r
    using inv that by (auto simp: hookInv_def list_all_iff)
  have dist: "distinct (map fst (hkFired s))" using inv by (simp add: hookInv_def)
  show ?thesis
  proof (cases "l \<in> set (map fst (hkFired s))")
    case True
    then obtain r where r: "(l, r) \<in> set (hkFired s)" by auto
    have "filter (\<lambda>(l', r). l' = l) xs = [(l, r)]" if "distinct (map fst xs)" "(l, r) \<in> set xs" for xs :: "(nat \<times> string option) list"
      using that by (induction xs) (auto simp: filter_empty_conv rev_image_eqI)
    then show ?thesis using r fired [OF r] dist by simp
  next
    case False
    then have "l \<in> snd ` set (hkAttached s)" using inv assms(2) by (auto simp: hookInv_def)
    then have "\<not> ctAborted (hkTokens s ! (hkReg s ! l))" using inv by (auto simp: hookInv_def list_all_iff)
    moreover have "filter (\<lambda>(l', r). l' = l) (hkFired s) = []" using False by (force simp: filter_empty_conv)
    ultimately show ?thesis by (simp add: poll_def)
  qed
qed

text \<open>A parent with a child, a listener on the child, and a promise of the parent after its cancellation.\<close>

lemma listeners_served_once_witness:
  "hkFired (cancelledPromise 0 (hookedCancel 0 (Some ''bye'') (onCancel 1 (newHooks 0\<lparr>hkTokens := snd (childToken 0 (snd (newToken [])))\<rparr>)))) =
     [(0, Some ''bye''), (1, Some ''bye'')]"
  (is "hkFired ?s = _")
proof -
  have "hookReach 0 (newHooks 0\<lparr>hkTokens := snd (newToken [])\<rparr>)"
    using hookReach.token [OF hookReach.start, of 0] by (simp add: newHooks_def)
  from hookReach.child [OF this, of 0]
  have "hookReach 0 (newHooks 0\<lparr>hkTokens := snd (childToken 0 (snd (newToken [])))\<rparr>)" by (simp add: newToken_def)
  note l = hookReach.listen [OF this, of 1]
  have "1 < length (snd (childToken 0 (snd (newToken []))))" by code_simp
  then have "hookReach 0 (hookedCancel 0 (Some ''bye'') (onCancel 1 (newHooks 0\<lparr>hkTokens := snd (childToken 0 (snd (newToken [])))\<rparr>)))"
    using l by (intro hookReach.cancel) simp
  moreover have "0 < length (hkTokens (hookedCancel 0 (Some ''bye'') (onCancel 1 (newHooks 0\<lparr>hkTokens := snd (childToken 0 (snd (newToken [])))\<rparr>))))"
    by code_simp
  ultimately have s: "hookReach 0 ?s" by (rule hookReach.promise)
  have e: "hkFired ?s = [(0, Some ''bye''), (1, Some ''bye'')]" by code_simp
  have n: "1 < length (hkReg ?s)" by code_simp
  show ?thesis using listeners_served_once [OF s n] e by simp
qed

text \<open>
  Disposing of a parent cuts its children off: a later cancel of the parent no longer reaches them.
  Disposing of an adapter of a signal that was aborted already does not keep it from being cancelled.
\<close>

lemma disposed_parent_forgets:
  "map ctAborted (hkTokens (hookedCancel 0 None (asyncDispose 0 (newHooks 0\<lparr>hkTokens := snd (childToken 0 (snd (newToken [])))\<rparr>)))) =
     [True, False]"
  by code_simp

lemma disposed_adapter_cancels:
  "map ctAborted (hkTokens (runMicrotask (asyncDispose 0 (fromAbortSignal 0 (newHooks 1\<lparr>hkSources := [Some None]\<rparr>))))) = [True]"
  by code_simp

end
