(* ===== verification/LoaderOnly.thy ===== *)
theory LoaderOnly
  imports Pool
begin

text \<open>
  The pool without durable objects (\<open>src/api/loader-only-pool.ts\<close>): every task is a dispatch of a local
  runner. Its \<open>map\<close>, \<open>scatter\<close> and \<open>pmap\<close> give each item the slot of its index; \<open>map\<close> and \<open>scatter\<close> run under
  the worker pool of \<open>FanOut\<close>. The options are those of a client; when the dispatch of a slot settles and
  with which jitter its retries wait are parameters.
\<close>

section \<open>Construction\<close>

text \<open>The options of the runner: without an outbound policy of its own the pool is cut off.\<close>

definition loaderOnlyWorkerOptions :: "ClientOptions \<Rightarrow> WorkerOptions" where
  "loaderOnlyWorkerOptions co =
     (let w = nullish (coWorkerOptions co) emptyWorkerOptions in
      w\<lparr>woGlobalOutbound :=
          (if coGlobalOutbound co \<noteq> OutAbsent then coGlobalOutbound co
           else if coWorkerOptions co \<noteq> None \<and> woGlobalOutbound w \<noteq> OutAbsent then woGlobalOutbound w
           else OutNull),
        woLimits := (if coLimits co = None then woLimits w else coLimits co)\<rparr>)"

definition newLoaderOnly :: "PoolEnv \<Rightarrow> ClientOptions \<Rightarrow> ParallelError + RunnerOptions" where
  "newLoaderOnly env co =
     (if \<not> peLoader env then Inl (loaderMissing ''Parallel.loaderOnly()'')
      else Inr \<lparr>roCallSite = FetchHandler, roCacheKeyStrategy = nullish (coCacheKeyStrategy co) Stable,
                roWorkerOptions = Some (loaderOnlyWorkerOptions co), roAllowList = None\<rparr>)"

section \<open>One dispatch\<close>

definition loaderOnlyInput :: "ClientOptions \<Rightarrow> string \<Rightarrow> SubmitOptions \<Rightarrow> RpcEnvelope \<Rightarrow> rval list \<Rightarrow> nat \<Rightarrow> RunOneInput" where
  "loaderOnlyInput co fnSource opts envelope args slot =
     \<lparr>riFnSource = fnSource, riFnHash = hashSource fnSource,
      riContext = mergeContext (coContext co) (sbContext opts), riBindings = coBindings co,
      riEnvelope = envelope, riArgs = args, riFreshIsolate = sbFreshIsolate opts, riTaskSlot = Some slot,
      riCancelStream = None, riState = None\<rparr>"

text \<open>\<open>counter\<close> is the sequence number of fresh cache keys when attempt \<open>k\<close> starts.\<close>

definition runOnce :: "loadFn \<Rightarrow> string option \<Rightarrow> (nat \<Rightarrow> int \<Rightarrow> int option) \<Rightarrow> (nat \<Rightarrow> rat) \<Rightarrow> (nat \<Rightarrow> nat) \<Rightarrow>
    RunnerOptions \<Rightarrow> ClientOptions \<Rightarrow> int \<Rightarrow> string \<Rightarrow> rval list \<Rightarrow> SubmitOptions \<Rightarrow> nat \<Rightarrow>
    ParallelError + rval dispatched" where
  "runOnce load cpu settlesAt jitter counter runner co now fnSource args opts slot =
     bindE (callEnvelope now PoolFn opts) (\<lambda>envelope.
       Inr (snd (dispatchWithResilience cpu
         (\<lambda>attempt t. (settlesAt attempt t,
            (case fst (runWithMode load cpu t runner (loaderOnlyInput co fnSource opts envelope args slot) PoolFn
                         (counter attempt)) of
               Inr v \<Rightarrow> Inr v | Inl e \<Rightarrow> Inl (Lib e))))
         jitter (callDispatchOptions co opts envelope) now)))"

section \<open>Combinators\<close>

text \<open>
  \<open>run slot args\<close> is how the dispatch of a slot settles; \<open>allSettled\<close> is what \<open>Promise.all\<close> returns when each
  promise settles: the values in order or one of the errors, here the one of the smallest index.
\<close>

fun promiseAll :: "('e + 'a) list \<Rightarrow> 'e + 'a list" where
  "promiseAll [] = Inr []"
| "promiseAll (Inl e # rs) = Inl e"
| "promiseAll (Inr v # rs) = bindE (promiseAll rs) (\<lambda>vs. Inr (v # vs))"

text \<open>The promises of a round of \<open>reduce\<close>; slots count the pairs.\<close>

fun reduceRound :: "(nat \<Rightarrow> 'a \<times> 'a \<Rightarrow> 'e + 'a) \<Rightarrow> nat \<Rightarrow> 'a list \<Rightarrow> ('e + 'a) list" where
  "reduceRound run slot (a # b # xs) = run slot (a, b) # reduceRound run (Suc slot) xs"
| "reduceRound run slot [a] = [Inr a]"
| "reduceRound run slot [] = []"

lemma length_reduceRound: "length (reduceRound run slot xs) = (length xs + 1) div 2"
  by (induction run slot xs rule: reduceRound.induct) auto

lemma length_promiseAll: "promiseAll rs = Inr vs \<Longrightarrow> length vs = length rs"
proof (induction rs arbitrary: vs rule: promiseAll.induct)
  case (3 v rs)
  then show ?case by (cases "promiseAll rs") auto
qed auto

function loaderOnlyRounds :: "(nat \<Rightarrow> 'a \<times> 'a \<Rightarrow> 'e + 'a) \<Rightarrow> 'a list \<Rightarrow> 'e + 'a" where
  "loaderOnlyRounds run current =
     (if length current \<le> 1 then Inr (hd current)
      else case promiseAll (reduceRound run 0 current) of
             Inl e \<Rightarrow> Inl e
           | Inr settled \<Rightarrow> loaderOnlyRounds run settled)"
  by pat_completeness auto
termination
proof (relation "measure (\<lambda>(run, xs). length xs)")
  fix run :: "nat \<Rightarrow> 'a \<times> 'a \<Rightarrow> 'e + 'a" and current settled
  assume "\<not> length current \<le> 1" "promiseAll (reduceRound run 0 current) = Inr settled"
  then show "((run, settled), run, current) \<in> measure (\<lambda>(run, xs). length xs)"
    using length_promiseAll [of "reduceRound run 0 current" settled] by (simp add: length_reduceRound)
qed simp

declare loaderOnlyRounds.simps [simp del]

definition loaderOnlyReduce :: "(nat \<Rightarrow> 'a \<times> 'a \<Rightarrow> 'e + 'a) \<Rightarrow> 'a list \<Rightarrow> 'a \<Rightarrow> 'e + 'a" where
  "loaderOnlyReduce run items initial =
     (if items = [] then Inr initial else loaderOnlyRounds run (initial # items))"

text \<open>\<open>map\<close>: the reachable states of its worker pool.\<close>

definition loaderOnlyMap :: "nat \<Rightarrow> int option \<Rightarrow> OnErrorStrategy \<Rightarrow> (nat \<Rightarrow> thrown + 'r) \<Rightarrow> 'r FanState \<Rightarrow> bool" where
  "loaderOnlyMap n concurrency onError run st \<longleftrightarrow>
     fanReach n (workerCount (nullish concurrency (int n)) n) onError run st"

definition loaderOnlyScatter :: "nat \<Rightarrow> OnErrorStrategy \<Rightarrow> (nat \<Rightarrow> thrown + 'r) \<Rightarrow> 'r FanState \<Rightarrow> bool" where
  "loaderOnlyScatter n onError run st \<longleftrightarrow> fanReach n (workerCount (int n) n) onError run st"

definition loaderOnlyPmap :: "(nat \<Rightarrow> 'a list \<Rightarrow> 'e + 'b list) \<Rightarrow> 'a list \<Rightarrow> int option \<Rightarrow> ('e + 'b list) option" where
  "loaderOnlyPmap run items k =
     (if items = [] then Some (Inr [])
      else map_option (\<lambda>parts. bindE (promiseAll (map (\<lambda>(idx, c). run idx c) (enumerate 0 parts)))
        (\<lambda>rs. Inr (concat rs))) (pmapBatches items k))"

section \<open>Lemmas\<close>

lemma reduceRound_settles:
  "promiseAll (reduceRound run slot xs) =
     bindE (promiseAll (map (\<lambda>(i, p). run i p) (enumerate slot (validPairs (pairsOf xs)))))
       (\<lambda>rs. Inr (nextRound (pairsOf xs) rs))"
proof (induction run slot xs rule: reduceRound.induct)
  case (1 run slot a b xs)
  let ?rest = "promiseAll (map (\<lambda>(i, p). run i p) (enumerate (Suc slot) (validPairs (pairsOf xs))))"
  show ?case using 1
    by (cases "run slot (a, b)"; cases ?rest) (simp_all add: validPairs_def List.map_filter_simps)
qed (simp_all add: validPairs_def List.map_filter_simps)

section \<open>Properties\<close>

text \<open>
  The two implementations of \<open>reduce\<close> agree: the loader-only pool, which resolves carried values in
  the round itself, computes what the pool computes with a fan-out over the pairs of the round that runs
  pair \<open>i\<close> in slot \<open>i\<close> and fails like \<open>Promise.all\<close>.
\<close>

theorem reduce_agrees:
  "loaderOnlyReduce run items initial =
     poolReduce (\<lambda>ps. promiseAll (map (\<lambda>(i, p). run i p) (enumerate 0 ps))) items initial"
proof -
  let ?fan = "\<lambda>ps. promiseAll (map (\<lambda>(i, p). run i p) (enumerate 0 ps))"
  have "loaderOnlyRounds run xs = reduceRounds ?fan xs" for xs
  proof (induction run xs rule: loaderOnlyRounds.induct)
    case (1 run current)
    show ?case
    proof (cases "length current \<le> 1")
      case False
      show ?thesis
        using 1 False
        by (subst loaderOnlyRounds.simps, subst reduceRounds.simps)
          (auto simp: reduceRound_settles split: sum.splits)
    qed (simp add: loaderOnlyRounds.simps reduceRounds.simps)
  qed
  then show ?thesis by (simp add: loaderOnlyReduce_def poolReduce_def)
qed

text \<open>
  Code on a loader-only pool is cut off from the network unless an outbound policy is given: the
  isolate inherits the network only if \<open>globalOutbound\<close> is explicitly \<open>undefined\<close>, and a service stub
  reaches it unchanged, since nothing crosses the wire.
\<close>

theorem loader_only_network:
  assumes "newLoaderOnly env co = Inr runner" "isolateCode runner input mode = Inr code"
  shows "wcGlobalOutbound code =
    (let w = nullish (coWorkerOptions co) emptyWorkerOptions;
         out = (if coGlobalOutbound co \<noteq> OutAbsent then coGlobalOutbound co else woGlobalOutbound w) in
     case out of OutAbsent \<Rightarrow> OutNull | OutUndefined \<Rightarrow> OutAbsent | OutNull \<Rightarrow> OutNull | OutStub s \<Rightarrow> OutStub s)"
proof -
  have "roWorkerOptions runner = Some (loaderOnlyWorkerOptions co)"
    using assms(1) by (auto simp: newLoaderOnly_def split: if_splits)
  then show ?thesis using isolateCode_fields(2) [OF assms(2)]
    by (auto simp: loaderOnlyWorkerOptions_def Let_def emptyWorkerOptions_def split: outbound.splits option.splits)
qed

theorem loader_only_network_witness:
  "\<exists>runner code. newLoaderOnly \<lparr>peLoader = True, peCoordinator = False\<rparr> sampleClient = Inr runner \<and>
     isolateCode runner (loaderOnlyInput sampleClient ''x => x'' noSubmitOptions sampleEnvelope [] 0) PoolFn = Inr code \<and>
     wcGlobalOutbound code = OutNull"
proof -
  obtain runner where r: "newLoaderOnly \<lparr>peLoader = True, peCoordinator = False\<rparr> sampleClient = Inr runner"
    by (simp add: newLoaderOnly_def)
  obtain code where c: "isolateCode runner
      (loaderOnlyInput sampleClient ''x => x'' noSubmitOptions sampleEnvelope [] 0) PoolFn = Inr code"
    using isolateCode_no_context
      [of "loaderOnlyInput sampleClient ''x => x'' noSubmitOptions sampleEnvelope [] 0" runner PoolFn]
    by (auto simp: loaderOnlyInput_def sampleClient_def noSubmitOptions_def mergeContext_def)
  from loader_only_network [OF r c] show ?thesis using r c
    by (auto simp: sampleClient_def emptyWorkerOptions_def)
qed

end
