(* ===== verification/Actor.thy ===== *)
theory Actor
  imports Pool
begin

text \<open>
  Actors: the methods of the coordinator that keep the state of an actor in its storage
  (\<open>actorEnsureInitialized\<close>, \<open>actorSubmit\<close> and \<open>actorClose\<close> of \<open>src/coordinator/coordinator.ts\<close>) and the
  handle of the caller (\<open>src/api/actor.ts\<close>).

  \<open>actorSubmit\<close> awaits the runner between its read and its write of the state, and other requests reach
  the object meanwhile: the system below cuts it there. The storage is a pair of keys; a stored
  \<open>undefined\<close> is an absent one. The RPCs are not retried here: a retry is one more attempt.
\<close>

section \<open>The storage of an actor\<close>

record ActorStore =
  acState :: "rval option"
  acInit :: bool

definition freshStore :: ActorStore where
  "freshStore = \<lparr>acState = None, acInit = False\<rparr>"

definition emptyState :: rval where "emptyState = RObject 0 ''Object'' []"

text \<open>\<open>x ?? {}\<close>\<close>

fun orEmpty :: "rval option \<Rightarrow> rval" where
  "orEmpty None = emptyState"
| "orEmpty (Some RNull) = emptyState"
| "orEmpty (Some RUndef) = emptyState"
| "orEmpty (Some v) = v"

definition actorEnsureInitialized :: "rval option \<Rightarrow> ActorStore \<Rightarrow> ActorStore" where
  "actorEnsureInitialized initialState st =
     (if acInit st then st else st\<lparr>acState := Some (orEmpty initialState), acInit := True\<rparr>)"

definition actorClose :: "ActorStore \<Rightarrow> ActorStore" where
  "actorClose st = freshStore"

section \<open>One submit\<close>

definition actorInput :: "TaskSpec \<Rightarrow> jsenv \<Rightarrow> rval list \<Rightarrow> rval \<Rightarrow> RunOneInput" where
  "actorInput spec env args state =
     \<lparr>riFnSource = tsFnSource spec, riFnHash = tsFnHash spec, riContext = tsContext spec,
      riBindings = Some env, riEnvelope = (tsEnvelope spec)\<lparr>reMode := ActorClass\<rparr>, riArgs = args,
      riFreshIsolate = False, riTaskSlot = None, riCancelStream = None, riState = Some state\<rparr>"

definition runActor :: "Platform \<Rightarrow> string \<Rightarrow> nat list \<Rightarrow> TaskSpec \<Rightarrow> rval list \<Rightarrow> rval \<Rightarrow> ParallelError + rval" where
  "runActor pl name path spec args state =
     fst (runWithMode (plLoad pl name path) (plCpu pl) (plNow pl name path) (runnerFor spec (plEnv pl name))
       (actorInput spec (plEnv pl name) args state) ActorClass (plCounter pl name path))"

text \<open>\<open>result.state\<close> and \<open>result.value\<close>.\<close>

fun property :: "string \<Rightarrow> rval \<Rightarrow> thrown + rval" where
  "property key RNull = Inl (PlainError ''TypeError'' (''Cannot read properties of null (reading '' @ [CHR 0x27] @ key @ [CHR 0x27] @ '')'') None)"
| "property key RUndef = Inl (PlainError ''TypeError'' (''Cannot read properties of undefined (reading '' @ [CHR 0x27] @ key @ [CHR 0x27] @ '')'') None)"
| "property key (RObject i c fs) = Inr (nullish (map_of fs key) RUndef)"
| "property key v = Inr RUndef"

definition stored :: "rval \<Rightarrow> rval option" where
  "stored v = (if v = RUndef then None else Some v)"

text \<open>\<open>actorSubmit\<close> from the answer of the runner on.\<close>

definition actorFinish :: "ParallelError + rval \<Rightarrow> ActorStore \<Rightarrow> RunOneResult \<times> ActorStore" where
  "actorFinish answer st =
     (case answer of
        Inl e \<Rightarrow> (errorToFailedResult (Lib e), st)
      | Inr result \<Rightarrow>
          (case property ''state'' result of
             Inl t \<Rightarrow> (errorToFailedResult t, st)
           | Inr state \<Rightarrow>
               (case property ''value'' result of
                  Inl t \<Rightarrow> (errorToFailedResult t, st\<lparr>acState := stored state\<rparr>)
                | Inr v \<Rightarrow> (ROk v, st\<lparr>acState := stored state\<rparr>))))"

definition actorSubmit :: "Platform \<Rightarrow> string \<Rightarrow> nat list \<Rightarrow> TaskSpec \<Rightarrow> rval list \<Rightarrow> ActorStore \<Rightarrow>
    RunOneResult \<times> ActorStore" where
  "actorSubmit pl name path spec args st =
     actorFinish (runActor pl name path spec args (orEmpty (acState st))) st"

section \<open>The handle\<close>

record ActorOptions =
  aoId :: string
  aoInitialState :: "rval option"
  aoClient :: ClientOptions
  aoLocationHint :: "string option"
  aoRequestColo :: "string option"

record ActorHandle =
  ahOpts :: ActorOptions
  ahLocationHint :: "string option"
  ahInitialized :: bool

definition newActor :: "PoolEnv \<Rightarrow> ActorOptions \<Rightarrow> ParallelError + ActorHandle" where
  "newActor env opts =
     (if \<not> peLoader env then Inl (loaderMissing ''Parallel.actor()'')
      else if \<not> peCoordinator env then Inl (MissingBindingError ''CfpCoordinator'' None)
      else if aoId opts = [] then Inl (BindingError ''Parallel.actor() requires `opts.id`'' None)
      else Inr \<lparr>ahOpts = opts,
                ahLocationHint = (if aoLocationHint opts = None then locationHintForColo (aoRequestColo opts)
                                  else aoLocationHint opts),
                ahInitialized = False\<rparr>)"

definition actorName :: "ActorHandle \<Rightarrow> string" where
  "actorName h = ''actor:'' @ aoId (ahOpts h)"

text \<open>What a submit sends; the context of a call and \<open>freshIsolate\<close> do not reach an actor.\<close>

definition actorSpec :: "ClientOptions \<Rightarrow> string \<Rightarrow> RpcEnvelope \<Rightarrow> TaskSpec" where
  "actorSpec co fnSource envelope =
     \<lparr>tsFnSource = fnSource, tsFnHash = hashSource fnSource, tsContext = coContext co,
      tsCacheKeyStrategy = Some (nullish (coCacheKeyStrategy co) Stable),
      tsWorkerOptions = workerOptionsToWire (Some ((clientWorkerOptions co)\<lparr>woTailBindingName := None\<rparr>)),
      tsAllowList = bindingAllowList (coBindings co),
      tsEnvelope = envelope, tsFreshIsolate = False, tsCancelStream = None\<rparr>"

text \<open>
  A submit up to the settlement of its dispatch: \<open>attempt k t st\<close> says when and how the RPC
  \<open>actorSubmit\<close> of attempt \<open>k\<close> settles.
\<close>

definition handleSubmit :: "Platform \<Rightarrow> (nat \<Rightarrow> int \<Rightarrow> TaskSpec \<Rightarrow> RunOneResult settlement) \<Rightarrow> (nat \<Rightarrow> rat) \<Rightarrow>
    ActorHandle \<Rightarrow> string \<Rightarrow> SubmitOptions \<Rightarrow> int \<Rightarrow> ParallelError + (nat \<times> RunOneResult dispatched)" where
  "handleSubmit pl attempt jitter h fnSource opts now =
     bindE (callEnvelope now ActorClass opts)
       (\<lambda>envelope. Inr (dispatchWithResilience (plCpu pl)
          (\<lambda>k t. attempt k t (actorSpec (aoClient (ahOpts h)) fnSource envelope)) jitter
          (callDispatchOptions (aoClient (ahOpts h)) opts envelope) now))"

section \<open>Handles and submits interleaved\<close>

text \<open>
  \<open>syInit ! h\<close>: the flag \<open>#initialized\<close> of handle \<open>h\<close>. \<open>syOpen\<close>: the attempts that wait for the runner, each
  with the state it has read.
\<close>

record ActorSystem =
  syStore :: ActorStore
  syInit :: "bool list"
  syOpen :: "(nat \<times> rval) list"
  sySettled :: "(nat \<times> RunOneResult) list"

datatype actorEvent = Ensure nat | Begin nat nat | Finish nat | Close nat

definition newSystem :: "nat \<Rightarrow> ActorSystem" where
  "newSystem handles = \<lparr>syStore = freshStore, syInit = replicate handles False, syOpen = [], sySettled = []\<rparr>"

text \<open>
  \<open>initial\<close> is the \<open>initialState\<close> of the handles and \<open>answer k s\<close> what the runner answers to attempt \<open>k\<close> on
  the state \<open>s\<close>. \<open>Ensure h\<close>: the first half of a submit whose handle is not initialised. \<open>Begin h k\<close>: the
  RPC of an attempt arrives and reads the state.
\<close>

definition actorStep :: "rval option \<Rightarrow> (nat \<Rightarrow> rval \<Rightarrow> ParallelError + rval) \<Rightarrow> actorEvent \<Rightarrow> ActorSystem \<Rightarrow>
    ActorSystem option" where
  "actorStep initial answer ev sys =
     (case ev of
        Ensure h \<Rightarrow>
          if h < length (syInit sys) \<and> \<not> syInit sys ! h
          then Some (sys\<lparr>syStore := actorEnsureInitialized initial (syStore sys), syInit := (syInit sys)[h := True]\<rparr>)
          else None
      | Begin h k \<Rightarrow>
          if h < length (syInit sys) \<and> syInit sys ! h \<and> map_of (syOpen sys) k = None \<and> map_of (sySettled sys) k = None
          then Some (sys\<lparr>syOpen := (k, orEmpty (acState (syStore sys))) # syOpen sys\<rparr>)
          else None
      | Finish k \<Rightarrow>
          (case map_of (syOpen sys) k of
             None \<Rightarrow> None
           | Some s \<Rightarrow>
               (case actorFinish (answer k s) (syStore sys) of
                  (r, st) \<Rightarrow> Some (sys\<lparr>syStore := st, syOpen := AList.delete k (syOpen sys),
                                      sySettled := (k, r) # sySettled sys\<rparr>)))
      | Close h \<Rightarrow>
          if h < length (syInit sys)
          then Some (sys\<lparr>syStore := actorClose (syStore sys), syInit := (syInit sys)[h := False]\<rparr>)
          else None)"

fun actorRun :: "rval option \<Rightarrow> (nat \<Rightarrow> rval \<Rightarrow> ParallelError + rval) \<Rightarrow> actorEvent list \<Rightarrow> ActorSystem \<Rightarrow>
    ActorSystem option" where
  "actorRun initial answer [] sys = Some sys"
| "actorRun initial answer (ev # evs) sys =
     Option.bind (actorStep initial answer ev sys) (actorRun initial answer evs)"

section \<open>Lemmas\<close>

lemma actorStep_keeps_open:
  assumes "actorStep initial answer ev sys = Some sys'" "map_of (syOpen sys) k = Some s" "ev \<noteq> Finish k"
  shows "map_of (syOpen sys') k = Some s"
  using assms
  by (auto simp: actorStep_def delete_conv' split: actorEvent.splits if_splits option.splits prod.splits)

lemma actorStep_settled:
  assumes "actorStep initial answer ev sys = Some sys'" "map_of (sySettled sys) k \<noteq> None"
  shows "map_of (sySettled sys') k \<noteq> None"
  using assms
  by (auto simp: actorStep_def split: actorEvent.splits if_splits option.splits prod.splits)

definition settledDisjoint :: "ActorSystem \<Rightarrow> bool" where
  "settledDisjoint sys \<longleftrightarrow> (\<forall>k. map_of (sySettled sys) k \<noteq> None \<longrightarrow> map_of (syOpen sys) k = None)"

lemma settledDisjoint_step:
  "actorStep initial answer ev sys = Some sys' \<Longrightarrow> settledDisjoint sys \<Longrightarrow> settledDisjoint sys'"
  by (auto simp: settledDisjoint_def actorStep_def delete_conv' split: actorEvent.splits if_splits option.splits prod.splits)

lemma actorRun_append:
  "actorRun initial answer (xs @ ys) sys = Option.bind (actorRun initial answer xs sys) (actorRun initial answer ys)"
  by (induction xs arbitrary: sys) (auto split: bind_split)

lemma settledDisjoint_run:
  "actorRun initial answer evs sys = Some sys' \<Longrightarrow> settledDisjoint sys \<Longrightarrow> settledDisjoint sys'"
  by (induction evs arbitrary: sys) (auto split: bind_splits dest: settledDisjoint_step)

lemma settled_run:
  "actorRun initial answer evs sys = Some sys' \<Longrightarrow> map_of (sySettled sys) k \<noteq> None \<Longrightarrow> map_of (sySettled sys') k \<noteq> None"
  by (induction evs arbitrary: sys) (auto split: bind_splits dest: actorStep_settled)

lemma settledDisjoint_new: "settledDisjoint (newSystem n)"
  by (simp add: settledDisjoint_def newSystem_def)

text \<open>An attempt keeps the state it has read as long as it is open.\<close>

lemma open_keeps_snapshot:
  assumes "actorRun initial answer evs sys = Some sys'" "settledDisjoint sys" "map_of (syOpen sys) k = Some s"
    "map_of (syOpen sys') k \<noteq> None"
  shows "map_of (syOpen sys') k = Some s"
  using assms
proof (induction evs arbitrary: sys)
  case (Cons ev evs)
  then obtain sys1 where st: "actorStep initial answer ev sys = Some sys1" "actorRun initial answer evs sys1 = Some sys'"
    by (auto split: bind_splits)
  have d: "settledDisjoint sys1" by (rule settledDisjoint_step [OF st(1) Cons.prems(2)])
  show ?case
  proof (cases "ev = Finish k")
    case True
    then have "map_of (sySettled sys1) k \<noteq> None"
      using st(1) by (auto simp: actorStep_def split: option.splits prod.splits)
    then have "map_of (sySettled sys') k \<noteq> None" by (rule settled_run [OF st(2)])
    moreover have "settledDisjoint sys'" by (rule settledDisjoint_run [OF st(2) d])
    ultimately show ?thesis using Cons.prems(4) by (simp add: settledDisjoint_def)
  next
    case False
    then show ?thesis
      using Cons.IH [OF st(2) d actorStep_keeps_open [OF st(1) Cons.prems(3)] Cons.prems(4)] by blast
  qed
qed simp

text \<open>
  The \<open>sql\<close> argument of an actor function is the binding \<open>cfpSql\<close> of the isolate (\<open>src/loader/codegen.ts\<close>),
  which the filter of library-internal bindings never lets through.
\<close>

lemma actor_sql_null:
  assumes "distinct (keys env)"
    and "isolateCode (runnerFor spec env) (actorInput spec env args state) ActorClass = Inr code"
  shows "map_of (nullish (wcEnv code) []) ''cfpSql'' = None"
proof -
  have "isLibraryInternalKey ''cfpSql''" by code_simp
  then show ?thesis
    using isolateCode_fields(1) [OF assms(2)]
      sanitizeBindings_lookup [OF assms(1), of "roAllowList (runnerFor spec env)" "''cfpSql''"]
    by (simp add: isolateEnv_def actorInput_def forwardable_def isUnforwardableBindingKey_def)
qed

section \<open>Properties\<close>

text \<open>
  C31. A submit computes the state it stores from the state it found when it began, however other submits,
  initialisations and closes interleave: what they stored in between is overwritten. A submit that fails
  leaves the state as it is.
\<close>

theorem actor_snapshot:
  assumes "actorRun initial answer evs (newSystem n) = Some sys"
    and "actorRun initial answer (Begin h k # between) sys = Some sys'"
    and "actorStep initial answer (Finish k) sys' = Some sys''"
  shows "(case answer k (orEmpty (acState (syStore sys))) of
      Inl e \<Rightarrow> syStore sys'' = syStore sys' \<and> map_of (sySettled sys'') k = Some (errorToFailedResult (Lib e))
    | Inr result \<Rightarrow>
        (case property ''state'' result of
           Inl t \<Rightarrow> syStore sys'' = syStore sys'
         | Inr s \<Rightarrow> acState (syStore sys'') = stored s))"
proof -
  let ?s = "orEmpty (acState (syStore sys))"
  obtain sys1 where b: "actorStep initial answer (Begin h k) sys = Some sys1"
    "actorRun initial answer between sys1 = Some sys'"
    using assms(2) by (auto split: bind_splits)
  have 1: "map_of (syOpen sys1) k = Some ?s" using b(1) by (auto simp: actorStep_def split: if_splits)
  have d: "settledDisjoint sys1"
    by (rule settledDisjoint_step [OF b(1) settledDisjoint_run [OF assms(1) settledDisjoint_new]])
  have "map_of (syOpen sys') k \<noteq> None"
    using assms(3) by (auto simp: actorStep_def split: option.splits)
  from open_keeps_snapshot [OF b(2) d 1 this] assms(3) show ?thesis
    by (auto simp: actorStep_def actorFinish_def split: sum.splits prod.splits)
qed

text \<open>The answers of two functions that push a number onto the state.\<close>

definition pushAnswer :: "nat \<Rightarrow> rval \<Rightarrow> ParallelError + rval" where
  "pushAnswer k s = Inr (RObject 1 ''Object''
     [(''state'', (case s of RArray i xs \<Rightarrow> RArray i (xs @ [RNumber (int k)]) | _ \<Rightarrow> RArray 2 [RNumber (int k)])),
      (''value'', RNull)])"

text \<open>Two overlapping submits through one handle: the first one is lost.\<close>

theorem actor_snapshot_witness:
  "\<exists>sys'. actorRun None pushAnswer [Ensure 0, Begin 0 1, Begin 0 2, Finish 1, Finish 2] (newSystem 1) = Some sys' \<and>
     acState (syStore sys') = Some (RArray 2 [RNumber 2])"
proof -
  let ?sys = "the (actorRun None pushAnswer [Ensure 0, Begin 0 1] (newSystem 1))"
  let ?sys' = "the (actorRun None pushAnswer [Begin 0 2, Finish 1] ?sys)"
  let ?sys'' = "the (actorStep None pushAnswer (Finish 2) ?sys')"
  have 1: "actorRun None pushAnswer [Ensure 0, Begin 0 1] (newSystem 1) = Some ?sys"
    and 2: "actorRun None pushAnswer [Begin 0 2, Finish 1] ?sys = Some ?sys'"
    and 3: "actorStep None pushAnswer (Finish 2) ?sys' = Some ?sys''"
    and s: "orEmpty (acState (syStore ?sys)) = emptyState"
    by code_simp+
  have "acState (syStore ?sys'') = stored (RArray 2 [RNumber 2])"
    using actor_snapshot [OF 1 2 3] unfolding s by (simp add: pushAnswer_def emptyState_def)
  moreover have "actorRun None pushAnswer [Ensure 0, Begin 0 1, Begin 0 2, Finish 1, Finish 2] (newSystem 1) = Some ?sys''"
    by code_simp
  ultimately show ?thesis by (auto simp: stored_def)
qed

text \<open>
  After a close the next submit through the same handle starts from \<open>initialState\<close>; a submit through
  another handle that was in use starts from the empty object.
\<close>

theorem actor_after_close:
  assumes "actorRun initial answer evs (newSystem n) = Some sys" "actorStep initial answer (Close h) sys = Some sys'"
    and "map_of (syOpen sys) k = None" "map_of (sySettled sys) k = None" "h' < n"
  shows "map_option (\<lambda>s. map_of (syOpen s) k) (actorRun initial answer [Ensure h, Begin h k] sys') =
      Some (Some (orEmpty initial)) \<and>
    (if h' \<noteq> h \<and> syInit sys ! h'
     then map_option (\<lambda>s. map_of (syOpen s) k) (actorStep initial answer (Begin h' k) sys') = Some (Some emptyState)
     else True)"
proof -
  have step: "length (syInit s') = length (syInit s)" if "actorStep initial answer ev s = Some s'" for ev s s'
    using that by (auto simp: actorStep_def split: actorEvent.splits if_splits option.splits prod.splits)
  have "length (syInit s') = length (syInit s)" if "actorRun initial answer evs s = Some s'" for evs s s'
    using that by (induction evs arbitrary: s) (auto split: bind_splits dest: step)
  from this [OF assms(1)] have len: "length (syInit sys) = n" by (simp add: newSystem_def)
  have idem: "orEmpty (Some (orEmpty x)) = orEmpty x" for x
    by (cases x rule: orEmpty.cases) (simp_all add: emptyState_def)
  show ?thesis using assms(2-) len
    by (auto simp: actorStep_def actorClose_def freshStore_def actorEnsureInitialized_def idem split: if_splits)
qed

theorem actor_after_close_witness:
  "\<exists>sys. actorRun (Some (RArray 2 [])) pushAnswer [Ensure 0, Ensure 1, Close 0] (newSystem 2) = Some sys \<and>
     map_option (\<lambda>s. map_of (syOpen s) 7) (actorStep (Some (RArray 2 [])) pushAnswer (Begin 1 7) sys) = Some (Some emptyState)"
proof -
  let ?i = "Some (RArray 2 [])"
  let ?sys = "the (actorRun ?i pushAnswer [Ensure 0, Ensure 1] (newSystem 2))"
  let ?sys' = "the (actorStep ?i pushAnswer (Close 0) ?sys)"
  have 1: "actorRun ?i pushAnswer [Ensure 0, Ensure 1] (newSystem 2) = Some ?sys"
    and 2: "actorStep ?i pushAnswer (Close 0) ?sys = Some ?sys'"
    and 3: "map_of (syOpen ?sys) 7 = None" "map_of (sySettled ?sys) 7 = None" "syInit ?sys ! 1"
    by code_simp+
  have "actorRun ?i pushAnswer [Ensure 0, Ensure 1, Close 0] (newSystem 2) = Some ?sys'" by code_simp
  with actor_after_close [OF 1 2 3(1,2), of 1] 3(3) show ?thesis by auto
qed

end
