(* ===== verification/Fakes.thy ===== *)
theory Fakes
  imports SerializeFn LoaderOnly Actor SubmitCode
begin

text \<open>
  The test doubles for pools, actors and the HTTP facade (\<open>src/api/testing.ts\<close>). A user function is its
  text, which only the serializer looks at, and what it does: it maps its arguments and its \<open>env\<close> to
  what it throws or returns. The fakes run it in place; calls settle in the order in which they start.

  \<open>structuredClone\<close> keeps the structure of a value and drops its prototypes; functions and symbols
  cannot be cloned, nor can streams without a transfer. Identities are kept as they are.
\<close>

section \<open>structuredClone\<close>

fun cloneable :: "rval \<Rightarrow> bool" where
  "cloneable RSymbol = False"
| "cloneable RFunction = False"
| "cloneable RStream = False"
| "cloneable (RMap r kvs) = list_all (\<lambda>(k, v). cloneable k \<and> cloneable v) kvs"
| "cloneable (RSet r vs) = list_all cloneable vs"
| "cloneable (RArray r vs) = list_all cloneable vs"
| "cloneable (RObject r c fs) = list_all (\<lambda>(k, v). cloneable v) fs"
| "cloneable _ = True"

fun cloneVal :: "rval \<Rightarrow> rval" where
  "cloneVal (RMap r kvs) = RMap r (map (\<lambda>(k, v). (cloneVal k, cloneVal v)) kvs)"
| "cloneVal (RSet r vs) = RSet r (map cloneVal vs)"
| "cloneVal (RArray r vs) = RArray r (map cloneVal vs)"
| "cloneVal (RObject r c fs) = RObject r ''Object'' (map (\<lambda>(k, v). (k, cloneVal v)) fs)"
| "cloneVal v = v"

definition dataCloneError :: thrown where
  "dataCloneError = PlainError ''DataCloneError'' ''The object could not be cloned.'' None"

definition structuredClone :: "rval \<Rightarrow> thrown + rval" where
  "structuredClone v = (if cloneable v then Inr (cloneVal v) else Inl dataCloneError)"

fun cloneAll :: "rval list \<Rightarrow> thrown + rval list" where
  "cloneAll [] = Inr []"
| "cloneAll (v # vs) = bindE (structuredClone v) (\<lambda>w. bindE (cloneAll vs) (\<lambda>ws. Inr (w # ws)))"

section \<open>Running one function\<close>

record FakeFn =
  ffCallee :: callee
  ffRun :: "rval list \<Rightarrow> jsenv \<Rightarrow> thrown + rval"

type_synonym runner = "FakeFn \<Rightarrow> rval list \<Rightarrow> jsenv \<Rightarrow> thrown + rval"

definition defaultRunner :: runner where
  "defaultRunner fn args env =
     bindE (cloneAll args) (\<lambda>args'.
       bindE (ffRun fn args' env) (\<lambda>r.
         case checkResult r of Inl e \<Rightarrow> Inl (Lib e) | Inr v \<Rightarrow> structuredClone v))"

record FakePool =
  fpRunner :: runner
  fpBindings :: jsenv
  fpShapes :: "string list"
  fpCompleted :: nat
  fpFailed :: nat
  fpCancelled :: nat

definition poolFake :: "runner option \<Rightarrow> jsenv option \<Rightarrow> FakePool" where
  "poolFake runner bindings =
     \<lparr>fpRunner = nullish runner defaultRunner, fpBindings = nullish bindings [], fpShapes = [],
      fpCompleted = 0, fpFailed = 0, fpCancelled = 0\<rparr>"

text \<open>A function that cannot be serialized is refused before anything is counted.\<close>

definition fakeRunOne :: "FakeFn \<Rightarrow> rval list \<Rightarrow> FakePool \<Rightarrow> (thrown + rval) \<times> FakePool" where
  "fakeRunOne fn args p =
     (case serializeFunction (ffCallee fn) of
        Inl e \<Rightarrow> (Inl (Lib e), p)
      | Inr src \<Rightarrow>
          let p1 = p\<lparr>fpShapes := List.insert (hashSource src) (fpShapes p)\<rparr> in
          (case fpRunner p fn args (fpBindings p) of
             Inr v \<Rightarrow> (Inr v, p1\<lparr>fpCompleted := fpCompleted p + 1\<rparr>)
           | Inl t \<Rightarrow>
               (Inl t, p1\<lparr>fpFailed := fpFailed p + 1,
                         fpCancelled := fpCancelled p + (if fst (asError t) = ''CancelledError'' then 1 else 0)\<rparr>)))"

section \<open>Loops\<close>

text \<open>The runs of a fan-out: one per argument list, each with its outcome.\<close>

fun fakeRuns :: "('a \<Rightarrow> 's \<Rightarrow> 'r \<times> 's) \<Rightarrow> 'a list \<Rightarrow> 's \<Rightarrow> 'r list \<times> 's" where
  "fakeRuns run [] s = ([], s)"
| "fakeRuns run (x # xs) s =
     (case run x s of (r, s1) \<Rightarrow> case fakeRuns run xs s1 of (rs, s2) \<Rightarrow> (r # rs, s2))"

definition fakeFan :: "OnErrorStrategy \<Rightarrow> FakeFn \<Rightarrow> rval list \<Rightarrow> FakePool \<Rightarrow> (rval FanError + rval FanItem list) \<times> FakePool" where
  "fakeFan onError fn items p =
     (case fakeRuns (\<lambda>item. fakeRunOne fn [item]) items p of
        (rs, p1) \<Rightarrow> (fanResult onError (map settleItem rs), p1))"

definition batchArg :: "rval list \<Rightarrow> rval" where
  "batchArg b = RArray 0 b"

definition fakeMap :: "OnErrorStrategy option \<Rightarrow> FakeFn \<Rightarrow> rval list \<Rightarrow> FakePool \<Rightarrow>
    (rval FanError + rval FanItem list) \<times> FakePool" where
  "fakeMap onError fn items p = fakeFan (nullish onError Throw) fn items p"

definition fakeScatter :: "OnErrorStrategy option \<Rightarrow> FakeFn \<Rightarrow> rval list \<Rightarrow> int \<Rightarrow> FakePool \<Rightarrow>
    ((rval FanError + rval FanItem list) \<times> FakePool) option" where
  "fakeScatter onError fn items k p =
     map_option (\<lambda>batches. fakeFan (nullish onError Throw) fn (map batchArg batches) p) (scatterBatches items k)"

text \<open>One round of \<open>reduce\<close>: the pairs one after the other, up to the first that throws.\<close>

fun fakeRound :: "('a \<Rightarrow> 'a \<Rightarrow> 's \<Rightarrow> ('e + 'a) \<times> 's) \<Rightarrow> 'a list \<Rightarrow> 's \<Rightarrow> ('e + 'a list) \<times> 's" where
  "fakeRound run (a # b # xs) s =
     (case run a b s of
        (Inl e, s1) \<Rightarrow> (Inl e, s1)
      | (Inr r, s1) \<Rightarrow>
          (case fakeRound run xs s1 of (Inl e, s2) \<Rightarrow> (Inl e, s2) | (Inr rs, s2) \<Rightarrow> (Inr (r # rs), s2)))"
| "fakeRound run [a] s = (Inr [a], s)"
| "fakeRound run [] s = (Inr [], s)"

lemma fakeRound_length:
  "fakeRound run xs s = (Inr ys, s') \<Longrightarrow> length ys = (length xs + 1) div 2"
  by (induction run xs s arbitrary: ys s' rule: fakeRound.induct) (auto split: sum.splits prod.splits)

function fakeReduceLoop :: "('a \<Rightarrow> 'a \<Rightarrow> 's \<Rightarrow> ('e + 'a) \<times> 's) \<Rightarrow> 'a list \<Rightarrow> 's \<Rightarrow> ('e + 'a) \<times> 's" where
  "fakeReduceLoop run cur s =
     (if length cur \<le> 1 then (Inr (hd cur), s)
      else case fakeRound run cur s of
        (Inl e, s1) \<Rightarrow> (Inl e, s1)
      | (Inr nxt, s1) \<Rightarrow> fakeReduceLoop run nxt s1)"
  by pat_completeness auto
termination
  by (relation "measure (\<lambda>(run, cur, s). length cur)") (auto dest!: fakeRound_length [OF sym])

declare fakeReduceLoop.simps [simp del]

definition fakeReduce :: "('a \<Rightarrow> 'a \<Rightarrow> 's \<Rightarrow> ('e + 'a) \<times> 's) \<Rightarrow> 'a list \<Rightarrow> 'a \<Rightarrow> 's \<Rightarrow> ('e + 'a) \<times> 's" where
  "fakeReduce run items initial s = fakeReduceLoop run (initial # items) s"

fun flatItem :: "rval \<Rightarrow> rval list" where
  "flatItem (RArray r vs) = vs"
| "flatItem v = [v]"

definition fakePmap :: "FakeFn \<Rightarrow> rval list \<Rightarrow> int option \<Rightarrow> FakePool \<Rightarrow> ((thrown + rval list) \<times> FakePool) option" where
  "fakePmap fn items k p =
     map_option (\<lambda>batches.
       case fakeRuns (\<lambda>b. fakeRunOne fn [batchArg b]) batches p of
         (rs, p1) \<Rightarrow> (bindE (promiseAll rs) (\<lambda>vs. Inr (concat (map flatItem vs))), p1))
       (scatterBatches items (nullish k (int (length items))))"

fun fakePipe :: "FakeFn list \<Rightarrow> rval \<Rightarrow> FakePool \<Rightarrow> (thrown + rval) \<times> FakePool" where
  "fakePipe [] v p = (Inr v, p)"
| "fakePipe (fn # fns) v p =
     (case fakeRunOne fn [v] p of (Inl t, p1) \<Rightarrow> (Inl t, p1) | (Inr w, p1) \<Rightarrow> fakePipe fns w p1)"

text \<open>\<open>mapStream\<close>: what is yielded, and what ends the iteration early.\<close>

fun fakeMapStream :: "FakeFn \<Rightarrow> nat \<Rightarrow> rval list \<Rightarrow> FakePool \<Rightarrow> ((nat \<times> rval) list \<times> thrown option) \<times> FakePool" where
  "fakeMapStream fn i [] p = (([], None), p)"
| "fakeMapStream fn i (x # xs) p =
     (case fakeRunOne fn [x] p of
        (Inl t, p1) \<Rightarrow> (([], Some t), p1)
      | (Inr v, p1) \<Rightarrow> (case fakeMapStream fn (Suc i) xs p1 of ((ys, e), p2) \<Rightarrow> (((i, v) # ys, e), p2)))"

definition fakeMapOrdered :: "FakeFn \<Rightarrow> rval list \<Rightarrow> FakePool \<Rightarrow> (rval list \<times> thrown option) \<times> FakePool" where
  "fakeMapOrdered fn items p =
     (case fakeMapStream fn 0 items p of ((ys, e), p1) \<Rightarrow> ((map snd ys, e), p1))"

definition fakeStats :: "FakePool \<Rightarrow> PoolStats" where
  "fakeStats p =
     \<lparr>sInFlight = 0, sQueued = 0, sCompleted = fpCompleted p, sFailed = fpFailed p, sCancelled = fpCancelled p,
      sTopology = InDo, sTopologyDecisionAt = 0, sWarmIsolatesEstimate = 0,
      sUniqueFnShapesToday = length (fpShapes p), sLruEvictionLast60sCount = 0, sTreeDepth = 1, sFanOutPerLevel = []\<rparr>"

definition fakeRestrictTo :: "string list \<Rightarrow> FakePool \<Rightarrow> FakePool" where
  "fakeRestrictTo allow p = poolFake (Some (fpRunner p)) (Some (pickBindings (fpBindings p) allow))"

section \<open>The actor\<close>

text \<open>
  A function of an actor gets a clone of the state, which it may change: it answers with what it throws
  or returns and the state it leaves. The chain of submits makes them run one after the other.
\<close>

record FakeActor =
  faState :: rval
  faBindings :: jsenv

definition actorFake :: "rval option \<Rightarrow> jsenv option \<Rightarrow> FakeActor" where
  "actorFake initialState bindings =
     \<lparr>faState = (case initialState of Some RNull \<Rightarrow> emptyState | Some RUndef \<Rightarrow> emptyState
                 | Some v \<Rightarrow> v | None \<Rightarrow> emptyState),
      faBindings = nullish bindings []\<rparr>"

type_synonym actorFn = "rval \<Rightarrow> rval list \<Rightarrow> jsenv \<Rightarrow> (thrown + rval) \<times> rval"

definition fakeActorSubmit :: "actorFn \<Rightarrow> rval list \<Rightarrow> FakeActor \<Rightarrow> (thrown + rval) \<times> FakeActor" where
  "fakeActorSubmit fn args a =
     (case structuredClone (faState a) of
        Inl t \<Rightarrow> (Inl t, a)
      | Inr cloned \<Rightarrow>
          (case fn cloned args (faBindings a) of
             (Inl t, cloned') \<Rightarrow> (Inl t, a)
           | (Inr result, cloned') \<Rightarrow>
               (case structuredClone cloned' of
                  Inl t \<Rightarrow> (Inl t, a)
                | Inr state' \<Rightarrow>
                    (case checkResult result of
                       Inl e \<Rightarrow> (Inl (Lib e), a\<lparr>faState := state'\<rparr>)
                     | Inr v \<Rightarrow> (Inr v, a\<lparr>faState := state'\<rparr>)))))"

definition fakeActorClose :: "FakeActor \<Rightarrow> FakeActor" where
  "fakeActorClose a = a\<lparr>faState := emptyState\<rparr>"

datatype fakeActorCall = FakeSubmit actorFn "rval list" | FakeClose | FakeEvict

fun fakeActorCalls :: "fakeActorCall list \<Rightarrow> FakeActor \<Rightarrow> (thrown + rval) list \<times> FakeActor" where
  "fakeActorCalls [] a = ([], a)"
| "fakeActorCalls (FakeSubmit fn args # cs) a =
     (case fakeActorSubmit fn args a of (r, a1) \<Rightarrow> case fakeActorCalls cs a1 of (rs, a2) \<Rightarrow> (r # rs, a2))"
| "fakeActorCalls (FakeClose # cs) a = fakeActorCalls cs (fakeActorClose a)"
| "fakeActorCalls (FakeEvict # cs) a = fakeActorCalls cs a"

section \<open>HTTP\<close>

text \<open>
  \<open>readJson\<close> is \<open>await req.json()\<close>, whose failure rejects the whole call; \<open>evalFn\<close> is
  \<open>new Function(...)()\<close>, which rejects it too.
\<close>

definition fakeFailure :: "thrown \<Rightarrow> Response" where
  "fakeFailure t =
     (case asError t of (name, message, stack) \<Rightarrow> ErrorResponse 500 (Redacted name message [] 0))"

definition fakeBody :: "(Request \<Rightarrow> thrown + Submission) \<Rightarrow> (jsval \<Rightarrow> thrown + FakeFn) \<Rightarrow> (jsval list \<Rightarrow> rval list) \<Rightarrow>
    Request \<Rightarrow> FakePool \<Rightarrow> (thrown + Response) \<times> FakePool" where
  "fakeBody readJson evalFn toArgs req p =
     (case readJson req of
        Inl t \<Rightarrow> (Inl t, p)
      | Inr sub \<Rightarrow>
          (case evalFn (suFn sub) of
             Inl t \<Rightarrow> (Inl t, p)
           | Inr fn \<Rightarrow>
               (case fakeRunOne fn (toArgs (nullish (suArgs sub) [])) p of
                  (Inr v, p1) \<Rightarrow> (Inr (ValueResponse v), p1)
                | (Inl t, p1) \<Rightarrow> (Inr (fakeFailure t), p1))))"

definition fakeHandle :: "(Request \<Rightarrow> thrown + Submission) \<Rightarrow> (jsval \<Rightarrow> thrown + FakeFn) \<Rightarrow> (jsval list \<Rightarrow> rval list) \<Rightarrow>
    Request \<Rightarrow> FakePool \<Rightarrow> (thrown + Response) \<times> FakePool" where
  "fakeHandle readJson evalFn toArgs req p =
     (if rqMethod req \<noteq> ''POST'' then (Inr (TextResponse 405 ''Method not allowed''), p)
      else fakeBody readJson evalFn toArgs req p)"

definition vmFakeBindings :: "VMOptions \<Rightarrow> jsenv" where
  "vmFakeBindings opts =
     nullish (Option.bind (vmPoolOptions opts) (coBindings \<circ> poClient)) (nullish (coBindings (poClient (vmSelf opts))) [])"

definition vmFakeFetch :: "(Request \<Rightarrow> thrown + Submission) \<Rightarrow> (jsval \<Rightarrow> thrown + FakeFn) \<Rightarrow> (jsval list \<Rightarrow> rval list) \<Rightarrow>
    VMOptions \<Rightarrow> Request \<Rightarrow> FakePool \<Rightarrow> (thrown + Response) \<times> FakePool" where
  "vmFakeFetch readJson evalFn toArgs opts req p =
     (if rqMethod req \<noteq> ''POST'' then (Inr (TextResponse 405 ''Method not allowed''), p)
      else case vmAuth opts of
        None \<Rightarrow> fakeBody readJson evalFn toArgs req p
      | Some auth \<Rightarrow>
          (case auth req of
             Inl t \<Rightarrow> (Inl t, p)
           | Inr ok \<Rightarrow> if ok then fakeBody readJson evalFn toArgs req p else (Inr (TextResponse 401 ''Unauthorized''), p)))"

section \<open>The fake and the loader\<close>

lemma size_cloneVal:
  "estimateBytes seen (cloneVal v) = estimateBytes seen v"
  "estimateList seen (map cloneVal vs) = estimateList seen vs"
  "estimatePairs seen (map (\<lambda>(k, v). (cloneVal k, cloneVal v)) kvs) = estimatePairs seen kvs"
  "estimateFields seen (map (\<lambda>(k, v). (k, cloneVal v)) fs) = estimateFields seen fs"
  by (induction seen v and seen vs and seen kvs and seen fs rule: estimateBytes_estimateList_estimatePairs_estimateFields.induct)
    (auto split: prod.splits)

lemma cloneable_cloneVal: "cloneable v \<Longrightarrow> cloneable (cloneVal v)"
  by (induction v rule: cloneable.induct) (auto simp: list_all_iff)

lemma validateReturn_clone:
  assumes "v \<noteq> RStream"
  shows "validateReturn (cloneVal v) = (case validateReturn v of Inl e \<Rightarrow> Inl e | Inr w \<Rightarrow> Inr (cloneVal w))"
proof -
  have "cloneVal v \<noteq> RStream" using assms by (cases v) simp_all
  then show ?thesis using assms by (simp add: validateReturn_def size_cloneVal Let_def)
qed

lemma rejectIfRpcStub_clone: "rejectIfRpcStub (cloneVal v) = None"
  by (cases v) simp_all

lemma checkResult_clone:
  assumes "rejectIfRpcStub r = None" "r \<noteq> RStream"
  shows "checkResult (cloneVal r) = (case checkResult r of Inl e \<Rightarrow> Inl e | Inr w \<Rightarrow> Inr (cloneVal w))"
  using validateReturn_clone [OF assms(2)] by (simp add: checkResult_def assms(1) rejectIfRpcStub_clone)

lemma checkResult_same: "checkResult r = Inr w \<Longrightarrow> w = r"
  by (auto simp: checkResult_def validateReturn_def Let_def split: option.splits if_splits)

text \<open>
  The promise of the fake: when the isolate of a task runs the same function on clones of the
  arguments and clones what it returns, the fake returns a value if and only if the loader does, and the
  same one, for functions that return neither RPC stubs nor streams.
\<close>

theorem fake_agrees_with_loader:
  assumes "load key (isolateCode opts input PoolFn) (Execute (riEnvelope input) (riArgs input)) =
      bindE (cloneAll (riArgs input)) (\<lambda>as. bindE (ffRun fn as env) structuredClone)"
    and plain: "\<And>as r. ffRun fn as env = Inr r \<Longrightarrow> rejectIfRpcStub r = None \<and> r \<noteq> RStream"
  shows "loadAndCall load p opts input PoolFn key = Inr v \<longleftrightarrow> defaultRunner fn (riArgs input) env = Inr v"
proof (cases "\<exists>as r. cloneAll (riArgs input) = Inr as \<and> ffRun fn as env = Inr r")
  case True
  then obtain as r where r: "cloneAll (riArgs input) = Inr as" "ffRun fn as env = Inr r" by blast
  note pl = plain [OF r(2)]
  show ?thesis
  proof (cases "cloneable r")
    case c: True
    show ?thesis
      using checkResult_clone [of r] pl checkResult_same [of r]
      by (cases "checkResult r") (auto simp: loadAndCall_def defaultRunner_def assms(1) r structuredClone_def c)
  next
    case c: False
    show ?thesis using checkResult_same [of r]
      by (cases "checkResult r") (auto simp: loadAndCall_def defaultRunner_def assms(1) r structuredClone_def c)
  qed
next
  case False
  then show ?thesis
    by (cases "cloneAll (riArgs input)") (auto simp: loadAndCall_def defaultRunner_def assms(1) split: sum.splits)
qed

lemma fake_agrees_with_loader_witness:
  "loadAndCall (\<lambda>key code call. case call of
       Execute e args \<Rightarrow> bindE (cloneAll args) (\<lambda>as. bindE (Inr (hd as)) structuredClone) | _ \<Rightarrow> Inl (NonError []))
     None (sampleOptions None) (sampleInput\<lparr>riArgs := [RNumber 7]\<rparr>) PoolFn ''k'' = Inr (RNumber 7)"
proof -
  let ?fn = "\<lparr>ffCallee = Function ''f'' ''x => x'', ffRun = (\<lambda>as env. if as = [RNumber 7] then Inr (RNumber 7) else Inl (NonError []))\<rparr>"
  let ?load = "\<lambda>key code call. case call of
       Execute e args \<Rightarrow> bindE (cloneAll args) (\<lambda>as. bindE (Inr (hd as)) structuredClone) | _ \<Rightarrow> Inl (NonError [])"
  have "defaultRunner ?fn [RNumber 7] [] = Inr (RNumber 7)"
    by (simp add: defaultRunner_def structuredClone_def checkResult_def validateReturn_def HARD_RPC_PAYLOAD_BYTES_def)
  moreover have "loadAndCall ?load None (sampleOptions None) (sampleInput\<lparr>riArgs := [RNumber 7]\<rparr>) PoolFn ''k'' = Inr (RNumber 7) \<longleftrightarrow>
      defaultRunner ?fn (riArgs (sampleInput\<lparr>riArgs := [RNumber 7]\<rparr>)) [] = Inr (RNumber 7)"
    by (rule fake_agrees_with_loader) (auto simp: structuredClone_def split: if_splits)
  ultimately show ?thesis by simp
qed

text \<open>A stream can be returned by a pool, but the fake tries to clone it.\<close>

lemma fake_stream_fails:
  "ffRun fn [] env = Inr RStream \<Longrightarrow> defaultRunner fn [] env = Inl dataCloneError"
  by (simp add: defaultRunner_def checkResult_def validateReturn_def structuredClone_def)

section \<open>reduce\<close>

lemma fakeRound_agrees:
  assumes g: "\<And>a b s. fst (run a b s) = g a b"
  shows "(if list_all (\<lambda>(a, b). isOk (g a b)) (validPairs (pairsOf xs))
     then fst (fakeRound run xs s) = Inr (nextRound (pairsOf xs) (map (\<lambda>(a, b). projr (g a b)) (validPairs (pairsOf xs))))
     else \<exists>e. fst (fakeRound run xs s) = Inl e)"
proof (induction xs arbitrary: s rule: pairsOf.induct)
  case (1 a b xs)
  obtain r s1 where r: "run a b s = (r, s1)" by force
  then have gr: "g a b = r" using g [of a b s] by simp
  obtain q s2 where q: "fakeRound run xs s1 = (q, s2)" by force
  show ?case using 1 [of s1]
    by (cases r; cases q) (auto simp: r gr q split: if_splits)
qed simp_all

text \<open>
  \<open>reduce\<close> of the fake, one pair after the other, and \<open>reduce\<close> of a pool, one fan-out per round,
  agree: they return the same value, or both throw, whatever the function is and wherever it throws.
\<close>

theorem fake_reduce_agrees:
  assumes "\<And>a b s. fst (run a b s) = g a b"
    and "\<And>ps. fan ps = (if list_all (\<lambda>(a, b). isOk (g a b)) ps then Inr (map (\<lambda>(a, b). projr (g a b)) ps) else Inl (err ps))"
  shows "case fst (fakeReduce run items initial s) of
      Inr v \<Rightarrow> poolReduce fan items initial = Inr v
    | Inl e \<Rightarrow> \<exists>e'. poolReduce fan items initial = Inl e'"
proof -
  have "case fst (fakeReduceLoop run xs s) of Inr v \<Rightarrow> reduceRounds fan xs = Inr v | Inl e \<Rightarrow> \<exists>e'. reduceRounds fan xs = Inl e'"
    for xs s
  proof (induction xs arbitrary: s rule: measure_induct_rule [where f = length])
    case (less xs)
    show ?case
    proof (cases "length xs \<le> 1")
      case True
      then show ?thesis by (simp add: fakeReduceLoop.simps reduceRounds.simps)
    next
      case long: False
      obtain q s1 where q: "fakeRound run xs s = (q, s1)" by force
      note R = fakeRound_agrees [of run g xs s, OF assms(1)]
      show ?thesis
      proof (cases "list_all (\<lambda>(a, b). isOk (g a b)) (validPairs (pairsOf xs))")
        case True
        let ?next = "nextRound (pairsOf xs) (map (\<lambda>(a, b). projr (g a b)) (validPairs (pairsOf xs)))"
        have "length ?next < length xs"
          using length_nextRound [of "pairsOf xs" "map (\<lambda>(a, b). projr (g a b)) (validPairs (pairsOf xs))"] long
          by (simp add: length_pairsOf)
        note IH = less [OF this, of s1]
        have "reduceRounds fan xs = reduceRounds fan ?next"
          using long True by (subst reduceRounds.simps) (simp add: assms(2))
        moreover have "fakeReduceLoop run xs s = fakeReduceLoop run ?next s1"
          using long True R q by (subst fakeReduceLoop.simps) simp
        ultimately show ?thesis using IH by (simp split: sum.splits)
      next
        case False
        then show ?thesis
          using R q long by (auto simp: fakeReduceLoop.simps [of run xs] reduceRounds.simps [of fan xs] assms(2))
      qed
    qed
  qed
  note loop = this [of "initial # items" s]
  show ?thesis
  proof (cases "items = []")
    case False
    then have "poolReduce fan items initial = reduceRounds fan (initial # items)" by (simp add: poolReduce_def)
    then show ?thesis using loop by (simp add: fakeReduce_def split: sum.splits)
  qed (simp add: fakeReduce_def poolReduce_def fakeReduceLoop.simps [of run "[initial]"])
qed

lemma fake_reduce_agrees_witness:
  "fst (fakeReduce (\<lambda>a b s. (Inr (a + b), Suc s)) [2, 3, 4 :: int] 1 (0 :: nat) :: (unit + int) \<times> nat) = Inr 10 \<and>
   poolReduce (\<lambda>ps. Inr (map (\<lambda>(a, b). a + b) ps) :: unit + int list) [2, 3, 4 :: int] 1 = Inr 10"
proof -
  let ?r = "fakeReduce (\<lambda>a b s. (Inr (a + b), Suc s)) [2, 3, 4 :: int] 1 (0 :: nat) :: (unit + int) \<times> nat"
  have 1: "fst ?r = Inr 10" by (simp add: fakeReduce_def fakeReduceLoop.simps)
  have "case fst ?r of
      Inr v \<Rightarrow> poolReduce (\<lambda>ps. Inr (map (\<lambda>(a, b). a + b) ps) :: unit + int list) [2, 3, 4 :: int] 1 = Inr v
    | Inl e \<Rightarrow> \<exists>e'. poolReduce (\<lambda>ps. Inr (map (\<lambda>(a, b). a + b) ps) :: unit + int list) [2, 3, 4 :: int] 1 = Inl e'"
    by (rule fake_reduce_agrees [where g = "\<lambda>a b. Inr (a + b)"]) (auto simp: list_all_iff)
  then show ?thesis using 1 by simp
qed

section \<open>Where the fakes differ\<close>

text \<open>An actor whose submit is rejected for its result keeps the new state in the fake only.\<close>

lemma fake_actor_keeps_rejected_state:
  assumes "cloneable (faState a)" "fn (cloneVal (faState a)) args (faBindings a) = (Inr (RObject 0 ''RpcStub'' []), st')" "cloneable st'"
  shows "\<exists>e. fakeActorSubmit fn args a = (Inl (Lib e), a\<lparr>faState := cloneVal st'\<rparr>)"
    and "snd (actorFinish (Inl e) store) = store"
  using assms by (simp_all add: fakeActorSubmit_def structuredClone_def checkResult_def actorFinish_def)

text \<open>After \<open>close\<close> the fake starts from \<open>{}\<close>, whatever its initial state was.\<close>

lemma fake_actor_close: "faState (fakeActorClose (actorFake (Some v) b)) = emptyState"
  by (simp add: fakeActorClose_def)

text \<open>The fake VM does not look at a policy.\<close>

lemma vm_fake_ignores_policy:
  "vmFakeFetch readJson evalFn toArgs (opts\<lparr>vmPolicy := x\<rparr>) req p = vmFakeFetch readJson evalFn toArgs (opts\<lparr>vmPolicy := y\<rparr>) req p"
  by (simp add: vmFakeFetch_def)

end
