(* ===== verification/JobsTable.thy ===== *)
theory JobsTable
  imports JobStore
begin

text \<open>
  The \<open>jobs\<close> table and the SQL statements on it that the DO-storage and the D1 store share
  (\<open>src/scheduler/stores/do-storage.ts\<close>, \<open>d1.ts\<close>): the row type, \<open>rowToJob\<close>, the insert with its
  unique columns, the claim with its candidate query and its compare-and-swap update, and one
  function per \<open>UPDATE\<close>, \<open>DELETE\<close> and \<open>SELECT\<close>. The table is the list of its rows in insertion
  order; \<open>ORDER BY\<close> is a stable sort. A comparison with a null column is false.
\<close>

section \<open>Rows\<close>

record JobsRow =
  cId :: string
  cTenant :: string
  cFnHash :: string
  cFnSource :: string
  cArgs :: json
  cContext :: "json option"
  cWorkerOptions :: "json option"
  cAllowList :: "string list option"
  cMeta :: "(string \<times> string) list option"
  cCreatedAt :: int
  cDeadline :: int
  cRetryMax :: int
  cRetryCount :: int
  cRetryBase :: int
  cRetryBackoff :: Backoff
  cStatus :: JobStatus
  cLeaseOwner :: "string option"
  cLeaseExpires :: "int option"
  cResult :: "json option"
  cResultExpires :: "int option"
  cError :: "FailRecord option"
  cIdempotencyKey :: "string option"
  cCacheKeyStrategy :: "CacheKeyStrategy option"

definition insertedRow :: "PersistedJob \<Rightarrow> JobsRow" where
  "insertedRow job =
     \<lparr>cId = pjId job, cTenant = pjTenant job, cFnHash = pjFnHash job, cFnSource = pjFnSource job,
      cArgs = enc (JArr (pjArgs job)), cContext = map_option enc (pjContext job),
      cWorkerOptions = map_option enc (pjWorkerOptions job), cAllowList = pjAllowList job,
      cMeta = pjMeta job, cCreatedAt = pjCreatedAt job, cDeadline = pjDeadline job,
      cRetryMax = rpMax (pjRetry job), cRetryCount = pjRetryCount job,
      cRetryBase = rpBaseMs (pjRetry job), cRetryBackoff = rpBackoff (pjRetry job),
      cStatus = Queued, cLeaseOwner = None, cLeaseExpires = None, cResult = None,
      cResultExpires = None, cError = None, cIdempotencyKey = pjIdempotencyKey job,
      cCacheKeyStrategy = pjCacheKeyStrategy job\<rparr>"

fun arrayOf :: "jsval \<Rightarrow> jsval list" where
  "arrayOf (JArr vs) = vs"
| "arrayOf _ = []"

definition rowToJob :: "JobsRow \<Rightarrow> PersistedJob" where
  "rowToJob row =
     \<lparr>pjId = cId row, pjTenant = cTenant row, pjFnHash = cFnHash row, pjFnSource = cFnSource row,
      pjArgs = arrayOf (dec (cArgs row)), pjContext = map_option dec (cContext row),
      pjWorkerOptions = map_option dec (cWorkerOptions row), pjAllowList = cAllowList row,
      pjMeta = cMeta row, pjCreatedAt = cCreatedAt row, pjDeadline = cDeadline row,
      pjRetry = \<lparr>rpMax = cRetryMax row, rpBackoff = cRetryBackoff row, rpBaseMs = cRetryBase row\<rparr>,
      pjRetryCount = cRetryCount row, pjStatus = cStatus row,
      pjCacheKeyStrategy = cCacheKeyStrategy row, pjLeaseOwner = cLeaseOwner row,
      pjLeaseExpires = cLeaseExpires row, pjResult = map_option dec (cResult row),
      pjResultExpires = cResultExpires row, pjError = cError row,
      pjIdempotencyKey = cIdempotencyKey row\<rparr>"

type_synonym table = "JobsRow list"

section \<open>Statements\<close>

definition rowById :: "string \<Rightarrow> table \<Rightarrow> JobsRow option" where
  "rowById i t = find (\<lambda>r. cId r = i) t"

definition updateWhere :: "(JobsRow \<Rightarrow> bool) \<Rightarrow> (JobsRow \<Rightarrow> JobsRow) \<Rightarrow> table \<Rightarrow> table" where
  "updateWhere P f t = map (\<lambda>r. if P r then f r else r) t"

definition changes :: "(JobsRow \<Rightarrow> bool) \<Rightarrow> table \<Rightarrow> nat" where
  "changes P t = length (filter P t)"

text \<open>\<open>INSERT\<close>: the primary key and the unique idempotency key (nulls never collide).\<close>

definition sqlInsert :: "JobsRow \<Rightarrow> table \<Rightarrow> string + table" where
  "sqlInsert r t =
     (if list_ex (\<lambda>q. cId q = cId r) t then Inl ''UNIQUE constraint failed: jobs.id''
      else if cIdempotencyKey r \<noteq> None \<and> list_ex (\<lambda>q. cIdempotencyKey q = cIdempotencyKey r) t
        then Inl ''UNIQUE constraint failed: jobs.idempotency_key''
      else Inr (t @ [r]))"

text \<open>The \<open>catch\<close> of both \<open>enqueue\<close> methods: a unique collision of a job with a key is no error.\<close>

definition insertJob :: "PersistedJob \<Rightarrow> table \<Rightarrow> string + (bool \<times> table)" where
  "insertJob job t =
     (case sqlInsert (insertedRow job) t of
        Inr t' \<Rightarrow> Inr (True, t')
      | Inl msg \<Rightarrow>
          if nullish (pjIdempotencyKey job) [] \<noteq> [] \<and> strIncludes ''unique'' (toLowerCase msg)
          then Inr (False, t) else Inl msg)"

definition leaseExpired :: "int \<Rightarrow> JobsRow \<Rightarrow> bool" where
  "leaseExpired now r = (case cLeaseExpires r of None \<Rightarrow> False | Some x \<Rightarrow> x < now)"

definition claimable :: "int \<Rightarrow> JobsRow \<Rightarrow> bool" where
  "claimable now r \<longleftrightarrow> cStatus r = Queued \<or> (cStatus r = Leased \<and> leaseExpired now r)"

definition byCreation :: "table \<Rightarrow> table" where
  "byCreation t = sort_key cCreatedAt t"

text \<open>
  The candidate query. \<open>ORDER BY status DESC\<close> puts the queued rows before the leased ones.
\<close>

definition claimCandidates :: "int \<Rightarrow> ClaimRequest \<Rightarrow> table \<Rightarrow> table" where
  "claimCandidates now req t =
     (let open = filter (\<lambda>r. claimable now r \<and> now < cDeadline r) t in
      if nullish (crJobId req) [] \<noteq> []
      then take 1 (filter (\<lambda>r. Some (cId r) = crJobId req) open)
      else take (crMax req) (byCreation (filter (\<lambda>r. cStatus r = Queued) open) @
                             byCreation (filter (\<lambda>r. cStatus r \<noteq> Queued) open)))"

definition leaseTo :: "int \<Rightarrow> ClaimRequest \<Rightarrow> JobsRow \<Rightarrow> JobsRow" where
  "leaseTo now req r =
     r\<lparr>cStatus := Leased, cLeaseOwner := Some (crWorkerId req),
       cLeaseExpires := Some (now + crLeaseMs req)\<rparr>"

text \<open>
  The loop over the candidates: each \<open>UPDATE ... WHERE id = ? AND claimable\<close> is a compare-and-swap
  on the row as it is now; the job returned is built from the selected row.
\<close>

fun claimRows :: "int \<Rightarrow> ClaimRequest \<Rightarrow> table \<Rightarrow> table \<Rightarrow> PersistedJob list \<times> table" where
  "claimRows now req [] t = ([], t)"
| "claimRows now req (row # rows) t =
     (let P = (\<lambda>r. cId r = cId row \<and> claimable now r) in
      if 0 < changes P t
      then (case claimRows now req rows (updateWhere P (leaseTo now req) t) of
              (js, t') \<Rightarrow> (rowToJob (leaseTo now req row) # js, t'))
      else claimRows now req rows t)"

definition sqlClaim :: "int \<Rightarrow> ClaimRequest \<Rightarrow> table \<Rightarrow> PersistedJob list \<times> table" where
  "sqlClaim now req t = claimRows now req (claimCandidates now req t) t"

definition ownsLease :: "string \<Rightarrow> string \<Rightarrow> JobsRow \<Rightarrow> bool" where
  "ownsLease i w r \<longleftrightarrow> cId r = i \<and> cStatus r = Leased \<and> cLeaseOwner r = Some w"

definition sqlAck :: "string \<Rightarrow> string \<Rightarrow> json \<Rightarrow> int \<Rightarrow> table \<Rightarrow> bool \<times> table" where
  "sqlAck i w v x t =
     (0 < changes (ownsLease i w) t,
      updateWhere (ownsLease i w)
        (\<lambda>r. r\<lparr>cStatus := Done, cResult := Some v, cResultExpires := Some x\<rparr>) t)"

definition failStatus :: "JobsRow \<Rightarrow> JobStatus" where
  "failStatus r = (if cRetryMax r \<le> cRetryCount r + 1 then Failed else Queued)"

definition failRow :: "FailRecord \<Rightarrow> JobsRow \<Rightarrow> JobsRow" where
  "failRow e r = r\<lparr>cStatus := failStatus r, cRetryCount := cRetryCount r + 1, cLeaseOwner := None,
                   cLeaseExpires := None, cError := Some e\<rparr>"

definition sqlFail :: "string \<Rightarrow> string \<Rightarrow> FailRecord \<Rightarrow> table \<Rightarrow> JobStatus option \<times> table" where
  "sqlFail i w e t =
     (map_option failStatus (find (ownsLease i w) t), updateWhere (ownsLease i w) (failRow e) t)"

definition sqlFailQueued :: "string \<Rightarrow> FailRecord \<Rightarrow> table \<Rightarrow> bool \<times> table" where
  "sqlFailQueued i e t =
     (let P = (\<lambda>r. cId r = i \<and> cStatus r = Queued) in
      (0 < changes P t,
       updateWhere P (\<lambda>r. r\<lparr>cStatus := Failed, cError := Some e, cRetryCount := cRetryMax r\<rparr>) t))"

definition active :: "JobsRow \<Rightarrow> bool" where
  "active r \<longleftrightarrow> cStatus r = Queued \<or> cStatus r = Leased"

definition sqlCancel :: "string \<Rightarrow> table \<Rightarrow> bool \<times> table" where
  "sqlCancel i t =
     (let P = (\<lambda>r. cId r = i \<and> active r) in
      (0 < changes P t, updateWhere P (\<lambda>r. r\<lparr>cStatus := Cancelled\<rparr>) t))"

definition sqlStatus :: "string \<Rightarrow> table \<Rightarrow> JobStatus option" where
  "sqlStatus i t = map_option cStatus (rowById i t)"

text \<open>The text of the missing-row error differs between the two stores.\<close>

definition sqlResult :: "string \<Rightarrow> int \<Rightarrow> string \<Rightarrow> table \<Rightarrow> JobResult" where
  "sqlResult missing now i t =
     (case rowById i t of
        None \<Rightarrow> \<lparr>jrStatus = Failed, jrValue = None,
                jrError = Some \<lparr>frName = ''NotFoundError'', frMessage = ''Job '' @ i @ missing,
                                frStack = None, frOriginalName = None\<rparr>\<rparr>
      | Some row \<Rightarrow>
          if cStatus row = Done then
            (if nullish (cResultExpires row) 0 \<noteq> 0 \<and> nullish (cResultExpires row) 0 < now
             then \<lparr>jrStatus = Failed, jrValue = None,
                   jrError = Some \<lparr>frName = ''ResultExpiredError'',
                                   frMessage = ''Job '' @ i @ '' result expired'',
                                   frStack = None, frOriginalName = None\<rparr>\<rparr>
             else \<lparr>jrStatus = Done, jrValue = map_option dec (cResult row), jrError = None\<rparr>)
          else if cStatus row = Failed then
            \<lparr>jrStatus = Failed, jrValue = None, jrError = cError row\<rparr>
          else \<lparr>jrStatus = cStatus row, jrValue = None, jrError = None\<rparr>)"

definition sqlPeek :: "string option \<Rightarrow> nat \<Rightarrow> table \<Rightarrow> PersistedJob list" where
  "sqlPeek tenant limit t =
     map rowToJob (take limit (byCreation (filter (\<lambda>r. cStatus r = Queued \<and>
       (nullish tenant [] = [] \<or> Some (cTenant r) = tenant)) t)))"

definition resultExpired :: "int \<Rightarrow> JobsRow \<Rightarrow> bool" where
  "resultExpired now r \<longleftrightarrow> cStatus r = Done \<and>
     (case cResultExpires r of None \<Rightarrow> False | Some x \<Rightarrow> x < now)"

definition sqlSweep :: "int \<Rightarrow> table \<Rightarrow> nat \<times> table" where
  "sqlSweep now t = (changes (resultExpired now) t, filter (\<lambda>r. \<not> resultExpired now r) t)"

definition sqlReclaim :: "int \<Rightarrow> table \<Rightarrow> nat \<times> table" where
  "sqlReclaim now t =
     (let P = (\<lambda>r. cStatus r = Leased \<and> leaseExpired now r) in
      (changes P t,
       updateWhere P (\<lambda>r. r\<lparr>cStatus := Queued, cLeaseOwner := None, cLeaseExpires := None\<rparr>) t))"

definition sqlListActive :: "string \<Rightarrow> table \<Rightarrow> PersistedJob list" where
  "sqlListActive tenant t = map rowToJob (byCreation (filter (\<lambda>r. cTenant r = tenant \<and> active r) t))"

section \<open>Lookup after each statement\<close>

text \<open>Ids are unique and a leased row has an owner and an expiry.\<close>

definition goodTable :: "table \<Rightarrow> bool" where
  "goodTable t \<longleftrightarrow> distinct (map cId t) \<and>
     list_all (\<lambda>r. cStatus r = Leased \<longrightarrow> cLeaseOwner r \<noteq> None \<and> cLeaseExpires r \<noteq> None) t"

definition tableLease :: "table \<Rightarrow> string \<Rightarrow> (string option \<times> int option) option" where
  "tableLease t i = (case rowById i t of None \<Rightarrow> None
     | Some r \<Rightarrow> if cStatus r = Leased then Some (cLeaseOwner r, cLeaseExpires r) else None)"

lemma rowById_simps [simp]:
  "rowById i [] = None"
  "rowById i (r # t) = (if cId r = i then Some r else rowById i t)"
  by (simp_all add: rowById_def)

lemma rowById_None: "rowById i t = None \<longleftrightarrow> i \<notin> cId ` set t"
  by (induction t) auto

lemma rowById_SomeD: "rowById i t = Some r \<Longrightarrow> r \<in> set t \<and> cId r = i"
  by (induction t) (auto split: if_splits)

lemma rowById_in: "distinct (map cId t) \<Longrightarrow> r \<in> set t \<Longrightarrow> rowById (cId r) t = Some r"
  by (induction t) force+

lemma rowById_append [simp]:
  "rowById i (t @ u) = (case rowById i t of Some r \<Rightarrow> Some r | None \<Rightarrow> rowById i u)"
  by (induction t) auto

lemma rowById_update:
  assumes "\<And>r. cId (f r) = cId r"
  shows "rowById i (updateWhere P f t) = map_option (\<lambda>r. if P r then f r else r) (rowById i t)"
  by (induction t) (auto simp: updateWhere_def assms)

lemma ids_update [simp]: "(\<And>r. cId (f r) = cId r) \<Longrightarrow> map cId (updateWhere P f t) = map cId t"
  by (induction t) (auto simp: updateWhere_def)

lemma changes_pos: "0 < changes P t \<longleftrightarrow> (\<exists>r \<in> set t. P r)"
  by (auto simp: changes_def filter_empty_conv)

lemma changes_id:
  assumes "distinct (map cId t)" "\<And>r. P r \<Longrightarrow> cId r = i"
  shows "0 < changes P t \<longleftrightarrow> (\<exists>r. rowById i t = Some r \<and> P r)"
  using assms rowById_in [of t] rowById_SomeD [of i t] by (auto simp: changes_pos) blast

lemma find_id:
  assumes "distinct (map cId t)" "\<And>r. P r \<Longrightarrow> cId r = i"
  shows "find P t = (case rowById i t of Some r \<Rightarrow> if P r then Some r else None | None \<Rightarrow> None)"
  using assms
proof (induction t)
  case (Cons r t)
  show ?case
  proof (cases "cId r = i")
    case True
    then have "rowById i t = None" using Cons.prems(1) by (auto simp: rowById_None)
    then show ?thesis using Cons True by auto
  next
    case False
    then have "\<not> P r" using Cons.prems(2) by blast
    then show ?thesis using Cons False by auto
  qed
qed simp

lemma goodTable_update:
  assumes "goodTable t" "\<And>r. cId (f r) = cId r"
    and "\<And>r. P r \<Longrightarrow> cStatus (f r) = Leased \<Longrightarrow> cLeaseOwner (f r) \<noteq> None \<and> cLeaseExpires (f r) \<noteq> None"
  shows "goodTable (updateWhere P f t)"
  using assms unfolding goodTable_def ids_update [OF assms(2)]
  by (auto simp: list_all_iff updateWhere_def)

lemma cId_fields [simp]:
  "cId (leaseTo now req r) = cId r" "cId (failRow e r) = cId r"
  "cStatus (leaseTo now req r) = Leased" "cLeaseOwner (leaseTo now req r) = Some (crWorkerId req)"
  "cLeaseExpires (leaseTo now req r) = Some (now + crLeaseMs req)"
  "pjId (rowToJob r) = cId r" "cId (insertedRow j) = pjId j" "cStatus (insertedRow j) = Queued"
  by (simp_all add: leaseTo_def failRow_def rowToJob_def insertedRow_def)


lemma goodTable_distinct: "goodTable t \<Longrightarrow> distinct (map cId t)"
  by (simp add: goodTable_def)

lemma goodTable_row:
  "goodTable t \<Longrightarrow> rowById i t = Some r \<Longrightarrow> cStatus r = Leased \<Longrightarrow>
     (\<exists>w. cLeaseOwner r = Some w) \<and> (\<exists>x. cLeaseExpires r = Some x)"
  using rowById_SomeD [of i t r] by (auto simp: goodTable_def list_all_iff)

lemma status_updateWhere:
  assumes "\<And>r. P r \<Longrightarrow> cId r = i" "\<And>r. cId (f r) = cId r"
  shows "sqlStatus k (updateWhere P f t) =
    (if k = i then map_option (\<lambda>r. if P r then cStatus (f r) else cStatus r) (rowById i t)
     else sqlStatus k t)"
proof (cases "rowById k t")
  case (Some r)
  then have k: "cId r = k" using rowById_SomeD by blast
  have e: "rowById k (updateWhere P f t) = Some (if P r then f r else r)"
    by (simp add: rowById_update [OF assms(2)] Some)
  show ?thesis
  proof (cases "k = i")
    case True
    then show ?thesis using e Some by (simp add: sqlStatus_def)
  next
    case False
    then have "\<not> P r" using assms(1) k by blast
    then show ?thesis using e Some False by (simp add: sqlStatus_def)
  qed
next
  case None
  then have "rowById k (updateWhere P f t) = None" by (simp add: rowById_update [OF assms(2)])
  then show ?thesis using None by (auto simp: sqlStatus_def)
qed

lemma sqlInsert_InrD:
  assumes "sqlInsert r t = Inr t'"
  shows "t' = t @ [r]" "rowById (cId r) t = None"
proof -
  have c: "\<not> list_ex (\<lambda>q. cId q = cId r) t" and "t' = t @ [r]"
    using assms unfolding sqlInsert_def by (auto simp only: split: if_splits)
  then show "t' = t @ [r]" by simp
  show "rowById (cId r) t = None" using c by (auto simp: rowById_None list_ex_iff)
qed

lemma insertJob_row:
  assumes "insertJob j t = Inr (b, t')"
  shows "if b then t' = t @ [insertedRow j] \<and> rowById (pjId j) t = None else t' = t"
proof (cases "sqlInsert (insertedRow j) t")
  case (Inl m)
  then show ?thesis using assms by (auto simp: insertJob_def split: if_splits)
next
  case (Inr t2)
  then show ?thesis using assms sqlInsert_InrD [OF Inr] by (simp add: insertJob_def)
qed

lemma insertJob_good: "goodTable t \<Longrightarrow> insertJob j t = Inr (b, t') \<Longrightarrow> goodTable t'"
  using insertJob_row [of j t b t'] by (cases b) (auto simp: goodTable_def rowById_None)

lemma insertJob_status:
  assumes "insertJob j t = Inr (b, t')"
  shows "sqlStatus i t' = sqlStatus i t \<or>
    (sqlStatus i t = None \<and> i = pjId j \<and> sqlStatus i t' = Some Queued)"
  using insertJob_row [OF assms] by (auto simp: sqlStatus_def split: if_splits option.splits)

lemma leaseTo_twice [simp]: "leaseTo now req (leaseTo now req r) = leaseTo now req r"
  by (simp add: leaseTo_def)

lemma claimRows_good: "goodTable t \<Longrightarrow> claimRows now req rows t = (js, t') \<Longrightarrow> goodTable t'"
proof (induction rows arbitrary: t js)
  case (Cons row rows)
  have "goodTable (updateWhere (\<lambda>r. cId r = cId row \<and> claimable now r) (leaseTo now req) t)"
    using Cons.prems(1) by (rule goodTable_update) auto
  then show ?case using Cons by (auto simp: Let_def split: if_splits prod.splits)
qed simp

lemma claimRows_rows:
  assumes "goodTable t" "claimRows now req rows t = (js, t')"
  shows "rowById k t' = (if k \<in> pjId ` set js then map_option (leaseTo now req) (rowById k t) else rowById k t)
    \<and> (k \<in> pjId ` set js \<longrightarrow> (\<exists>r. rowById k t = Some r \<and> claimable now r))"
  using assms
proof (induction rows arbitrary: t js)
  case (Cons row rows)
  let ?P = "\<lambda>r. cId r = cId row \<and> claimable now r"
  let ?t = "updateWhere ?P (leaseTo now req) t"
  show ?case
  proof (cases "0 < changes ?P t")
    case True
    obtain js' where js: "claimRows now req rows ?t = (js', t')" "js = rowToJob (leaseTo now req row) # js'"
      using Cons.prems(2) True by (auto simp: Let_def split: prod.splits)
    have g: "goodTable ?t" using Cons.prems(1) by (rule goodTable_update) auto
    obtain r where r: "rowById (cId row) t = Some r" "?P r"
      using True changes_id [OF goodTable_distinct [OF Cons.prems(1)], of ?P "cId row"] by auto
    have u: "rowById k ?t = map_option (\<lambda>r. if ?P r then leaseTo now req r else r) (rowById k t)"
      by (rule rowById_update) simp
    show ?thesis
    proof (cases "k = cId row")
      case True
      then have "rowById k ?t = Some (leaseTo now req r)" using u r by simp
      then show ?thesis using Cons.IH [OF g js(1)] js(2) r True by auto
    next
      case False
      then have "rowById k ?t = rowById k t" using u rowById_SomeD [of k t] by (cases "rowById k t") auto
      then show ?thesis using Cons.IH [OF g js(1)] js(2) False by auto
    qed
  next
    case False
    then show ?thesis using Cons by (auto simp: Let_def)
  qed
qed simp

lemma sqlClaim_facts:
  assumes "goodTable t" "sqlClaim now req t = (js, t')"
  shows "goodTable t'"
    and "sqlStatus k t' = (if k \<in> pjId ` set js then Some Leased else sqlStatus k t)"
    and "j \<in> set js \<Longrightarrow> sqlStatus (pjId j) t = Some Queued \<or>
           (\<exists>w x. tableLease t (pjId j) = Some (w, Some x) \<and> x < now)"
    and "j \<in> set js \<Longrightarrow> tableLease t' (pjId j) = Some (Some (crWorkerId req), Some (now + crLeaseMs req))"
proof -
  have c: "claimRows now req (claimCandidates now req t) t = (js, t')"
    using assms(2) by (simp add: sqlClaim_def)
  note R = claimRows_rows [OF assms(1) c]
  show "goodTable t'" by (rule claimRows_good [OF assms(1) c])
  show "sqlStatus k t' = (if k \<in> pjId ` set js then Some Leased else sqlStatus k t)"
    using R [of k] by (auto simp: sqlStatus_def)
  show "sqlStatus (pjId j) t = Some Queued \<or>
      (\<exists>w x. tableLease t (pjId j) = Some (w, Some x) \<and> x < now)" if "j \<in> set js"
    using R [of "pjId j"] that
    by (auto simp: sqlStatus_def tableLease_def claimable_def leaseExpired_def split: option.splits)
  show "tableLease t' (pjId j) = Some (Some (crWorkerId req), Some (now + crLeaseMs req))" if "j \<in> set js"
    using R [of "pjId j"] that by (auto simp: tableLease_def)
qed

lemma ownsLease_lease:
  "(\<exists>r. rowById i t = Some r \<and> ownsLease i w r) \<longleftrightarrow> (\<exists>e. tableLease t i = Some (Some w, e))"
  using rowById_SomeD [of i t]
  by (auto simp: ownsLease_def tableLease_def split: option.splits if_splits)

lemma sqlAck_facts:
  assumes "goodTable t" "sqlAck i w v x t = (ok, t')"
  shows "goodTable t'"
    and "ok = (\<exists>e. tableLease t i = Some (Some w, e))"
    and "sqlStatus k t' = (if ok \<and> k = i then Some Done else sqlStatus k t)"
proof -
  have t': "t' = updateWhere (ownsLease i w)
        (\<lambda>r. r\<lparr>cStatus := Done, cResult := Some v, cResultExpires := Some x\<rparr>) t"
    and ok: "ok = (0 < changes (ownsLease i w) t)" using assms(2) by (auto simp: sqlAck_def)
  show "goodTable t'" unfolding t' using assms(1) by (rule goodTable_update) auto
  have ok': "ok = (\<exists>r. rowById i t = Some r \<and> ownsLease i w r)"
    using ok changes_id [OF goodTable_distinct [OF assms(1)], of "ownsLease i w" i]
    by (simp add: ownsLease_def)
  then show "ok = (\<exists>e. tableLease t i = Some (Some w, e))" by (simp add: ownsLease_lease)
  show "sqlStatus k t' = (if ok \<and> k = i then Some Done else sqlStatus k t)"
    unfolding t' ok'
    by (subst status_updateWhere [where i = i])
      (auto simp: ownsLease_def sqlStatus_def map_option_case split: option.splits)
qed

lemma sqlFail_facts:
  assumes "goodTable t" "sqlFail i w e t = (s, t')"
  shows "goodTable t'"
    and "s = (case rowById i t of Some r \<Rightarrow> if ownsLease i w r then Some (failStatus r) else None
              | None \<Rightarrow> None)"
    and "sqlStatus k t' = (if k = i \<and> s \<noteq> None then s else sqlStatus k t)"
    and "(s \<noteq> None) = (\<exists>x. tableLease t i = Some (Some w, x))"
proof -
  have t': "t' = updateWhere (ownsLease i w) (failRow e) t"
    and s: "s = map_option failStatus (find (ownsLease i w) t)"
    using assms(2) by (auto simp: sqlFail_def)
  show "goodTable t'" unfolding t' using assms(1)
    by (rule goodTable_update) (auto simp: failRow_def failStatus_def split: if_splits)
  show s': "s = (case rowById i t of Some r \<Rightarrow> if ownsLease i w r then Some (failStatus r) else None
              | None \<Rightarrow> None)"
    unfolding s using find_id [OF goodTable_distinct [OF assms(1)], of "ownsLease i w" i]
    by (auto simp: ownsLease_def split: option.splits)
  show "sqlStatus k t' = (if k = i \<and> s \<noteq> None then s else sqlStatus k t)"
    unfolding t' s'
    by (subst status_updateWhere [where i = i])
      (auto simp: ownsLease_def sqlStatus_def failRow_def split: option.splits)
  show "(s \<noteq> None) = (\<exists>x. tableLease t i = Some (Some w, x))"
    unfolding s' ownsLease_lease [symmetric] by (auto split: option.splits)
qed

lemma sqlCancel_facts:
  assumes "goodTable t" "sqlCancel i t = (ok, t')"
  shows "goodTable t'"
    and "ok = (sqlStatus i t \<in> {Some Queued, Some Leased})"
    and "sqlStatus k t' = (if ok \<and> k = i then Some Cancelled else sqlStatus k t)"
proof -
  let ?P = "\<lambda>r. cId r = i \<and> active r"
  have t': "t' = updateWhere ?P (\<lambda>r. r\<lparr>cStatus := Cancelled\<rparr>) t" and ok: "ok = (0 < changes ?P t)"
    using assms(2) by (auto simp: sqlCancel_def Let_def)
  show "goodTable t'" unfolding t' using assms(1) by (rule goodTable_update) auto
  show ok': "ok = (sqlStatus i t \<in> {Some Queued, Some Leased})"
    using ok changes_id [OF goodTable_distinct [OF assms(1)], of ?P i] rowById_SomeD [of i t]
    by (auto simp: sqlStatus_def active_def)
  show "sqlStatus k t' = (if ok \<and> k = i then Some Cancelled else sqlStatus k t)"
    unfolding t' ok' using rowById_SomeD [of i t]
    by (subst status_updateWhere [where i = i]; cases "rowById i t") (auto simp: active_def sqlStatus_def)
qed

lemma sqlFailQueued_facts:
  assumes "goodTable t" "sqlFailQueued i e t = (ok, t')"
  shows "goodTable t'"
    and "ok = (sqlStatus i t = Some Queued)"
    and "sqlStatus k t' = (if ok \<and> k = i then Some Failed else sqlStatus k t)"
proof -
  let ?P = "\<lambda>r. cId r = i \<and> cStatus r = Queued"
  have t': "t' = updateWhere ?P (\<lambda>r. r\<lparr>cStatus := Failed, cError := Some e, cRetryCount := cRetryMax r\<rparr>) t"
    and ok: "ok = (0 < changes ?P t)" using assms(2) by (auto simp: sqlFailQueued_def Let_def)
  show "goodTable t'" unfolding t' using assms(1) by (rule goodTable_update) auto
  show ok': "ok = (sqlStatus i t = Some Queued)"
    using ok changes_id [OF goodTable_distinct [OF assms(1)], of ?P i] rowById_SomeD [of i t]
    by (auto simp: sqlStatus_def)
  show "sqlStatus k t' = (if ok \<and> k = i then Some Failed else sqlStatus k t)"
    unfolding t' ok' using rowById_SomeD [of i t]
    by (subst status_updateWhere [where i = i]; cases "rowById i t") (auto simp: sqlStatus_def)
qed

lemma sqlReclaim_facts:
  assumes "goodTable t" "sqlReclaim now t = (n, t')"
  shows "goodTable t'"
    and "sqlStatus k t' = sqlStatus k t \<or>
      (sqlStatus k t' = Some Queued \<and> (\<exists>w x. tableLease t k = Some (w, Some x) \<and> x < now))"
proof -
  let ?P = "\<lambda>r. cStatus r = Leased \<and> leaseExpired now r"
  have t': "t' = updateWhere ?P
      (\<lambda>r. r\<lparr>cStatus := Queued, cLeaseOwner := None, cLeaseExpires := None\<rparr>) t"
    using assms(2) by (auto simp: sqlReclaim_def Let_def)
  show "goodTable t'" unfolding t' using assms(1) by (rule goodTable_update) auto
  show "sqlStatus k t' = sqlStatus k t \<or>
      (sqlStatus k t' = Some Queued \<and> (\<exists>w x. tableLease t k = Some (w, Some x) \<and> x < now))"
    unfolding t' sqlStatus_def tableLease_def
    by (cases "rowById k t") (auto simp: rowById_update leaseExpired_def split: option.splits)
qed

lemma sqlSweep_good: "goodTable t \<Longrightarrow> goodTable (snd (sqlSweep now t))"
  by (auto simp: sqlSweep_def goodTable_def list_all_iff intro: distinct_map_filter)

lemma tableLease_leased: "tableLease t i \<noteq> None \<longleftrightarrow> sqlStatus i t = Some Leased"
  by (auto simp: tableLease_def sqlStatus_def split: option.splits)

text \<open>What an inserted row reads back as: the job itself, queued and without lease or result.\<close>

definition freshJob :: "PersistedJob \<Rightarrow> PersistedJob" where
  "freshJob j = j\<lparr>pjStatus := Queued, pjLeaseOwner := None, pjLeaseExpires := None, pjResult := None,
                 pjResultExpires := None, pjError := None\<rparr>"

definition jobJsonSafe :: "PersistedJob \<Rightarrow> bool" where
  "jobJsonSafe j \<longleftrightarrow> jsonSafe (JArr (pjArgs j)) \<and> pred_option jsonSafe (pjContext j) \<and>
     pred_option jsonSafe (pjWorkerOptions j)"

lemma rowToJob_inserted: "jobJsonSafe j \<Longrightarrow> rowToJob (insertedRow j) = freshJob j"
  by (cases "pjContext j"; cases "pjWorkerOptions j")
    (auto simp: rowToJob_def insertedRow_def freshJob_def jobJsonSafe_def dec_enc simp del: jsonSafe.simps)

end
