(* ===== verification/DoStorage.thy ===== *)
theory DoStorage
  imports JobsTable
begin

text \<open>
  The default store (\<open>src/scheduler/stores/do-storage.ts\<close>): the jobs table together with the event
  log, the schema initialisation with its migrations, and the interpretation of the store
  contract.
\<close>

section \<open>Schema\<close>

text \<open>
  The part of the database that \<open>#init\<close> touches: the version in \<open>cfp_meta\<close>, the columns of \<open>jobs\<close>
  if that table exists, and the names of the other tables and indexes.
\<close>

record Schema =
  scVersion :: "nat option"
  scJobs :: "string list option"
  scObjects :: "string list"

definition SCHEMA_VERSION :: nat where "SCHEMA_VERSION = 3"

definition jobsColumns :: "string list" where
  "jobsColumns = [''id'', ''tenant_id'', ''fn_hash'', ''fn_source'', ''args'', ''context'',
     ''worker_options'', ''allow_list'', ''meta'', ''created_at'', ''deadline_ms'', ''retry_max'',
     ''retry_count'', ''retry_base_ms'', ''retry_backoff'', ''status'', ''lease_owner'',
     ''lease_expires_ms'', ''result'', ''result_expires_ms'', ''error'', ''idempotency_key'',
     ''cache_key_strategy'']"

text \<open>\<open>ALTER TABLE jobs ADD COLUMN\<close>, with the duplicate-column error swallowed.\<close>

definition addColumn :: "string \<Rightarrow> Schema \<Rightarrow> Schema" where
  "addColumn c s = s\<lparr>scJobs := map_option (\<lambda>cs. if c \<in> set cs then cs else cs @ [c]) (scJobs s)\<rparr>"

definition createObject :: "string \<Rightarrow> Schema \<Rightarrow> Schema" where
  "createObject n s = (if n \<in> set (scObjects s) then s else s\<lparr>scObjects := scObjects s @ [n]\<rparr>)"

definition initSchema :: "Schema \<Rightarrow> Schema" where
  "initSchema s0 =
     (let currentSchema = nullish (scVersion s0) 0;
          s1 = createObject ''cfp_meta'' s0;
          s2 = (if scVersion s0 = None then s1\<lparr>scVersion := Some SCHEMA_VERSION\<rparr> else s1);
          s3 = (if scJobs s2 = None then s2\<lparr>scJobs := Some jobsColumns\<rparr> else s2);
          s4 = (if currentSchema < 2 then addColumn ''cache_key_strategy'' s3 else s3);
          s5 = (if currentSchema < 3
                then addColumn ''allow_list'' (addColumn ''worker_options'' s4) else s4);
          s6 = (if currentSchema < SCHEMA_VERSION
                then s5\<lparr>scVersion := Some SCHEMA_VERSION\<rparr> else s5)
      in createObject ''events'' (createObject ''jobs_lease_expiry''
           (createObject ''jobs_status_deadline'' (createObject ''jobs_status_tenant_created'' s6))))"

definition columnsV1 :: "string list" where
  "columnsV1 = filter (\<lambda>c. c \<notin> {''cache_key_strategy'', ''worker_options'', ''allow_list''}) jobsColumns"

text \<open>A database some release has left behind: version \<open>v\<close> with the columns that version has.\<close>

definition deployed :: "Schema \<Rightarrow> bool" where
  "deployed s \<longleftrightarrow> (case scJobs s of None \<Rightarrow> True | Some cs \<Rightarrow>
     set columnsV1 \<subseteq> set cs \<and>
     (2 \<le> nullish (scVersion s) 0 \<longrightarrow> ''cache_key_strategy'' \<in> set cs) \<and>
     (3 \<le> nullish (scVersion s) 0 \<longrightarrow> ''worker_options'' \<in> set cs \<and> ''allow_list'' \<in> set cs))"

section \<open>Operations\<close>

record DoStore =
  dsRows :: table
  dsEvents :: "JobEvent list"

definition emptyDoStore :: DoStore where
  "emptyDoStore = \<lparr>dsRows = [], dsEvents = []\<rparr>"

text \<open>\<open>INSERT OR REPLACE\<close> on the key \<open>(ts, job_id, kind)\<close>.\<close>

definition dsEmit :: "int \<Rightarrow> string \<Rightarrow> EventKind \<Rightarrow> string option \<Rightarrow> DoStore \<Rightarrow> DoStore" where
  "dsEmit now i k d st =
     st\<lparr>dsEvents := filter (\<lambda>e. \<not> (evTs e = now \<and> evJobId e = i \<and> evKind e = k)) (dsEvents st) @
                   [\<lparr>evTs = now, evJobId = i, evKind = k, evDetail = d\<rparr>]\<rparr>"

definition dsEnqueue :: "int \<Rightarrow> PersistedJob \<Rightarrow> DoStore \<Rightarrow> string option \<times> DoStore" where
  "dsEnqueue now job st =
     (case insertJob job (dsRows st) of
        Inl msg \<Rightarrow> (Some msg, st)
      | Inr (True, t) \<Rightarrow> (None, dsEmit now (pjId job) EvEnqueued None (st\<lparr>dsRows := t\<rparr>))
      | Inr (False, t) \<Rightarrow> (None, st))"

definition dsClaim :: "int \<Rightarrow> ClaimRequest \<Rightarrow> DoStore \<Rightarrow> PersistedJob list \<times> DoStore" where
  "dsClaim now req st =
     (case sqlClaim now req (dsRows st) of (js, t) \<Rightarrow>
        (js, fold (\<lambda>j. dsEmit now (pjId j) EvLeased None) js (st\<lparr>dsRows := t\<rparr>)))"

definition dsAck :: "int \<Rightarrow> string \<Rightarrow> string \<Rightarrow> jsval \<Rightarrow> int \<Rightarrow> DoStore \<Rightarrow> bool \<times> DoStore" where
  "dsAck now i w v x st =
     (case sqlAck i w (enc v) x (dsRows st) of (ok, t) \<Rightarrow>
        if ok then (True, dsEmit now i EvDone None (st\<lparr>dsRows := t\<rparr>)) else (False, st\<lparr>dsRows := t\<rparr>))"

definition dsFail :: "int \<Rightarrow> string \<Rightarrow> string \<Rightarrow> FailRecord \<Rightarrow> DoStore \<Rightarrow> JobStatus \<times> DoStore" where
  "dsFail now i w e st =
     (case sqlFail i w e (dsRows st) of (s, t) \<Rightarrow>
        (case s of None \<Rightarrow> (Leased, st\<lparr>dsRows := t\<rparr>)
         | Some next \<Rightarrow>
             (next, dsEmit now i (if next = Failed then EvFailed else EvRetrying) None
                      (st\<lparr>dsRows := t\<rparr>))))"

definition dsFailQueued :: "int \<Rightarrow> string \<Rightarrow> FailRecord \<Rightarrow> DoStore \<Rightarrow> bool \<times> DoStore" where
  "dsFailQueued now i e st =
     (case sqlFailQueued i e (dsRows st) of (ok, t) \<Rightarrow>
        if ok then (True, dsEmit now i EvFailed None (st\<lparr>dsRows := t\<rparr>)) else (False, st\<lparr>dsRows := t\<rparr>))"

definition dsCancel :: "int \<Rightarrow> string \<Rightarrow> string option \<Rightarrow> DoStore \<Rightarrow> bool \<times> DoStore" where
  "dsCancel now i reason st =
     (case sqlCancel i (dsRows st) of (ok, t) \<Rightarrow>
        if ok then (True, dsEmit now i EvCancelled reason (st\<lparr>dsRows := t\<rparr>))
        else (False, st\<lparr>dsRows := t\<rparr>))"

definition dsStatus :: "string \<Rightarrow> DoStore \<Rightarrow> JobStatus option" where
  "dsStatus i st = sqlStatus i (dsRows st)"

definition dsResult :: "int \<Rightarrow> string \<Rightarrow> DoStore \<Rightarrow> JobResult" where
  "dsResult now i st = sqlResult '' not found (or result expired)'' now i (dsRows st)"

definition dsPeek :: "string option \<Rightarrow> nat \<Rightarrow> DoStore \<Rightarrow> PersistedJob list" where
  "dsPeek tenant limit st = sqlPeek tenant limit (dsRows st)"

definition dsSweepExpired :: "int \<Rightarrow> DoStore \<Rightarrow> nat \<times> DoStore" where
  "dsSweepExpired now st = (case sqlSweep now (dsRows st) of (n, t) \<Rightarrow> (n, st\<lparr>dsRows := t\<rparr>))"

definition dsReclaimExpiredLeases :: "int \<Rightarrow> DoStore \<Rightarrow> nat \<times> DoStore" where
  "dsReclaimExpiredLeases now st = (case sqlReclaim now (dsRows st) of (n, t) \<Rightarrow> (n, st\<lparr>dsRows := t\<rparr>))"

definition dsListActiveByTenant :: "string \<Rightarrow> DoStore \<Rightarrow> PersistedJob list" where
  "dsListActiveByTenant tenant st = sqlListActive tenant (dsRows st)"

definition dsEventsSince :: "int \<Rightarrow> nat \<Rightarrow> DoStore \<Rightarrow> JobEvent list" where
  "dsEventsSince since limit st =
     take limit (sort_key evTs (filter (\<lambda>e. since < evTs e) (dsEvents st)))"

definition doStorage :: "DoStore JobStore" where
  "doStorage = \<lparr>enqueueJ = dsEnqueue, claimJ = dsClaim, ackJ = (\<lambda>now i w v x st. apfst Inr (dsAck now i w v x st)), failJ = dsFail,
     cancelJ = dsCancel, failQueuedJ = dsFailQueued, statusJ = dsStatus, resultJ = dsResult,
     peekJ = dsPeek, sweepExpiredJ = dsSweepExpired, reclaimJ = dsReclaimExpiredLeases,
     listActiveJ = dsListActiveByTenant, eventsJ = dsEventsSince\<rparr>"

section \<open>The contract\<close>

lemma dsEmit_rows [simp]: "dsRows (dsEmit now i k d st) = dsRows st"
  by (simp add: dsEmit_def)

lemma fold_emit_rows [simp]: "dsRows (fold (\<lambda>j. dsEmit now (f j) k d) js st) = dsRows st"
  by (induction js arbitrary: st) simp_all

lemma ds_rows:
  "dsRows (snd (dsEnqueue now job st)) =
     (case insertJob job (dsRows st) of Inl m \<Rightarrow> dsRows st | Inr (b, t) \<Rightarrow> t)"
  "dsRows (snd (dsClaim now req st)) = snd (sqlClaim now req (dsRows st))"
  "fst (dsClaim now req st) = fst (sqlClaim now req (dsRows st))"
  "dsRows (snd (dsAck now i w v x st)) = snd (sqlAck i w (enc v) x (dsRows st))"
  "fst (dsAck now i w v x st) = fst (sqlAck i w (enc v) x (dsRows st))"
  "dsRows (snd (dsFail now i w e st)) = snd (sqlFail i w e (dsRows st))"
  "fst (dsFail now i w e st) = nullish (fst (sqlFail i w e (dsRows st))) Leased"
  "dsRows (snd (dsFailQueued now i e st)) = snd (sqlFailQueued i e (dsRows st))"
  "fst (dsFailQueued now i e st) = fst (sqlFailQueued i e (dsRows st))"
  "dsRows (snd (dsCancel now i r st)) = snd (sqlCancel i (dsRows st))"
  "fst (dsCancel now i r st) = fst (sqlCancel i (dsRows st))"
  "dsRows (snd (dsSweepExpired now st)) = snd (sqlSweep now (dsRows st))"
  "dsRows (snd (dsReclaimExpiredLeases now st)) = snd (sqlReclaim now (dsRows st))"
  using insertJob_row [of job "dsRows st"]
  by (auto simp: dsEnqueue_def dsClaim_def dsAck_def dsFail_def dsFailQueued_def dsCancel_def
      dsSweepExpired_def dsReclaimExpiredLeases_def split: sum.splits prod.splits bool.splits option.splits)

lemmas doStorage_ops = doStorage_def dsStatus_def

abbreviation dsGood :: "DoStore \<Rightarrow> bool" where
  "dsGood st \<equiv> goodTable (dsRows st)"

abbreviation dsLease :: "DoStore \<Rightarrow> string \<Rightarrow> (string option \<times> int option) option" where
  "dsLease st \<equiv> tableLease (dsRows st)"

interpretation ds: job_store doStorage dsGood dsLease
proof (unfold_locales, goal_cases)
  case (1 st c)
  note g = this
  show ?case
  proof (cases c)
    case (CEnqueue now j)
    show ?thesis
    proof (cases "insertJob j (dsRows st)")
      case (Inr p)
      then show ?thesis using g insertJob_good [of "dsRows st" j] CEnqueue
        by (cases p) (simp add: doStorage_ops ds_rows)
    qed (use g CEnqueue in \<open>simp add: doStorage_ops ds_rows\<close>)
  next
    case (CClaim now r)
    then show ?thesis using sqlClaim_facts(1) [OF g] by (metis doStorage_ops(1) ds_rows(2)
        callStore.simps(2) JobStore.select_convs(2) surj_pair snd_conv)
  next
    case (CSweep now)
    then show ?thesis using sqlSweep_good [OF g] by (simp add: doStorage_ops ds_rows)
  qed (use g sqlAck_facts(1) [OF g] sqlFail_facts(1) [OF g] sqlCancel_facts(1) [OF g]
      sqlFailQueued_facts(1) [OF g] sqlReclaim_facts(1) [OF g]
      in \<open>simp add: doStorage_ops ds_rows; metis prod.collapse\<close>)+
next
  case (2 st now j msg st' i)
  then have "dsRows st' = dsRows (snd (dsEnqueue now j st))" by (simp add: doStorage_ops)
  then show ?case using insertJob_status [of j "dsRows st" _ _ i]
    by (cases "insertJob j (dsRows st)") (auto simp: doStorage_ops ds_rows)
next
  case (3 st now r js st' i)
  then have "sqlClaim now r (dsRows st) = (js, dsRows st')"
    by (simp add: doStorage_ops prod_eq_iff flip: ds_rows)
  then show ?case using sqlClaim_facts(2) [OF 3(1)] by (simp add: doStorage_ops)
next
  case (4 st now r js st' j)
  then have "sqlClaim now r (dsRows st) = (js, dsRows st')"
    by (simp add: doStorage_ops prod_eq_iff flip: ds_rows)
  then show ?case using sqlClaim_facts(3) [OF 4(1)] 4(3) by (simp add: doStorage_ops)
next
  case (5 st now r js st' j)
  then have "sqlClaim now r (dsRows st) = (js, dsRows st')"
    by (simp add: doStorage_ops prod_eq_iff flip: ds_rows)
  then show ?case using sqlClaim_facts(4) [OF 5(1)] 5(3) by simp
next
  case (6 st i)
  then show ?case using tableLease_leased by (simp add: doStorage_ops)
next
  case (7 st now i w v x ans st' k)
  obtain ok where d: "dsAck now i w v x st = (ok, st')" "ans = Inr ok"
    using 7(2) by (cases "dsAck now i w v x st") (simp add: doStorage_ops)
  then have "sqlAck i w (enc v) x (dsRows st) = (ok, dsRows st')"
    using ds_rows(4,5) [of now i w v x st] by (simp add: prod_eq_iff)
  from sqlAck_facts(2,3) [OF 7(1) this] d(2) show ?case by (simp add: doStorage_ops)
next
  case (8 st now i w err s st' k)
  obtain s0 where s0: "sqlFail i w err (dsRows st) = (s0, dsRows st')" "s = nullish s0 Leased"
    using 8(2) by (metis doStorage_ops(1) JobStore.select_convs(4) ds_rows(6,7) fst_conv prod.collapse snd_conv)
  have "s0 = Some q \<Longrightarrow> q = Failed \<or> q = Queued" for q
    using sqlFail_facts(2) [OF 8(1) s0(1)] by (auto simp: failStatus_def split: option.splits if_splits)
  then show ?case using sqlFail_facts(3,4) [OF 8(1) s0(1)] s0(2)
    by (cases s0) (auto simp: doStorage_ops)
next
  case (9 st now i why ok st' k)
  then have "dsCancel now i why st = (ok, st')" by (simp add: doStorage_ops)
  then have "sqlCancel i (dsRows st) = (ok, dsRows st')"
    using ds_rows(10,11) [of now i why st] by (simp add: prod_eq_iff)
  from sqlCancel_facts(2,3) [OF 9(1) this] show ?case by (simp add: doStorage_ops)
next
  case (10 st now i err ok st' k)
  then have "dsFailQueued now i err st = (ok, st')" by (simp add: doStorage_ops)
  then have "sqlFailQueued i err (dsRows st) = (ok, dsRows st')"
    using ds_rows(8,9) [of now i err st] by (simp add: prod_eq_iff)
  from sqlFailQueued_facts(2,3) [OF 10(1) this] show ?case by (simp add: doStorage_ops)
next
  case (11 st now n st' k)
  then have "sqlReclaim now (dsRows st) = (fst (sqlReclaim now (dsRows st)), dsRows st')"
    by (auto simp: doStorage_ops prod_eq_iff simp flip: ds_rows)
  from sqlReclaim_facts(2) [OF 11(1) this] show ?case by (simp add: doStorage_ops)
qed

lemma dsGood_empty [simp]: "dsGood emptyDoStore"
  by (simp add: emptyDoStore_def goodTable_def)

lemma dsGood_run: "dsGood st \<Longrightarrow> dsGood (fold (callStore doStorage) cs st)"
  by (induction cs arbitrary: st) (auto intro: ds.good_call)

section \<open>How often a job is retried\<close>

text \<open>How many failures of job \<open>i\<close> in a sequence of calls put it back into the queue.\<close>

definition isRetry :: "string \<Rightarrow> StoreCall \<Rightarrow> DoStore \<Rightarrow> bool" where
  "isRetry i c st = (case c of CFail now k w e \<Rightarrow> k = i \<and> fst (dsFail now k w e st) = Queued | _ \<Rightarrow> False)"

fun retriesOf :: "string \<Rightarrow> StoreCall list \<Rightarrow> DoStore \<Rightarrow> nat" where
  "retriesOf i [] st = 0"
| "retriesOf i (c # cs) st =
     (if isRetry i c st then 1 else 0) + retriesOf i cs (callStore doStorage c st)"

definition budget :: "JobsRow \<Rightarrow> nat" where
  "budget r = (if terminal (cStatus r) then 0 else nat (cRetryMax r - 1 - cRetryCount r))"

lemma budget_fields:
  "budget (leaseTo now req r) = nat (cRetryMax r - 1 - cRetryCount r)"
  "claimable now r \<Longrightarrow> budget (leaseTo now req r) = budget r"
  "ownsLease k w r \<Longrightarrow> budget (failRow e r) + (if failStatus r = Queued then 1 else 0) \<le> budget r"
  by (auto simp: budget_def leaseTo_def failRow_def failStatus_def ownsLease_def claimable_def)

lemma budget_update:
  assumes "rowById i t = Some r" "\<And>r. cId (f r) = cId r" "\<And>r. P r \<Longrightarrow> budget (f r) \<le> budget r"
  shows "\<exists>r'. rowById i (updateWhere P f t) = Some r' \<and> budget r' \<le> budget r"
  using assms by (auto simp: rowById_update)

lemma budget_call:
  assumes g: "dsGood st" and r: "rowById i (dsRows st) = Some r" and c: "\<not> isSweep c"
  shows "\<exists>r'. rowById i (dsRows (callStore doStorage c st)) = Some r' \<and>
              budget r' + (if isRetry i c st then 1 else 0) \<le> budget r"
proof (cases c)
  case (CEnqueue now j)
  then show ?thesis using r insertJob_row [of j "dsRows st"]
    by (auto simp: doStorage_ops ds_rows isRetry_def split: sum.splits if_splits)
next
  case (CClaim now req)
  obtain js t where cl: "sqlClaim now req (dsRows st) = (js, t)" by force
  have "rowById i t = (if i \<in> pjId ` set js then Some (leaseTo now req r) else Some r) \<and>
      (i \<in> pjId ` set js \<longrightarrow> claimable now r)"
    using claimRows_rows [OF g cl [unfolded sqlClaim_def], of i] r by auto
  then show ?thesis using CClaim cl
    by (auto simp: doStorage_ops ds_rows isRetry_def budget_fields(2))
next
  case (CAck now k w v x)
  have "\<exists>r'. rowById i (updateWhere (ownsLease k w) (\<lambda>r. r\<lparr>cStatus := Done, cResult := Some (enc v), cResultExpires := Some x\<rparr>) (dsRows st)) = Some r' \<and> budget r' \<le> budget r"
    by (rule budget_update [OF r]) (auto simp: budget_def ownsLease_def)
  then show ?thesis using CAck by (simp add: doStorage_ops ds_rows isRetry_def sqlAck_def Let_def)
next
  case (CFail now k w e)
  show ?thesis
  proof (cases "ownsLease k w r")
    case True
    then have k: "k = i" using rowById_SomeD [OF r] by (auto simp: ownsLease_def)
    have "fst (sqlFail k w e (dsRows st)) = Some (failStatus r)"
      using sqlFail_facts(2) [OF g, of k w e] r True k by (cases "sqlFail k w e (dsRows st)") auto
    then show ?thesis using CFail True k r budget_fields(3) [OF True, of e]
      by (auto simp: doStorage_ops ds_rows isRetry_def sqlFail_def rowById_update split: if_splits)
  next
    case False
    have "\<not> isRetry i c st"
      using sqlFail_facts(2) [OF g, of k w e] r False CFail
      by (cases "sqlFail k w e (dsRows st)") (auto simp: isRetry_def ds_rows)
    then show ?thesis using CFail False r
      by (simp add: doStorage_ops ds_rows sqlFail_def rowById_update)
  qed
next
  case (CCancel now k why)
  have "\<exists>r'. rowById i (updateWhere (\<lambda>r. cId r = k \<and> active r) (\<lambda>r. r\<lparr>cStatus := Cancelled\<rparr>) (dsRows st)) = Some r' \<and> budget r' \<le> budget r"
    by (rule budget_update [OF r]) (auto simp: budget_def ownsLease_def)
  then show ?thesis using CCancel by (simp add: doStorage_ops ds_rows isRetry_def sqlCancel_def Let_def)
next
  case (CFailQueued now k e)
  have "\<exists>r'. rowById i (updateWhere (\<lambda>r. cId r = k \<and> cStatus r = Queued) (\<lambda>r. r\<lparr>cStatus := Failed, cError := Some e, cRetryCount := cRetryMax r\<rparr>) (dsRows st)) = Some r' \<and> budget r' \<le> budget r"
    by (rule budget_update [OF r]) (auto simp: budget_def ownsLease_def)
  then show ?thesis using CFailQueued by (simp add: doStorage_ops ds_rows isRetry_def sqlFailQueued_def Let_def)
next
  case (CReclaim now)
  have "\<exists>r'. rowById i (updateWhere (\<lambda>r. cStatus r = Leased \<and> leaseExpired now r) (\<lambda>r. r\<lparr>cStatus := Queued, cLeaseOwner := None, cLeaseExpires := None\<rparr>) (dsRows st)) = Some r' \<and> budget r' \<le> budget r"
    by (rule budget_update [OF r]) (auto simp: budget_def ownsLease_def)
  then show ?thesis using CReclaim by (simp add: doStorage_ops ds_rows isRetry_def sqlReclaim_def Let_def)
qed (use c in simp)

lemma retries_budget:
  assumes "dsGood st" "rowById i (dsRows st) = Some r" "\<not> list_ex isSweep cs"
  shows "retriesOf i cs st \<le> budget r"
  using assms
proof (induction cs arbitrary: st r)
  case (Cons c cs)
  obtain r' where r': "rowById i (dsRows (callStore doStorage c st)) = Some r'"
    "budget r' + (if isRetry i c st then 1 else 0) \<le> budget r"
    using budget_call [OF Cons.prems(1,2), of c] Cons.prems(3) by auto
  have "retriesOf i cs (callStore doStorage c st) \<le> budget r'"
    using Cons.IH [OF ds.good_call [OF Cons.prems(1)] r'(1)] Cons.prems(3) by simp
  then show ?case using r'(2) by (auto split: if_splits)
qed simp

text \<open>
  C12. The retry policy is bounded by the store: from the moment a job with \<open>retry.max = m\<close> and count
  \<open>c\<close> is in the table, at most \<open>m - 1 - c\<close> of its failures put it back into the queue, whatever
  claims, acknowledgements, cancellations and lease reclaims happen in between. A job that is
  already finished is never retried. So \<open>retry.max\<close> counts attempts: a new job gets at most
  \<open>m - 1\<close> retries, where \<open>docs/tuning.md\<close> ("retries before status flips to failed") and
  \<open>src/api/options.ts\<close> ("maximum retry attempts") promise \<open>m\<close>.
\<close>

theorem do_retry_bound:
  assumes "dsGood st" "rowById i (dsRows st) = Some r" "\<not> list_ex isSweep cs"
  shows "int (retriesOf i cs st) \<le> (if terminal (cStatus r) then 0 else max 0 (cRetryMax r - 1 - cRetryCount r))"
  using retries_budget [OF assms] by (auto simp: budget_def split: if_splits)

definition sampleJob :: "string \<Rightarrow> string \<Rightarrow> PersistedJob" where
  "sampleJob i tenant =
     \<lparr>pjId = i, pjTenant = tenant, pjFnHash = ''h'', pjFnSource = ''() => 1'', pjArgs = [JNum 1],
      pjContext = None, pjWorkerOptions = None, pjAllowList = None, pjMeta = None, pjCreatedAt = 5,
      pjDeadline = 1000, pjRetry = \<lparr>rpMax = 3, rpBackoff = Constant, rpBaseMs = 0\<rparr>,
      pjRetryCount = 0, pjStatus = Queued, pjCacheKeyStrategy = None, pjLeaseOwner = None,
      pjLeaseExpires = None, pjResult = None, pjResultExpires = None, pjError = None,
      pjIdempotencyKey = None\<rparr>"

definition sampleFail :: FailRecord where
  "sampleFail = \<lparr>frName = ''Error'', frMessage = ''boom'', frStack = None, frOriginalName = None\<rparr>"

definition sampleClaim :: ClaimRequest where
  "sampleClaim = \<lparr>crWorkerId = ''w'', crMax = 1, crLeaseMs = 10, crJobId = Some ''j''\<rparr>"

theorem do_retry_bound_witness:
  "retriesOf ''j'' [CClaim 10 sampleClaim, CFail 11 ''j'' ''w'' sampleFail, CClaim 12 sampleClaim,
      CFail 13 ''j'' ''w'' sampleFail, CClaim 14 sampleClaim, CFail 15 ''j'' ''w'' sampleFail,
      CClaim 16 sampleClaim]
     (callStore doStorage (CEnqueue 5 (sampleJob ''j'' ''t'')) emptyDoStore) = 2"
  (is "retriesOf _ ?cs ?st = 2")
proof -
  have "rowById ''j'' (dsRows ?st) = Some (insertedRow (sampleJob ''j'' ''t''))" by code_simp
  then have "int (retriesOf ''j'' ?cs ?st) \<le> 2"
    using do_retry_bound [of ?st "''j''" _ ?cs] ds.good_call [OF dsGood_empty]
    by (fastforce simp: insertedRow_def sampleJob_def)
  moreover have "2 \<le> retriesOf ''j'' ?cs ?st" by code_simp
  ultimately show ?thesis by simp
qed

section \<open>Storing and reading back\<close>

text \<open>A job without an idempotency key, or with one that no stored job has.\<close>

definition unusedKey :: "string option \<Rightarrow> table \<Rightarrow> bool" where
  "unusedKey k t \<longleftrightarrow> k = None \<or> \<not> list_ex (\<lambda>r. cIdempotencyKey r = k) t"

lemma claim_enqueued:
  assumes "rowById (pjId j) (dsRows st) = None" and "unusedKey (pjIdempotencyKey j) (dsRows st)"
    and "now' < pjDeadline j" and "crJobId req = Some (pjId j)" and "pjId j \<noteq> []"
    and e: "dsEnqueue now j st = (msg, st')"
  shows "msg = None \<and> fst (dsClaim now' req st') =
     [(rowToJob (insertedRow j))\<lparr>pjStatus := Leased, pjLeaseOwner := Some (crWorkerId req),
                   pjLeaseExpires := Some (now' + crLeaseMs req)\<rparr>]"
proof -
  have ins: "insertJob j (dsRows st) = Inr (True, dsRows st @ [insertedRow j])"
  proof -
    have "\<not> list_ex (\<lambda>q. cId q = cId (insertedRow j)) (dsRows st)"
      using assms(1) by (force simp: rowById_None list_ex_iff)
    moreover have "cIdempotencyKey (insertedRow j) = None \<or>
        \<not> list_ex (\<lambda>q. cIdempotencyKey q = cIdempotencyKey (insertedRow j)) (dsRows st)"
      using assms(2) by (simp add: unusedKey_def insertedRow_def)
    ultimately show ?thesis by (auto simp: insertJob_def sqlInsert_def)
  qed
  then have st': "dsRows st' = dsRows st @ [insertedRow j]" and "msg = None"
    using ds_rows(1) [of now j st] e by (auto simp: dsEnqueue_def)
  let ?r = "insertedRow j"
  have none: "filter (\<lambda>r. Some (cId r) = crJobId req) (filter (\<lambda>r. claimable now' r \<and> now' < cDeadline r) (dsRows st)) = []"
    using assms(1,4) by (force simp: rowById_None filter_empty_conv)
  have "claimable now' ?r" "cDeadline ?r = pjDeadline j"
    by (simp_all add: claimable_def) (simp add: insertedRow_def)
  then have cand: "claimCandidates now' req (dsRows st') = [?r]"
    using assms(3,4,5) none unfolding st' by (simp add: claimCandidates_def)
  have "0 < changes (\<lambda>r. cId r = pjId j \<and> claimable now' r) (dsRows st')"
    using \<open>claimable now' ?r\<close> st' by (force simp: changes_pos)
  then have "fst (dsClaim now' req st') = [rowToJob (leaseTo now' req ?r)]"
    by (simp add: ds_rows sqlClaim_def cand)
  also have "rowToJob (leaseTo now' req ?r) = (rowToJob ?r)\<lparr>pjStatus := Leased,
      pjLeaseOwner := Some (crWorkerId req), pjLeaseExpires := Some (now' + crLeaseMs req)\<rparr>"
    by (simp add: rowToJob_def leaseTo_def)
  finally show ?thesis using \<open>msg = None\<close> st' by simp
qed

text \<open>
  C13. What is enqueued is what is claimed: a job whose id is new, whose idempotency key (if it has one)
  no stored job has, and whose arguments, context and options are JSON values comes back from a claim by
  id with every field unchanged, its key included, leased to the claimer for \<open>leaseMs\<close>, provided its
  deadline has not passed.
\<close>

theorem do_enqueue_claim_roundtrip:
  assumes "rowById (pjId j) (dsRows st) = None"
    and "pjIdempotencyKey j = None \<or> \<not> list_ex (\<lambda>r. cIdempotencyKey r = pjIdempotencyKey j) (dsRows st)"
    and "jobJsonSafe j" and "now' < pjDeadline j" and "crJobId req = Some (pjId j)" and "pjId j \<noteq> []"
    and e: "dsEnqueue now j st = (msg, st')"
  shows "msg = None \<and> fst (dsClaim now' req st') =
     [(freshJob j)\<lparr>pjStatus := Leased, pjLeaseOwner := Some (crWorkerId req),
                   pjLeaseExpires := Some (now' + crLeaseMs req)\<rparr>]"
  using claim_enqueued [OF assms(1) _ assms(4,5,6,7)] assms(2) rowToJob_inserted [OF assms(3)]
  by (simp add: unusedKey_def)

theorem do_enqueue_claim_roundtrip_witness:
  "fst (dsClaim 10 sampleClaim (snd (dsEnqueue 5 ((sampleJob ''j'' ''t'')\<lparr>pjIdempotencyKey := Some ''once''\<rparr>)
       (snd (dsEnqueue 5 (sampleJob ''k'' ''t'') emptyDoStore))))) =
     [(sampleJob ''j'' ''t'')\<lparr>pjIdempotencyKey := Some ''once'', pjStatus := Leased, pjLeaseOwner := Some ''w'', pjLeaseExpires := Some 20\<rparr>]"
proof -
  let ?j = "(sampleJob ''j'' ''t'')\<lparr>pjIdempotencyKey := Some ''once''\<rparr>"
  let ?s = "snd (dsEnqueue 5 (sampleJob ''k'' ''t'') emptyDoStore)"
  obtain msg st' where e: "dsEnqueue 5 ?j ?s = (msg, st')" by force
  have "rowById (pjId ?j) (dsRows ?s) = None"
    "\<not> list_ex (\<lambda>r. cIdempotencyKey r = pjIdempotencyKey ?j) (dsRows ?s)" by code_simp+
  from do_enqueue_claim_roundtrip [OF this(1) disjI2 [OF this(2)] _ _ _ _ e, of 10 sampleClaim] e show ?thesis
    by (simp add: sampleJob_def sampleClaim_def jobJsonSafe_def freshJob_def)
qed

section \<open>Schema migrations\<close>

lemma addColumn_simps [simp]:
  "scVersion (addColumn c s) = scVersion s" "scObjects (addColumn c s) = scObjects s"
  by (simp_all add: addColumn_def)

lemma createObject_simps [simp]:
  "scVersion (createObject n s) = scVersion s" "scJobs (createObject n s) = scJobs s"
  by (simp_all add: createObject_def)

lemma createObject_set [simp]: "set (scObjects (createObject n s)) = insert n (set (scObjects s))"
  by (auto simp: createObject_def)

lemma createObject_present: "n \<in> set (scObjects s) \<Longrightarrow> createObject n s = s"
  by (simp add: createObject_def)

lemma scObjects_if [simp]: "scObjects (if b then x else y) = (if b then scObjects x else scObjects y)"
  by simp

abbreviation addCol :: "string \<Rightarrow> string list \<Rightarrow> string list" where
  "addCol c cs \<equiv> (if c \<in> set cs then cs else cs @ [c])"

lemma init_jobs:
  "scJobs (initSchema s) =
     Some (let cs = nullish (scJobs s) jobsColumns; v = nullish (scVersion s) 0;
               cs2 = (if v < 2 then addCol ''cache_key_strategy'' cs else cs)
           in if v < 3 then addCol ''allow_list'' (addCol ''worker_options'' cs2) else cs2)"
  by (cases "scJobs s"; cases "scVersion s") (simp_all add: initSchema_def Let_def addColumn_def)

lemma migrated_columns:
  fixes v :: nat
  assumes "V \<subseteq> set cs" "\<not> v < 2 \<Longrightarrow> a \<in> set cs" "\<not> v < 3 \<Longrightarrow> {b, c} \<subseteq> set cs"
  shows "V \<union> {a, b, c} \<subseteq> set (let cs2 = (if v < 2 then addCol a cs else cs)
                                 in if v < 3 then addCol c (addCol b cs2) else cs2)"
  using assms by (cases "v < 2"; cases "v < 3") (auto simp: Let_def)

lemma all_columns: "set jobsColumns \<subseteq> set columnsV1 \<union> {''cache_key_strategy'', ''worker_options'', ''allow_list''}"
  by (auto simp: columnsV1_def)

text \<open>
  Opening a database migrates it: whatever release created it, afterwards the jobs table has every
  column that the statements of this release use and the recorded version is at least 3; opening it
  again changes nothing.
\<close>

theorem schema_migrates:
  assumes "deployed s"
  shows "(\<exists>cs. scJobs (initSchema s) = Some cs \<and> set jobsColumns \<subseteq> set cs) \<and>
         3 \<le> nullish (scVersion (initSchema s)) 0 \<and> initSchema (initSchema s) = initSchema s"
proof -
  let ?s' = "initSchema s"
  have v: "\<exists>n. scVersion ?s' = Some n \<and> 3 \<le> n"
    by (cases "scVersion s") (auto simp: initSchema_def Let_def SCHEMA_VERSION_def)
  have objs: "set [''cfp_meta'', ''jobs_status_tenant_created'', ''jobs_status_deadline'',
      ''jobs_lease_expiry'', ''events''] \<subseteq> set (scObjects ?s')"
    by (simp add: initSchema_def Let_def)
  have cols: "\<exists>cs. scJobs ?s' = Some cs \<and> set jobsColumns \<subseteq> set cs"
  proof -
    let ?cs = "nullish (scJobs s) jobsColumns" and ?v = "nullish (scVersion s) 0"
    have "set columnsV1 \<subseteq> set ?cs \<and> (\<not> ?v < 2 \<longrightarrow> ''cache_key_strategy'' \<in> set ?cs) \<and>
        (\<not> ?v < 3 \<longrightarrow> {''worker_options'', ''allow_list''} \<subseteq> set ?cs)"
    proof (cases "scJobs s")
      case None
      then show ?thesis by (simp add: columnsV1_def) (simp add: jobsColumns_def)
    next
      case (Some cs)
      then show ?thesis using assms by (simp add: deployed_def not_less)
    qed
    then have "set columnsV1 \<union> {''cache_key_strategy'', ''worker_options'', ''allow_list''} \<subseteq>
        set (let cs2 = (if ?v < 2 then addCol ''cache_key_strategy'' ?cs else ?cs)
             in if ?v < 3 then addCol ''allow_list'' (addCol ''worker_options'' cs2) else cs2)"
      by (intro migrated_columns) simp_all
    then show ?thesis unfolding init_jobs using all_columns by (simp only: Let_def option.inject) blast
  qed
  have "initSchema ?s' = ?s'"
    using v objs cols
    by (auto simp: initSchema_def [of ?s'] Let_def createObject_present SCHEMA_VERSION_def)
  then show ?thesis using v cols by auto
qed

theorem schema_migrates_witness:
  "\<exists>cs. scJobs (initSchema \<lparr>scVersion = Some 1, scJobs = Some columnsV1, scObjects = [''cfp_meta'', ''events'']\<rparr>) = Some cs
     \<and> set jobsColumns \<subseteq> set cs"
  using schema_migrates [of "\<lparr>scVersion = Some 1, scJobs = Some columnsV1, scObjects = [''cfp_meta'', ''events'']\<rparr>"]
  by (simp add: deployed_def)

end
