(* ===== verification/D1Store.thy ===== *)
theory D1Store
  imports JobsTable
begin

text \<open>
  The D1 adapter (\<open>src/scheduler/stores/d1.ts\<close>): the same table and predicates without an event
  log. A statement's \<open>meta.changes\<close> is the number of rows it matched. \<open>fail\<close> answers with the
  status of the row after the update, even when the lease was lost. The state is the table.
  D1 throws when a bound value is \<open>undefined\<close>, which \<open>JSON.stringify\<close> gives for the result of a function
  that returns nothing; the acknowledgement of such a result rejects.
\<close>

section \<open>Schema\<close>

definition d1AddColumn :: "string \<Rightarrow> string list \<Rightarrow> string list" where
  "d1AddColumn c cs = (if c \<in> set cs then cs else cs @ [c])"

definition d1Columns :: "string list" where
  "d1Columns = [''id'', ''tenant_id'', ''fn_hash'', ''fn_source'', ''args'', ''context'',
     ''worker_options'', ''allow_list'', ''meta'', ''created_at'', ''deadline_ms'', ''retry_max'',
     ''retry_count'', ''retry_base_ms'', ''retry_backoff'', ''status'', ''lease_owner'',
     ''lease_expires_ms'', ''result'', ''result_expires_ms'', ''error'', ''idempotency_key'',
     ''cache_key_strategy'']"

definition d1Init :: "string list option \<Rightarrow> string list option" where
  "d1Init jobs =
     (let created = nullish jobs d1Columns
      in Some (d1AddColumn ''allow_list'' (d1AddColumn ''worker_options''
                (d1AddColumn ''cache_key_strategy'' created))))"

section \<open>Operations\<close>

definition d1Enqueue :: "int \<Rightarrow> PersistedJob \<Rightarrow> table \<Rightarrow> string option \<times> table" where
  "d1Enqueue now job t =
     (case insertJob job t of Inl msg \<Rightarrow> (Some msg, t) | Inr (b, t') \<Rightarrow> (None, t'))"

definition d1Claim :: "int \<Rightarrow> ClaimRequest \<Rightarrow> table \<Rightarrow> PersistedJob list \<times> table" where
  "d1Claim now req t = sqlClaim now req t"

text \<open>The error of D1's \<open>bind\<close> for an undefined value.\<close>

definition d1TypeError :: string where
  "d1TypeError = ''D1_TYPE_ERROR: Type '' @ [CHR 0x27] @ ''undefined'' @ [CHR 0x27] @
     '' not supported for value '' @ [CHR 0x27] @ ''undefined'' @ [CHR 0x27]"

definition d1Ack :: "int \<Rightarrow> string \<Rightarrow> string \<Rightarrow> jsval \<Rightarrow> int \<Rightarrow> table \<Rightarrow> (string + bool) \<times> table" where
  "d1Ack now i w v x t =
     (case stringify v of
        None \<Rightarrow> (Inl d1TypeError, t)
      | Some j \<Rightarrow> apfst Inr (sqlAck i w j x t))"

definition d1Fail :: "int \<Rightarrow> string \<Rightarrow> string \<Rightarrow> FailRecord \<Rightarrow> table \<Rightarrow> JobStatus \<times> table" where
  "d1Fail now i w e t =
     (let t' = snd (sqlFail i w e t) in (nullish (sqlStatus i t') Leased, t'))"

definition d1FailQueued :: "int \<Rightarrow> string \<Rightarrow> FailRecord \<Rightarrow> table \<Rightarrow> bool \<times> table" where
  "d1FailQueued now i e t = sqlFailQueued i e t"

definition d1Cancel :: "int \<Rightarrow> string \<Rightarrow> string option \<Rightarrow> table \<Rightarrow> bool \<times> table" where
  "d1Cancel now i reason t = sqlCancel i t"

definition d1Result :: "int \<Rightarrow> string \<Rightarrow> table \<Rightarrow> JobResult" where
  "d1Result now i t = sqlResult '' not found'' now i t"

definition d1SweepExpired :: "int \<Rightarrow> table \<Rightarrow> nat \<times> table" where
  "d1SweepExpired now t = sqlSweep now t"

definition d1ReclaimExpiredLeases :: "int \<Rightarrow> table \<Rightarrow> nat \<times> table" where
  "d1ReclaimExpiredLeases now t = sqlReclaim now t"

definition d1Store :: "table JobStore" where
  "d1Store = \<lparr>enqueueJ = d1Enqueue, claimJ = d1Claim, ackJ = d1Ack, failJ = d1Fail,
     cancelJ = d1Cancel, failQueuedJ = d1FailQueued, statusJ = sqlStatus, resultJ = d1Result,
     peekJ = sqlPeek, sweepExpiredJ = d1SweepExpired, reclaimJ = d1ReclaimExpiredLeases,
     listActiveJ = sqlListActive, eventsJ = (\<lambda>since limit t. [])\<rparr>"

section \<open>The contract\<close>

lemmas d1_ops = d1Store_def d1Claim_def d1FailQueued_def d1Cancel_def
  d1SweepExpired_def d1ReclaimExpiredLeases_def

lemma d1Ack_state: "snd (d1Ack now i w v x t) = (if stringify v = None then t else snd (sqlAck i w (enc v) x t))"
  by (auto simp: d1Ack_def enc_def split: option.splits)

lemma d1Ack_answer:
  "fst (d1Ack now i w v x t) = (if stringify v = None then Inl d1TypeError else Inr (fst (sqlAck i w (enc v) x t)))"
  by (auto simp: d1Ack_def enc_def split: option.splits)

lemma d1Enqueue_state: "snd (d1Enqueue now j t) = (case insertJob j t of Inl m \<Rightarrow> t | Inr (b, t') \<Rightarrow> t')"
  by (auto simp: d1Enqueue_def split: sum.splits)

interpretation d1: job_store d1Store goodTable tableLease
proof (unfold_locales, goal_cases)
  case (1 st c)
  note g = this
  show ?case
  proof (cases c)
    case (CEnqueue now j)
    then show ?thesis using g insertJob_good [OF g, of j]
      by (auto simp: d1_ops d1Enqueue_state split: sum.splits)
  next
    case (CClaim now r)
    then show ?thesis using sqlClaim_facts(1) [OF g, of now r]
      by (cases "sqlClaim now r st") (simp add: d1_ops)
  next
    case (CSweep now)
    then show ?thesis using sqlSweep_good [OF g] by (simp add: d1_ops)
  qed (use g sqlAck_facts(1) [OF g] sqlFail_facts(1) [OF g] sqlCancel_facts(1) [OF g]
      sqlFailQueued_facts(1) [OF g] sqlReclaim_facts(1) [OF g]
      in \<open>simp add: d1_ops d1Fail_def d1Ack_state Let_def; metis prod.collapse\<close>)+
next
  case (2 st now j msg st' i)
  then have "st' = snd (d1Enqueue now j st)" by (simp add: d1_ops)
  then show ?case using insertJob_status [of j st _ _ i]
    by (cases "insertJob j st") (auto simp: d1_ops d1Enqueue_state)
next
  case (3 st now r js st' i)
  then show ?case using sqlClaim_facts(2) [OF 3(1)] by (simp add: d1_ops)
next
  case (4 st now r js st' j)
  then show ?case using sqlClaim_facts(3) [OF 4(1)] by (simp add: d1_ops)
next
  case (5 st now r js st' j)
  then show ?case using sqlClaim_facts(4) [OF 5(1)] by (simp add: d1_ops)
next
  case (6 st i)
  then show ?case using tableLease_leased by (simp add: d1_ops)
next
  case (7 st now i w v x ans st' k)
  have a: "ans = fst (d1Ack now i w v x st)" "st' = snd (d1Ack now i w v x st)"
    using 7(2) by (simp_all add: d1_ops)
  obtain ok t where s: "sqlAck i w (enc v) x st = (ok, t)" by force
  from sqlAck_facts(2,3) [OF 7(1) s] s show ?case
    by (simp add: a d1Ack_answer d1Ack_state d1_ops)
next
  case (8 st now i w err s st' k)
  obtain s0 where s0: "sqlFail i w err st = (s0, st')" and s: "s = nullish (sqlStatus i st') Leased"
    using 8(2) by (cases "sqlFail i w err st") (auto simp: d1_ops d1Fail_def Let_def)
  have "s0 = Some q \<Longrightarrow> q = Failed \<or> q = Queued" for q
    using sqlFail_facts(2) [OF 8(1) s0] by (auto simp: failStatus_def split: option.splits if_splits)
  then show ?case using sqlFail_facts(3,4) [OF 8(1) s0] s
    by (cases s0) (auto simp: d1_ops)
next
  case (9 st now i why ok st' k)
  then have "sqlCancel i st = (ok, st')" by (simp add: d1_ops)
  from sqlCancel_facts(2,3) [OF 9(1) this] show ?case by (simp add: d1_ops)
next
  case (10 st now i err ok st' k)
  then have "sqlFailQueued i err st = (ok, st')" by (simp add: d1_ops)
  from sqlFailQueued_facts(2,3) [OF 10(1) this] show ?case by (simp add: d1_ops)
next
  case (11 st now n st' k)
  then have "sqlReclaim now st = (n, st')" by (simp add: d1_ops)
  from sqlReclaim_facts(2) [OF 11(1) this] show ?case by (simp add: d1_ops)
qed

lemma goodTable_empty [simp]: "goodTable []"
  by (simp add: goodTable_def)

lemma d1Good_run: "goodTable t \<Longrightarrow> goodTable (fold (callStore d1Store) cs t)"
  by (induction cs arbitrary: t) (auto intro: d1.good_call)

end
