(* ===== verification/QueuesStore.thy ===== *)
theory QueuesStore
  imports DoStorage D1Store
begin

text \<open>
  The Cloudflare Queues adapter (\<open>src/scheduler/stores/queues.ts\<close>): every job is written to a shadow
  store and sent to the queue; the queue's consumer drives execution, so \<open>claim\<close> and
  \<open>reclaimExpiredLeases\<close> do nothing and the rest is delegated. \<open>queue.send\<close> is code outside the
  repository: the parameter \<open>send\<close> gives the error it rejects with, if any. The state is the shadow's
  state with the list of messages sent so far.
\<close>

type_synonym 'st queued = "'st \<times> PersistedJob list"

definition qsEnqueue :: "(PersistedJob \<Rightarrow> string option) \<Rightarrow> 'st JobStore \<Rightarrow>
    int \<Rightarrow> PersistedJob \<Rightarrow> 'st queued \<Rightarrow> string option \<times> 'st queued" where
  "qsEnqueue send shadow now job st =
     (case enqueueJ shadow now job (fst st) of
        (Some err, s') \<Rightarrow> (Some err, (s', snd st))
      | (None, s') \<Rightarrow>
          (case send job of
             Some err \<Rightarrow> (Some err, (s', snd st))
           | None \<Rightarrow> (None, (s', snd st @ [job]))))"

definition onShadow :: "('st \<Rightarrow> 'a \<times> 'st) \<Rightarrow> 'st queued \<Rightarrow> 'a \<times> 'st queued" where
  "onShadow f st = (case f (fst st) of (a, s') \<Rightarrow> (a, (s', snd st)))"

definition qsClaim :: "int \<Rightarrow> ClaimRequest \<Rightarrow> 'st queued \<Rightarrow> PersistedJob list \<times> 'st queued" where
  "qsClaim now req st = ([], st)"

definition qsReclaimExpiredLeases :: "int \<Rightarrow> 'st queued \<Rightarrow> nat \<times> 'st queued" where
  "qsReclaimExpiredLeases now st = (0, st)"

definition queuesStore :: "(PersistedJob \<Rightarrow> string option) \<Rightarrow> 'st JobStore \<Rightarrow> 'st queued JobStore" where
  "queuesStore send shadow =
     \<lparr>enqueueJ = qsEnqueue send shadow, claimJ = qsClaim,
      ackJ = (\<lambda>now i w v x. onShadow (ackJ shadow now i w v x)),
      failJ = (\<lambda>now i w e. onShadow (failJ shadow now i w e)),
      cancelJ = (\<lambda>now i r. onShadow (cancelJ shadow now i r)),
      failQueuedJ = (\<lambda>now i e. onShadow (failQueuedJ shadow now i e)),
      statusJ = (\<lambda>i st. statusJ shadow i (fst st)),
      resultJ = (\<lambda>now i st. resultJ shadow now i (fst st)),
      peekJ = (\<lambda>tenant limit st. peekJ shadow tenant limit (fst st)),
      sweepExpiredJ = (\<lambda>now. onShadow (sweepExpiredJ shadow now)),
      reclaimJ = qsReclaimExpiredLeases,
      listActiveJ = (\<lambda>tenant st. listActiveJ shadow tenant (fst st)),
      eventsJ = (\<lambda>since limit st. eventsJ shadow since limit (fst st))\<rparr>"

lemmas queues_ops = queuesStore_def qsClaim_def qsReclaimExpiredLeases_def onShadow_def

lemma qsEnqueue_shadow: "fst (snd (qsEnqueue send shadow now job st)) = snd (enqueueJ shadow now job (fst st))"
  by (auto simp: qsEnqueue_def split: prod.splits option.splits)

lemma onShadow_state: "fst (snd (onShadow f st)) = snd (f (fst st))"
  by (simp add: onShadow_def split: prod.splits)

lemma queues_call:
  "fst (callStore (queuesStore send S) c st) =
     (case c of CClaim now r \<Rightarrow> fst st | CReclaim now \<Rightarrow> fst st | _ \<Rightarrow> callStore S c (fst st))"
  by (cases c) (simp_all add: queuesStore_def qsClaim_def qsReclaimExpiredLeases_def onShadow_state
      qsEnqueue_shadow)

text \<open>
  Any shadow that keeps the contract gives a queue-backed store that keeps it; the contract of the
  adapter on each of the two shadows of the repository follows.
\<close>

lemma queues_contract:
  assumes "job_store S good leaseOf"
  shows "job_store (queuesStore send S) (good \<circ> fst) (\<lambda>st. leaseOf (fst st))"
proof (unfold_locales, goal_cases)
  case (1 st c)
  then show ?case using job_store.good_call [OF assms, of "fst st" c]
    unfolding comp_def queues_call by (cases c) simp_all
next
  case (2 st now j msg st' i)
  then have "fst st' = snd (enqueueJ S now j (fst st))"
    by (metis JobStore.select_convs(1) qsEnqueue_shadow queuesStore_def snd_conv)
  then show ?case
    using job_store.enqueue_status [OF assms, of "fst st" now j "fst (enqueueJ S now j (fst st))" "fst st'" i] 2(1)
    by (simp add: queuesStore_def)
next
  case (3 st now r js st' i)
  then show ?case by (simp add: queues_ops)
next
  case (4 st now r js st' j)
  then show ?case by (simp add: queues_ops)
next
  case (5 st now r js st' j)
  then show ?case by (simp add: queues_ops)
next
  case (6 st i)
  then show ?case using job_store.lease_leased [OF assms] by (simp add: queues_ops)
next
  case (7 st now i w v x ok st' k)
  then show ?case using job_store.ack_cas [OF assms, of "fst st" now i w v x]
    by (auto simp: queues_ops split: prod.splits)
next
  case (8 st now i w err s st' k)
  then show ?case using job_store.fail_cas [OF assms, of "fst st" now i w err]
    by (auto simp: queues_ops split: prod.splits)
next
  case (9 st now i why ok st' k)
  then show ?case using job_store.cancel_cas [OF assms, of "fst st" now i why]
    by (auto simp: queues_ops split: prod.splits)
next
  case (10 st now i err ok st' k)
  then show ?case using job_store.failQueued_cas [OF assms, of "fst st" now i err]
    by (auto simp: queues_ops split: prod.splits)
next
  case (11 st now n st' k)
  then show ?case by (simp add: queues_ops)
qed

interpretation qds: job_store "queuesStore send doStorage" "dsGood \<circ> fst" "\<lambda>st. dsLease (fst st)" for send
  by (rule queues_contract) (rule ds.job_store_axioms)

interpretation qd1: job_store "queuesStore send d1Store" "goodTable \<circ> fst" "\<lambda>st. tableLease (fst st)" for send
  by (rule queues_contract) (rule d1.job_store_axioms)

lemma queues_good_run:
  "dsGood (fst st) \<Longrightarrow> dsGood (fst (fold (callStore (queuesStore send doStorage)) cs st))"
  using qds.good_call by (induction cs arbitrary: st) (auto simp: comp_def)

lemma queues_d1_run:
  "goodTable (fst st) \<Longrightarrow> goodTable (fst (fold (callStore (queuesStore send d1Store)) cs st))"
  using qd1.good_call by (induction cs arbitrary: st) (auto simp: comp_def)

text \<open>
  C9. At most once: in every history of a store, on any of the three back ends, at most one
  acknowledgement of a job id is accepted after the point where the history stops sweeping results,
  however claims, lease expiries, retries and cancellations interleave.
\<close>

theorem ack_once:
  assumes "\<not> list_ex isSweep cs"
  shows "ackCount doStorage i cs (fold (callStore doStorage) pre emptyDoStore) \<le> 1 \<and>
         ackCount d1Store i cs (fold (callStore d1Store) pre []) \<le> 1 \<and>
         ackCount (queuesStore send doStorage) i cs
           (fold (callStore (queuesStore send doStorage)) pre (emptyDoStore, [])) \<le> 1"
  using ds.ack_at_most_once [OF dsGood_run [OF dsGood_empty] assms]
    d1.ack_at_most_once [OF d1Good_run [OF goodTable_empty] assms]
    qds.ack_at_most_once [OF _ assms, of _ send] queues_good_run [of "(emptyDoStore, [])" send pre]
  by (simp add: comp_def)

theorem ack_once_witness:
  "ackCount doStorage ''j'' [CClaim 10 sampleClaim, CAck 11 ''j'' ''w'' (JNum 7) 99, CAck 12 ''j'' ''w'' (JNum 8) 99]
     (fold (callStore doStorage) [CEnqueue 5 (sampleJob ''j'' ''t'')] emptyDoStore) = 1"
  (is "ackCount _ _ ?cs ?st = 1")
proof -
  have "ackCount doStorage ''j'' ?cs ?st \<le> 1"
    using ack_once [of ?cs "''j''" "[CEnqueue 5 (sampleJob ''j'' ''t'')]" "\<lambda>_. None"] by simp
  moreover have "1 \<le> ackCount doStorage ''j'' ?cs ?st" by code_simp
  ultimately show ?thesis by simp
qed

text \<open>
  C10. A finished job stays finished: on the DO store, on D1, and on the queue adapter over either of
  them, once a job is done, failed or cancelled no sequence of calls without a result sweep changes its
  status.
\<close>

theorem finished_is_final:
  assumes "\<not> list_ex isSweep cs" "terminal s"
  shows "(dsStatus i (fold (callStore doStorage) pre emptyDoStore) = Some s \<longrightarrow>
            dsStatus i (fold (callStore doStorage) (pre @ cs) emptyDoStore) = Some s) \<and>
         (sqlStatus i (fold (callStore d1Store) pre []) = Some s \<longrightarrow>
            sqlStatus i (fold (callStore d1Store) (pre @ cs) []) = Some s) \<and>
         (statusJ (queuesStore send doStorage) i
              (fold (callStore (queuesStore send doStorage)) pre (emptyDoStore, [])) = Some s \<longrightarrow>
            statusJ (queuesStore send doStorage) i
              (fold (callStore (queuesStore send doStorage)) (pre @ cs) (emptyDoStore, [])) = Some s) \<and>
         (statusJ (queuesStore send d1Store) i
              (fold (callStore (queuesStore send d1Store)) pre ([], [])) = Some s \<longrightarrow>
            statusJ (queuesStore send d1Store) i
              (fold (callStore (queuesStore send d1Store)) (pre @ cs) ([], [])) = Some s)"
proof (intro conjI impI)
  show "dsStatus i (fold (callStore doStorage) (pre @ cs) emptyDoStore) = Some s"
    if "dsStatus i (fold (callStore doStorage) pre emptyDoStore) = Some s"
    using ds.terminal_run [OF dsGood_run [OF dsGood_empty] _ assms(2,1), of i pre] that
    by (simp add: doStorage_ops)
  show "sqlStatus i (fold (callStore d1Store) (pre @ cs) []) = Some s"
    if "sqlStatus i (fold (callStore d1Store) pre []) = Some s"
    using d1.terminal_run [OF d1Good_run [OF goodTable_empty] _ assms(2,1), of i pre] that
    by (simp add: d1_ops)
  show "statusJ (queuesStore send doStorage) i
      (fold (callStore (queuesStore send doStorage)) (pre @ cs) (emptyDoStore, [])) = Some s"
    if "statusJ (queuesStore send doStorage) i
      (fold (callStore (queuesStore send doStorage)) pre (emptyDoStore, [])) = Some s"
    using qds.terminal_run [OF _ that assms(2,1)] queues_good_run [of "(emptyDoStore, [])" send pre] by simp
  show "statusJ (queuesStore send d1Store) i
      (fold (callStore (queuesStore send d1Store)) (pre @ cs) ([], [])) = Some s"
    if "statusJ (queuesStore send d1Store) i
      (fold (callStore (queuesStore send d1Store)) pre ([], [])) = Some s"
    using qd1.terminal_run [OF _ that assms(2,1)] queues_d1_run [of "([], [])" send pre] by simp
qed

theorem finished_is_final_witness:
  "dsStatus ''j'' (fold (callStore doStorage) ([CEnqueue 5 (sampleJob ''j'' ''t''), CCancel 6 ''j'' None] @
      [CClaim 10 sampleClaim, CFailQueued 11 ''j'' sampleFail]) emptyDoStore) = Some Cancelled"
  (is "dsStatus _ (fold _ (?pre @ ?cs) _) = _")
proof -
  have "dsStatus ''j'' (fold (callStore doStorage) ?pre emptyDoStore) = Some Cancelled" by code_simp
  then show ?thesis using finished_is_final [of ?cs Cancelled "''j''" ?pre "\<lambda>_. None"] by simp
qed

text \<open>
  A lease is exclusive: after a claim hands a job to a worker, an acknowledgement of that job is
  accepted from that worker and from nobody else.
\<close>

theorem claim_exclusive:
  assumes "dsClaim now req (fold (callStore doStorage) pre emptyDoStore) = (js, st')" "j \<in> set js"
  shows "fst (dsAck t (pjId j) w v x st') \<longleftrightarrow> w = crWorkerId req"
  using ds.lease_exclusive [OF dsGood_run [OF dsGood_empty], of now req pre js st' j t w v x] assms
  by (cases "dsAck t (pjId j) w v x st'") (simp add: doStorage_ops)

theorem claim_exclusive_witness:
  "\<exists>js st'. dsClaim 10 sampleClaim (fold (callStore doStorage) [CEnqueue 5 (sampleJob ''j'' ''t'')] emptyDoStore) = (js, st')
     \<and> js \<noteq> [] \<and> \<not> fst (dsAck 11 (pjId (hd js)) ''other'' (JNum 1) 99 st')"
proof -
  let ?st = "fold (callStore doStorage) [CEnqueue 5 (sampleJob ''j'' ''t'')] emptyDoStore"
  obtain js st' where c: "dsClaim 10 sampleClaim ?st = (js, st')" by force
  have "fst (dsClaim 10 sampleClaim ?st) \<noteq> []" by code_simp
  then have "js \<noteq> []" using c by simp
  then show ?thesis
    using claim_exclusive [OF c, of "hd js" 11 "''other''" "JNum 1" 99] c
    by (auto simp: sampleClaim_def)
qed

text \<open>
  When the lease is lost the two stores answer \<open>fail\<close> differently: the DO store says \<open>leased\<close>, so
  the dispatcher drops the job; D1 reports the current status, and for a reclaimed job that is
  \<open>queued\<close>, on which the dispatcher schedules a retry although nothing was changed.
\<close>

theorem lost_lease_fail:
  assumes "goodTable t" "tableLease t i = None"
  shows "dsFail now i w e \<lparr>dsRows = t, dsEvents = ev\<rparr> = (Leased, \<lparr>dsRows = t, dsEvents = ev\<rparr>) \<and>
         d1Fail now i w e t = (nullish (sqlStatus i t) Leased, t)"
proof -
  have no: "\<not> ownsLease i w r" if "r \<in> set t" for r
    using assms that rowById_in [OF goodTable_distinct [OF assms(1)] that]
    by (auto simp: ownsLease_def tableLease_def)
  then have "snd (sqlFail i w e t) = t" "fst (sqlFail i w e t) = None"
    by (auto simp: sqlFail_def updateWhere_def find_None_iff intro: map_idI)
  then show ?thesis by (cases "sqlFail i w e t") (simp add: dsFail_def d1Fail_def)
qed

theorem lost_lease_fail_witness:
  "fst (d1Fail 20 ''j'' ''w'' sampleFail [insertedRow (sampleJob ''j'' ''t'')]) = Queued"
proof -
  have "goodTable [insertedRow (sampleJob ''j'' ''t'')]"
    by (simp add: goodTable_def)
  moreover have "tableLease [insertedRow (sampleJob ''j'' ''t'')] ''j'' = None"
    by (simp add: tableLease_def sampleJob_def)
  ultimately have "d1Fail 20 ''j'' ''w'' sampleFail [insertedRow (sampleJob ''j'' ''t'')] =
      (nullish (sqlStatus ''j'' [insertedRow (sampleJob ''j'' ''t'')]) Leased, [insertedRow (sampleJob ''j'' ''t'')])"
    using lost_lease_fail [of "[insertedRow (sampleJob ''j'' ''t'')]" "''j''" 20 "''w''" sampleFail "[]"] by simp
  then show ?thesis by (simp add: sqlStatus_def sampleJob_def)
qed

end
