(* ===== verification/Dispatcher.thy ===== *)
theory Dispatcher
  imports QueuesStore "HOL-Library.Multiset"
begin

text \<open>
  The dispatcher core (\<open>src/scheduler/dispatcher.ts\<close>): the ready set with its round-robin order, the
  running set, the single-flight dispatch loop and the life of one job run. The code is
  asynchronous; every stretch of it between two \<open>await\<close>s is one function here, and what it waits for
  is explicit in the state, so an execution is a sequence of such stretches in any order.
\<close>

section \<open>Configuration and state\<close>

text \<open>A queue depth of \<open>None\<close> is \<open>Number.POSITIVE_INFINITY\<close>.\<close>

record DispatcherConfig =
  dcInFlightLimit :: nat
  dcMaxQueueDepth :: "nat option"
  dcResultTtlMs :: int
  dcFairCapacity :: nat
  dcLeaseMs :: int

record PartialConfig =
  pcInFlightLimit :: "nat option"
  pcMaxQueueDepth :: "nat option option"
  pcResultTtlMs :: "int option"
  pcFairCapacity :: "nat option"
  pcLeaseMs :: "int option"

definition DEFAULT_DISPATCHER_CONFIG :: DispatcherConfig where
  "DEFAULT_DISPATCHER_CONFIG = \<lparr>dcInFlightLimit = 32, dcMaxQueueDepth = None,
     dcResultTtlMs = 3600000, dcFairCapacity = 4, dcLeaseMs = 60000\<rparr>"

text \<open>The spread \<open>{...config, ...c}\<close>: fields that are present win.\<close>

definition mergeConfig :: "DispatcherConfig \<Rightarrow> PartialConfig \<Rightarrow> DispatcherConfig" where
  "mergeConfig d c =
     \<lparr>dcInFlightLimit = nullish (pcInFlightLimit c) (dcInFlightLimit d),
      dcMaxQueueDepth = nullish (pcMaxQueueDepth c) (dcMaxQueueDepth d),
      dcResultTtlMs = nullish (pcResultTtlMs c) (dcResultTtlMs d),
      dcFairCapacity = nullish (pcFairCapacity c) (dcFairCapacity d),
      dcLeaseMs = nullish (pcLeaseMs c) (dcLeaseMs d)\<rparr>"

record RunningJob =
  rjId :: string
  rjTenant :: string
  rjStartedAt :: int

record Dispatcher =
  dReady :: "(string \<times> PersistedJob list) list"
  dOrder :: "string list"
  dRunning :: "(string \<times> RunningJob) list"
  dConfig :: DispatcherConfig
  dLoopRunning :: bool

record DispatcherStats =
  stReady :: nat
  stRunning :: nat
  stTenantsReady :: nat
  stInFlightLimit :: nat
  stMaxQueueDepth :: "nat option"

definition newDispatcher :: "PartialConfig \<Rightarrow> Dispatcher" where
  "newDispatcher c = \<lparr>dReady = [], dOrder = [], dRunning = [],
     dConfig = mergeConfig DEFAULT_DISPATCHER_CONFIG c, dLoopRunning = False\<rparr>"

definition configure :: "PartialConfig \<Rightarrow> Dispatcher \<Rightarrow> Dispatcher" where
  "configure c d = d\<lparr>dConfig := mergeConfig (dConfig d) c\<rparr>"

definition totalReady :: "Dispatcher \<Rightarrow> nat" where
  "totalReady d = sum_list (map (\<lambda>(t, q). length q) (dReady d))"

definition runningCount :: "Dispatcher \<Rightarrow> nat" where
  "runningCount d = length (dRunning d)"

definition stats :: "Dispatcher \<Rightarrow> DispatcherStats" where
  "stats d = \<lparr>stReady = totalReady d, stRunning = runningCount d, stTenantsReady = length (dReady d),
     stInFlightLimit = dcInFlightLimit (dConfig d), stMaxQueueDepth = dcMaxQueueDepth (dConfig d)\<rparr>"

definition inspectReady :: "Dispatcher \<Rightarrow> (string \<times> string list) list" where
  "inspectReady d = map (\<lambda>(t, q). (t, map pjId q)) (dReady d)"

section \<open>The ready set\<close>

definition enqueueReady :: "PersistedJob \<Rightarrow> Dispatcher \<Rightarrow> Dispatcher" where
  "enqueueReady job d =
     (let t = pjTenant job in
      case map_of (dReady d) t of
        None \<Rightarrow> d\<lparr>dReady := AList.update t [job] (dReady d), dOrder := dOrder d @ [t]\<rparr>
      | Some q \<Rightarrow> d\<lparr>dReady := AList.update t (q @ [job]) (dReady d)\<rparr>)"

definition removeTenant :: "string \<Rightarrow> Dispatcher \<Rightarrow> Dispatcher" where
  "removeTenant t d = d\<lparr>dReady := AList.delete t (dReady d), dOrder := remove1 t (dOrder d)\<rparr>"

definition setBucket :: "string \<Rightarrow> PersistedJob list \<Rightarrow> Dispatcher \<Rightarrow> Dispatcher" where
  "setBucket t q d =
     (if q = [] then removeTenant t (d\<lparr>dReady := AList.update t q (dReady d)\<rparr>)
      else d\<lparr>dReady := AList.update t q (dReady d)\<rparr>)"

fun dropFirst :: "string \<Rightarrow> PersistedJob list \<Rightarrow> PersistedJob list" where
  "dropFirst i [] = []"
| "dropFirst i (j # js) = (if pjId j = i then js else j # dropFirst i js)"

definition dropFromReady :: "string \<Rightarrow> Dispatcher \<Rightarrow> Dispatcher" where
  "dropFromReady i d =
     (case find (\<lambda>(t, q). i \<in> pjId ` set q) (dReady d) of
        None \<Rightarrow> d
      | Some (t, q) \<Rightarrow> setBucket t (dropFirst i q) d)"

definition clearTenant :: "string \<Rightarrow> Dispatcher \<Rightarrow> Dispatcher" where
  "clearTenant t d = removeTenant t d"

definition inFlightOf :: "Dispatcher \<Rightarrow> string \<Rightarrow> nat" where
  "inFlightOf d t = length (filter (\<lambda>(i, r). rjTenant r = t) (dRunning d))"

text \<open>
  The scan of \<open>#takeNextReady\<close>: index \<open>i\<close> counts the iterations against the current length of the
  order, which shrinks when an empty bucket is removed.
\<close>

function takeLoop :: "nat \<Rightarrow> Dispatcher \<Rightarrow> PersistedJob option \<times> Dispatcher" where
  "takeLoop i d =
     (if length (dOrder d) \<le> i then (None, d)
      else let t = hd (dOrder d);
               d1 = d\<lparr>dOrder := tl (dOrder d) @ [t]\<rparr>
           in case nullish (map_of (dReady d1) t) [] of
                [] \<Rightarrow> takeLoop (Suc i) (removeTenant t d1)
              | job # q \<Rightarrow>
                  if dcFairCapacity (dConfig d) \<le> inFlightOf d t then takeLoop (Suc i) d1
                  else (Some job, setBucket t q d1))"
  by pat_completeness auto
termination
  by (relation "measure (\<lambda>(i, d). length (dOrder d) - i)")
    (auto simp: removeTenant_def length_remove1)

declare takeLoop.simps [simp del]

definition takeNextReady :: "Dispatcher \<Rightarrow> PersistedJob option \<times> Dispatcher" where
  "takeNextReady d = (if dOrder d = [] then (None, d) else takeLoop 0 d)"

text \<open>The override that sets nothing.\<close>

definition noConfig :: PartialConfig where
  "noConfig = \<lparr>pcInFlightLimit = None, pcMaxQueueDepth = None, pcResultTtlMs = None,
     pcFairCapacity = None, pcLeaseMs = None\<rparr>"

section \<open>Well-formed ready sets\<close>

text \<open>
  The order lists exactly the tenants that have a bucket, once each; no bucket is empty; every job
  is in the bucket of its tenant.
\<close>

definition wfReady :: "Dispatcher \<Rightarrow> bool" where
  "wfReady d \<longleftrightarrow> distinct (keys (dReady d)) \<and> distinct (dOrder d) \<and>
     set (dOrder d) = set (keys (dReady d)) \<and>
     list_all (\<lambda>(t, q). q \<noteq> [] \<and> list_all (\<lambda>j. pjTenant j = t) q) (dReady d)"

lemma wfReady_bucket:
  "wfReady d \<Longrightarrow> map_of (dReady d) t = Some q \<Longrightarrow> q \<noteq> [] \<and> (\<forall>j \<in> set q. pjTenant j = t)"
  by (auto simp: wfReady_def list_all_iff dest: map_of_SomeD)

lemma wfReady_order: "wfReady d \<Longrightarrow> t \<in> set (dOrder d) \<longleftrightarrow> map_of (dReady d) t \<noteq> None"
  by (auto simp: wfReady_def map_of_eq_None_iff)

lemma update_fresh: "k \<notin> set (keys m) \<Longrightarrow> AList.update k v m = m @ [(k, v)]"
  by (induction m) auto

lemma set_update: "set (AList.update k v m) \<subseteq> insert (k, v) (set m)"
  by (induction m) auto

lemma delete_filter: "AList.delete k m = filter (\<lambda>p. fst p \<noteq> k) m"
  by (induction m) auto

lemma delete_update_same: "AList.delete k (AList.update k v m) = AList.delete k m"
  by (induction m) auto

lemma wfReady_new [invs]: "wfReady (newDispatcher c)"
  by (simp add: newDispatcher_def wfReady_def)

lemma wfReady_config [invs]: "wfReady (configure c d) = wfReady d"
  by (simp add: configure_def wfReady_def)

lemma wfReady_cong [simp]:
  "wfReady (d\<lparr>dRunning := r\<rparr>) = wfReady d" "wfReady (d\<lparr>dLoopRunning := b\<rparr>) = wfReady d"
  by (simp_all add: wfReady_def)

lemma wfReady_enqueue [invs]:
  assumes "wfReady d"
  shows "wfReady (enqueueReady job d)"
proof (cases "map_of (dReady d) (pjTenant job)")
  case None
  then have "pjTenant job \<notin> set (keys (dReady d))" by (simp add: map_of_eq_None_iff)
  then show ?thesis using assms None
    by (auto simp: wfReady_def enqueueReady_def Let_def update_fresh)
next
  case (Some q)
  then have k: "pjTenant job \<in> set (keys (dReady d))" by (force dest: map_of_SomeD)
  have "list_all (\<lambda>(t, q). q \<noteq> [] \<and> list_all (\<lambda>j. pjTenant j = t) q)
      (AList.update (pjTenant job) (q @ [job]) (dReady d))"
    using assms wfReady_bucket [OF assms Some]
    by (fastforce simp: wfReady_def list_all_iff dest!: subsetD [OF set_update])
  then show ?thesis using assms Some k
    by (auto simp: wfReady_def enqueueReady_def Let_def keys_update)
qed

lemma wfReady_remove [invs]:
  assumes "wfReady d"
  shows "wfReady (removeTenant t d)"
  using assms by (auto simp: wfReady_def removeTenant_def list_all_iff delete_filter distinct_map_filter)

lemma wfReady_setBucket [invs]:
  assumes "wfReady d" "map_of (dReady d) t \<noteq> None" "\<forall>j \<in> set q. pjTenant j = t"
  shows "wfReady (setBucket t q d)"
proof -
  have k: "t \<in> set (keys (dReady d))" using assms(2) by (force dest: map_of_SomeD)
  show ?thesis
  proof (cases "q = []")
    case True
    then show ?thesis using wfReady_remove [OF assms(1), of t]
      by (simp add: setBucket_def removeTenant_def delete_update_same)
  next
    case False
    then show ?thesis using assms k
      by (fastforce simp: wfReady_def setBucket_def keys_update list_all_iff
          dest!: subsetD [OF set_update])
  qed
qed

lemma dropFirst_subset: "set (dropFirst i js) \<subseteq> set js"
  by (induction js) auto

lemma wfReady_drop [invs]:
  assumes "wfReady d"
  shows "wfReady (dropFromReady i d)"
proof (cases "find (\<lambda>(t, q). i \<in> pjId ` set q) (dReady d)")
  case (Some p)
  obtain t q where p: "p = (t, q)" by (cases p)
  have "(t, q) \<in> set (dReady d)" using Some p by (auto simp: find_Some_iff in_set_conv_nth)
  then have m: "map_of (dReady d) t = Some q" using assms by (simp add: wfReady_def)
  have "wfReady (setBucket t (dropFirst i q) d)"
    using wfReady_bucket [OF assms m] dropFirst_subset [of i q] m
    by (intro wfReady_setBucket [OF assms]) auto
  then show ?thesis using Some p by (simp add: dropFromReady_def)
qed (use assms in \<open>simp add: dropFromReady_def\<close>)

section \<open>The round robin\<close>

definition eligible :: "Dispatcher \<Rightarrow> string \<Rightarrow> bool" where
  "eligible d t \<longleftrightarrow> inFlightOf d t < dcFairCapacity (dConfig d)"

lemma eligible_order [simp]: "eligible (d\<lparr>dOrder := xs\<rparr>) t = eligible d t"
  by (simp add: eligible_def inFlightOf_def)

text \<open>The round robin as a rule: pass over the tenants at capacity, serve the first other one.\<close>

definition serve :: "string list \<Rightarrow> string list \<Rightarrow> Dispatcher \<Rightarrow> PersistedJob option \<times> Dispatcher" where
  "serve xs ys d =
     (case dropWhile (\<lambda>t. \<not> eligible d t) xs of
        [] \<Rightarrow> (None, d\<lparr>dOrder := ys @ xs\<rparr>)
      | t # post \<Rightarrow>
          let q = the (map_of (dReady d) t)
          in (Some (hd q), setBucket t (tl q)
                (d\<lparr>dOrder := post @ ys @ takeWhile (\<lambda>t. \<not> eligible d t) xs @ [t]\<rparr>)))"

lemma takeLoop_scan:
  assumes "wfReady d" "dOrder d = xs @ ys"
  shows "takeLoop (length ys) d = serve xs ys d"
  using assms
proof (induction xs arbitrary: ys d)
  case Nil
  then show ?case by (simp add: takeLoop.simps serve_def)
next
  case (Cons t xs)
  let ?d1 = "d\<lparr>dOrder := xs @ ys @ [t]\<rparr>"
  have w1: "wfReady ?d1" using Cons.prems by (auto simp: wfReady_def)
  obtain q0 where q0: "map_of (dReady d) t = Some q0"
    using wfReady_order [OF Cons.prems(1), of t] Cons.prems(2) by auto
  then obtain job q where q: "q0 = job # q"
    using wfReady_bucket [OF Cons.prems(1) q0] by (cases q0) auto
  have unfold: "takeLoop (length ys) d =
      (if eligible d t then (Some job, setBucket t q ?d1) else takeLoop (length (ys @ [t])) ?d1)"
    using Cons.prems(2) q0 q by (subst takeLoop.simps) (auto simp: eligible_def Let_def)
  show ?case
  proof (cases "eligible d t")
    case True
    then show ?thesis using unfold q0 q by (simp add: serve_def)
  next
    case False
    then have "takeLoop (length ys) d = serve xs (ys @ [t]) ?d1"
      using unfold Cons.IH [OF w1, of "ys @ [t]"] by simp
    also have "\<dots> = serve (t # xs) ys d"
      using False by (cases "dropWhile (\<lambda>t. \<not> eligible d t) xs")
        (simp_all add: serve_def Let_def del: dropWhile_eq_Nil_conv)
    finally show ?thesis .
  qed
qed

lemma takeNextReady_serve: "wfReady d \<Longrightarrow> takeNextReady d = serve (dOrder d) [] d"
  using takeLoop_scan [of d "dOrder d" "[]"]
  by (auto simp: takeNextReady_def serve_def)

lemma dropWhile_split: "dropWhile P xs = t # post \<Longrightarrow> xs = takeWhile P xs @ t # post \<and> \<not> P t"
  by (metis dropWhile_eq_Cons_conv takeWhile_dropWhile_id)

lemma takeNextReady_None:
  assumes "wfReady d"
  shows "takeNextReady d = (None, d) \<and> (\<forall>t \<in> set (dOrder d). \<not> eligible d t) \<or>
         (\<exists>job d' pre t post q. takeNextReady d = (Some job, d') \<and> dOrder d = pre @ t # post \<and>
           (\<forall>u \<in> set pre. \<not> eligible d u) \<and> eligible d t \<and> map_of (dReady d) t = Some (job # q) \<and>
           d' = setBucket t q (d\<lparr>dOrder := post @ pre @ [t]\<rparr>))"
proof (cases "dropWhile (\<lambda>t. \<not> eligible d t) (dOrder d)")
  case Nil
  then have "takeNextReady d = (None, d)"
    using takeNextReady_serve [OF assms] by (simp add: serve_def del: dropWhile_eq_Nil_conv)
  moreover have "\<forall>t \<in> set (dOrder d). \<not> eligible d t" using Nil by simp
  ultimately show ?thesis by blast
next
  case (Cons t post)
  let ?pre = "takeWhile (\<lambda>t. \<not> eligible d t) (dOrder d)"
  have o: "dOrder d = ?pre @ t # post" "eligible d t" using dropWhile_split [OF Cons] by auto
  obtain q0 where q0: "map_of (dReady d) t = Some q0"
    using wfReady_order [OF assms, of t] o(1) by (metis in_set_conv_decomp not_None_eq)
  then obtain job q where q: "q0 = job # q" using wfReady_bucket [OF assms q0] by (cases q0) auto
  have "takeNextReady d = (Some job, setBucket t q (d\<lparr>dOrder := post @ ?pre @ [t]\<rparr>))"
    using takeNextReady_serve [OF assms] Cons q0 q by (simp add: serve_def Let_def)
  moreover have "\<forall>u \<in> set ?pre. \<not> eligible d u" using set_takeWhileD by fastforce
  ultimately show ?thesis using o q0 q by blast
qed

text \<open>
  C14. Round robin: the dispatcher takes the oldest job of the first tenant in the cyclic order that is
  below its fair capacity; the tenants it passed over and then that tenant move to the back in
  order (the tenant leaves when its bucket is empty). It takes nothing exactly when every tenant
  with ready jobs is at capacity, and then nothing changes.
\<close>

theorem takeNextReady_fair:
  assumes "wfReady d"
  shows "takeNextReady d = (None, d) \<and> (\<forall>t \<in> set (dOrder d). \<not> eligible d t) \<or>
         (\<exists>job pre t post q. dOrder d = pre @ t # post \<and>
           (\<forall>u \<in> set pre. \<not> eligible d u) \<and> eligible d t \<and> map_of (dReady d) t = Some (job # q) \<and>
           takeNextReady d = (Some job, setBucket t q (d\<lparr>dOrder := post @ pre @ [t]\<rparr>)))"
  using takeNextReady_None [OF assms] by blast

theorem takeNextReady_fair_witness:
  "fst (takeNextReady (enqueueReady (sampleJob ''b'' ''t2'')
     (enqueueReady (sampleJob ''a'' ''t1'') (newDispatcher noConfig)))) \<noteq> None"
  (is "fst (takeNextReady ?d) \<noteq> None")
proof -
  have w: "wfReady ?d"
    by (simp add: invs)
  have "eligible ?d ''t1'' \<and> ''t1'' \<in> set (dOrder ?d)" by code_simp
  then show ?thesis using takeNextReady_fair [OF w] by auto
qed

lemma takeNextReady_Some:
  assumes w: "wfReady d" and t: "takeNextReady d = (Some job, d')"
  shows "wfReady d'" "eligible d (pjTenant job)" "dRunning d' = dRunning d" "dConfig d' = dConfig d"
    "dLoopRunning d' = dLoopRunning d" "job \<in> \<Union> (set ` snd ` set (dReady d))"
proof -
  obtain pre tid post q where o: "dOrder d = pre @ tid # post" "eligible d tid"
    "map_of (dReady d) tid = Some (job # q)" "d' = setBucket tid q (d\<lparr>dOrder := post @ pre @ [tid]\<rparr>)"
    using takeNextReady_None [OF w] t by auto
  have "wfReady (d\<lparr>dOrder := post @ pre @ [tid]\<rparr>)"
    using w o(1) by (auto simp: wfReady_def)
  then show "wfReady d'" unfolding o(4)
    using wfReady_bucket [OF w o(3)] o(3) by (intro wfReady_setBucket) auto
  have "pjTenant job = tid" using wfReady_bucket [OF w o(3)] by simp
  then show "eligible d (pjTenant job)" using o(2) by simp
  show "dRunning d' = dRunning d" "dConfig d' = dConfig d" "dLoopRunning d' = dLoopRunning d"
    by (simp_all add: o(4) setBucket_def removeTenant_def)
  show "job \<in> \<Union> (set ` snd ` set (dReady d))" using map_of_SomeD [OF o(3)] by force
qed

text \<open>
  C15. No starvation: a tenant that is below its fair capacity and has ready jobs moves strictly closer
  to the front of the order with every job the dispatcher takes for another tenant, so it is served
  after at most as many takes as there are tenants before it.
\<close>

theorem bounded_waiting:
  assumes "wfReady d" "dOrder d = pre @ t # post" "eligible d t" "takeNextReady d = (Some job, d')"
  shows "pjTenant job = t \<or>
         (\<exists>pre' post'. dOrder d' = pre' @ t # post' \<and> length pre' < length pre)"
proof -
  obtain pre0 u post0 q where o: "dOrder d = pre0 @ u # post0" "\<forall>v \<in> set pre0. \<not> eligible d v" "eligible d u"
    "map_of (dReady d) u = Some (job # q)" "d' = setBucket u q (d\<lparr>dOrder := post0 @ pre0 @ [u]\<rparr>)"
    using takeNextReady_None [OF assms(1)] assms(4) by auto
  have job: "pjTenant job = u" using wfReady_bucket [OF assms(1) o(4)] by simp
  have dist: "distinct (dOrder d)" using assms(1) by (simp add: wfReady_def)
  show ?thesis
  proof (cases "u = t")
    case False
    have "t \<notin> set pre0" using o(2) assms(3) by blast
    then have "t \<in> set post0" using o(1) assms(2) False by (metis in_set_conv_decomp Un_iff set_append set_ConsD)
    then obtain a b where ab: "post0 = a @ t # b" by (metis in_set_conv_decomp)
    have "pre = pre0 @ u # a"
    proof -
      have "(pre0 @ u # a) @ t # b = pre @ t # post" using o(1) assms(2) ab by simp
      moreover have "t \<notin> set pre" using dist unfolding assms(2) by simp
      moreover have "t \<notin> set (pre0 @ u # a)" using dist o(1) ab by auto
      moreover have "takeWhile (\<lambda>y. y \<noteq> t) (p @ t # r) = p" if "t \<notin> set p" for p r
        using that by (induction p) auto
      ultimately show ?thesis by metis
    qed
    moreover have "\<exists>post'. dOrder d' = a @ t # post'"
    proof -
      have "remove1 u (a @ t # b @ pre0 @ [u]) = a @ t # b @ pre0"
        using dist o(1) ab by (simp add: remove1_append)
      then show ?thesis unfolding o(5) ab by (auto simp: setBucket_def removeTenant_def)
    qed
    ultimately show ?thesis by force
  qed (use job in simp)
qed

theorem bounded_waiting_witness:
  "pjTenant (the (fst (takeNextReady (enqueueReady (sampleJob ''b'' ''t2'')
     (enqueueReady (sampleJob ''a'' ''t1'') (newDispatcher noConfig)))))) = ''t1''"
  (is "pjTenant (the (fst (takeNextReady ?d))) = _")
proof -
  have w: "wfReady ?d"
    by (simp add: invs)
  have o: "dOrder ?d = [] @ ''t1'' # [''t2'']" and e: "eligible ?d ''t1''" by code_simp+
  have "fst (takeNextReady ?d) \<noteq> None" by code_simp
  then obtain job d' where t: "takeNextReady ?d = (Some job, d')"
    by (cases "takeNextReady ?d") auto
  from bounded_waiting [OF w o e t] show ?thesis by (simp add: t)
qed

end
