(* ===== verification/DispatchLoop.thy ===== *)
theory DispatchLoop
  imports Dispatcher
begin

text \<open>
  The asynchronous half of \<open>src/scheduler/dispatcher.ts\<close>: \<open>enqueue\<close>, the single-flight
  \<open>#dispatchLoop\<close>, \<open>#runOne\<close> with its retry timer, \<open>rebuildFromStorage\<close>, and \<open>configure\<close> in between. Each function is the
  code from one suspension point to the next; \<open>sysStep\<close> resumes any of the suspended activities, so a
  run of the system is any interleaving of them. The store calls take effect when they are made and
  their value is delivered at the next resumption. The store \<open>S\<close> and the user code (the outcome of a
  run) are parameters.
\<close>

section \<open>State\<close>

datatype LoopPc = LoopIdle | AwaitFailQueued | AwaitClaim "PersistedJob option"

text \<open>
  A run executes the user code, or waits for its \<open>ack\<close> (\<open>Settling None\<close>, or \<open>AckRejected\<close> when the
  \<open>ack\<close> throws) or its \<open>fail\<close> (\<open>Settling (Some next)\<close>).
\<close>

datatype RunPhase = Executing | AckRejected FailRecord | Settling "JobStatus option"

record 'st Sys =
  sDisp :: Dispatcher
  sStore :: 'st
  sPc :: LoopPc
  sRuns :: "(PersistedJob \<times> RunPhase) list"
  sTimers :: "(PersistedJob \<times> int) list"
  sPending :: "PersistedJob list"
  sRebuilds :: "PersistedJob list list"

definition initialSys :: "PartialConfig \<Rightarrow> 'st \<Rightarrow> 'st Sys" where
  "initialSys c st = \<lparr>sDisp = newDispatcher c, sStore = st, sPc = LoopIdle, sRuns = [],
     sTimers = [], sPending = [], sRebuilds = []\<rparr>"

section \<open>The dispatch loop\<close>

definition loopGuard :: "Dispatcher \<Rightarrow> bool" where
  "loopGuard d \<longleftrightarrow> 0 < totalReady d \<and> runningCount d < dcInFlightLimit (dConfig d)"

definition expiredRecord :: "string \<Rightarrow> FailRecord" where
  "expiredRecord ts = \<lparr>frName = ''DeadlineExceededError'',
     frMessage = ''Deadline '' @ ts @ '' elapsed before dispatch'', frStack = None,
     frOriginalName = None\<rparr>"

definition exitLoop :: "'st Sys \<Rightarrow> 'st Sys" where
  "exitLoop s = s\<lparr>sDisp := (sDisp s)\<lparr>dLoopRunning := False\<rparr>, sPc := LoopIdle\<rparr>"

definition claimById :: "string \<Rightarrow> Dispatcher \<Rightarrow> string \<Rightarrow> ClaimRequest" where
  "claimById owner d i = \<lparr>crWorkerId = owner, crMax = 1, crLeaseMs = dcLeaseMs (dConfig d),
                          crJobId = Some i\<rparr>"

text \<open>From the loop condition to the next \<open>await\<close> (or out of the loop).\<close>

definition loopHead :: "'st JobStore \<Rightarrow> string \<Rightarrow> int \<Rightarrow> 'st Sys \<Rightarrow> 'st Sys" where
  "loopHead S owner now s =
     (if \<not> loopGuard (sDisp s) then exitLoop s
      else case takeNextReady (sDisp s) of
        (None, d) \<Rightarrow> exitLoop (s\<lparr>sDisp := d\<rparr>)
      | (Some job, d) \<Rightarrow>
          if 0 < pjDeadline job \<and> pjDeadline job \<le> now then
            (case toISOString (pjDeadline job) of
               None \<Rightarrow> exitLoop (s\<lparr>sDisp := d\<rparr>)
             | Some ts \<Rightarrow>
                 s\<lparr>sDisp := d, sPc := AwaitFailQueued,
                   sStore := snd (failQueuedJ S now (pjId job) (expiredRecord ts) (sStore s))\<rparr>)
          else (case claimJ S now (claimById owner d (pjId job)) (sStore s) of
             (claimed, st) \<Rightarrow>
               s\<lparr>sDisp := d, sStore := st,
                 sPc := AwaitClaim (case claimed of [] \<Rightarrow> None | target # _ \<Rightarrow> Some target)\<rparr>))"

definition kick :: "'st JobStore \<Rightarrow> string \<Rightarrow> int \<Rightarrow> 'st Sys \<Rightarrow> 'st Sys" where
  "kick S owner now s =
     (if dLoopRunning (sDisp s) then s
      else loopHead S owner now (s\<lparr>sDisp := (sDisp s)\<lparr>dLoopRunning := True\<rparr>\<rparr>))"

definition startRun :: "int \<Rightarrow> PersistedJob \<Rightarrow> 'st Sys \<Rightarrow> 'st Sys" where
  "startRun now t s =
     s\<lparr>sDisp := (sDisp s)\<lparr>dRunning := AList.update (pjId t)
          \<lparr>rjId = pjId t, rjTenant = pjTenant t, rjStartedAt = now\<rparr> (dRunning (sDisp s))\<rparr>,
       sRuns := sRuns s @ [(t, Executing)]\<rparr>"

definition resumeLoop :: "'st JobStore \<Rightarrow> string \<Rightarrow> int \<Rightarrow> 'st Sys \<Rightarrow> 'st Sys option" where
  "resumeLoop S owner now s =
     (case sPc s of
        LoopIdle \<Rightarrow> None
      | AwaitFailQueued \<Rightarrow> Some (loopHead S owner now s)
      | AwaitClaim None \<Rightarrow> Some (loopHead S owner now s)
      | AwaitClaim (Some t) \<Rightarrow> Some (loopHead S owner now (startRun now t s)))"

section \<open>Enqueue and runs\<close>

definition addReady :: "PersistedJob \<Rightarrow> 'st Sys \<Rightarrow> 'st Sys" where
  "addReady j s = s\<lparr>sDisp := enqueueReady j (sDisp s)\<rparr>"

text \<open>\<open>enqueue\<close> up to its \<open>await\<close>: what it throws, if anything, and the state.\<close>

definition enqueueCall :: "'st JobStore \<Rightarrow> int \<Rightarrow> PersistedJob \<Rightarrow> 'st Sys \<Rightarrow> thrown option \<times> 'st Sys" where
  "enqueueCall S now job s =
     (let depth = totalReady (sDisp s) in
      case dcMaxQueueDepth (dConfig (sDisp s)) of
        Some m \<Rightarrow>
          if m \<le> depth then (Some (Lib (QueueFullError (int depth) (int m) None)), s)
          else (case enqueueJ S now job (sStore s) of
                  (Some err, st) \<Rightarrow> (Some (PlainError ''Error'' err None), s\<lparr>sStore := st\<rparr>)
                | (None, st) \<Rightarrow> (None, s\<lparr>sStore := st, sPending := sPending s @ [job]\<rparr>))
      | None \<Rightarrow>
          (case enqueueJ S now job (sStore s) of
             (Some err, st) \<Rightarrow> (Some (PlainError ''Error'' err None), s\<lparr>sStore := st\<rparr>)
           | (None, st) \<Rightarrow> (None, s\<lparr>sStore := st, sPending := sPending s @ [job]\<rparr>)))"

definition removeNth :: "nat \<Rightarrow> 'a list \<Rightarrow> 'a list" where
  "removeNth n xs = take n xs @ drop (Suc n) xs"

definition mirror :: "'st JobStore \<Rightarrow> string \<Rightarrow> int \<Rightarrow> nat \<Rightarrow> 'st Sys \<Rightarrow> 'st Sys option" where
  "mirror S owner now n s =
     (if n < length (sPending s)
      then Some (kick S owner now (addReady (sPending s ! n) (s\<lparr>sPending := removeNth n (sPending s)\<rparr>)))
      else None)"

definition RETRY_MAX_DELAY_MS :: int where "RETRY_MAX_DELAY_MS = 60000"

definition retryDelay :: "PersistedJob \<Rightarrow> int" where
  "retryDelay job =
     (let factor = (if rpBackoff (pjRetry job) = Exponential then 2 else 1) ^ nat (pjRetryCount job)
      in min (rpBaseMs (pjRetry job) * factor) RETRY_MAX_DELAY_MS)"

definition retryJob :: "PersistedJob \<Rightarrow> PersistedJob" where
  "retryJob job = job\<lparr>pjRetryCount := pjRetryCount job + 1, pjStatus := Queued,
                      pjLeaseOwner := None, pjLeaseExpires := None\<rparr>"

text \<open>The handler of \<open>#runOne\<close>: the store is told of the failure.\<close>

definition failRun :: "'st JobStore \<Rightarrow> string \<Rightarrow> int \<Rightarrow> nat \<Rightarrow> FailRecord \<Rightarrow> 'st Sys \<Rightarrow> 'st Sys" where
  "failRun S owner now n err s =
     (let job = fst (sRuns s ! n) in
      case failJ S now (pjId job) owner err (sStore s) of
        (next, st) \<Rightarrow> s\<lparr>sStore := st, sRuns := (sRuns s)[n := (job, Settling (Some next))]\<rparr>)"

text \<open>The user code of run \<open>n\<close> returns or throws: the store call is made and awaited.\<close>

definition settle :: "'st JobStore \<Rightarrow> string \<Rightarrow> int \<Rightarrow> nat \<Rightarrow> thrown + jsval \<Rightarrow> 'st Sys \<Rightarrow> 'st Sys option" where
  "settle S owner now n outcome s =
     (if n < length (sRuns s) \<and> snd (sRuns s ! n) = Executing then
        let job = fst (sRuns s ! n) in
        (case outcome of
           Inr value \<Rightarrow>
             (case ackJ S now (pjId job) owner value (now + dcResultTtlMs (dConfig (sDisp s))) (sStore s) of
                (ans, st) \<Rightarrow>
                  Some (s\<lparr>sStore := st,
                          sRuns := (sRuns s)[n := (job, case ans of
                              Inl msg \<Rightarrow> AckRejected (errorToRecord (PlainError ''Error'' msg None))
                            | Inr ok \<Rightarrow> Settling None)]\<rparr>))
         | Inl err \<Rightarrow> Some (failRun S owner now n (errorToRecord err) s))
      else None)"

text \<open>The store answered or threw: fail the run, or schedule the retry, then the \<open>finally\<close> of the run.\<close>

definition scheduleRetry :: "'st JobStore \<Rightarrow> string \<Rightarrow> int \<Rightarrow> PersistedJob \<Rightarrow> 'st Sys \<Rightarrow> 'st Sys" where
  "scheduleRetry S owner now job s =
     (if retryDelay job \<le> 0 then kick S owner now (addReady (retryJob job) s)
      else s\<lparr>sTimers := sTimers s @ [(retryJob job, now + retryDelay job)]\<rparr>)"

definition runFinally :: "'st JobStore \<Rightarrow> string \<Rightarrow> int \<Rightarrow> PersistedJob \<Rightarrow> 'st Sys \<Rightarrow> 'st Sys" where
  "runFinally S owner now job s =
     (let s1 = s\<lparr>sDisp := (sDisp s)\<lparr>dRunning := AList.delete (pjId job) (dRunning (sDisp s))\<rparr>\<rparr>
      in if loopGuard (sDisp s1) then kick S owner now s1 else s1)"

definition finish :: "'st JobStore \<Rightarrow> string \<Rightarrow> int \<Rightarrow> nat \<Rightarrow> 'st Sys \<Rightarrow> 'st Sys option" where
  "finish S owner now n s =
     (if n < length (sRuns s) then
        (case sRuns s ! n of
           (job, AckRejected err) \<Rightarrow> Some (failRun S owner now n err s)
         | (job, Settling next) \<Rightarrow>
             (let s1 = s\<lparr>sRuns := removeNth n (sRuns s)\<rparr>;
                  s2 = (if next = Some Queued then scheduleRetry S owner now job s1 else s1)
              in Some (runFinally S owner now job s2))
         | _ \<Rightarrow> None)
      else None)"

definition fireTimer :: "'st JobStore \<Rightarrow> string \<Rightarrow> int \<Rightarrow> nat \<Rightarrow> 'st Sys \<Rightarrow> 'st Sys option" where
  "fireTimer S owner now n s =
     (if n < length (sTimers s) \<and> snd (sTimers s ! n) \<le> now
      then Some (kick S owner now (addReady (fst (sTimers s ! n)) (s\<lparr>sTimers := removeNth n (sTimers s)\<rparr>)))
      else None)"

text \<open>\<open>rebuildFromStorage\<close>: clear and peek, then (after the \<open>await\<close>) mirror what was queued.\<close>

definition rebuildStart :: "'st JobStore \<Rightarrow> 'st Sys \<Rightarrow> 'st Sys" where
  "rebuildStart S s =
     s\<lparr>sDisp := (sDisp s)\<lparr>dReady := [], dOrder := []\<rparr>,
       sRebuilds := sRebuilds s @ [peekJ S None 10000 (sStore s)]\<rparr>"

definition rebuildEnd :: "nat \<Rightarrow> 'st Sys \<Rightarrow> 'st Sys option" where
  "rebuildEnd n s =
     (if n < length (sRebuilds s)
      then Some (fold addReady (sRebuilds s ! n) (s\<lparr>sRebuilds := removeNth n (sRebuilds s)\<rparr>))
      else None)"

section \<open>Interleavings\<close>

datatype SysEvent =
    EvEnqueueCall PersistedJob
  | EvMirror nat
  | EvLoop
  | EvSettle nat "thrown + jsval"
  | EvFinish nat
  | EvTimer nat
  | EvDrop string
  | EvClear string
  | EvStoreCall StoreCall
  | EvKick
  | EvRebuildStart
  | EvRebuildEnd nat
  | EvConfigure PartialConfig

text \<open>
  One step at clock reading \<open>now\<close>; \<open>None\<close> when the activity is not suspended. \<open>EvStoreCall\<close> stands for
  the calls that other methods of the scheduler make on the store (cancel, sweep, reclaim).
\<close>

fun sysStep :: "'st JobStore \<Rightarrow> string \<Rightarrow> int \<Rightarrow> SysEvent \<Rightarrow> 'st Sys \<Rightarrow> 'st Sys option" where
  "sysStep S owner now (EvEnqueueCall j) s = Some (snd (enqueueCall S now j s))"
| "sysStep S owner now (EvMirror n) s = mirror S owner now n s"
| "sysStep S owner now EvLoop s = resumeLoop S owner now s"
| "sysStep S owner now (EvSettle n r) s = settle S owner now n r s"
| "sysStep S owner now (EvFinish n) s = finish S owner now n s"
| "sysStep S owner now (EvTimer n) s = fireTimer S owner now n s"
| "sysStep S owner now (EvDrop i) s = Some (s\<lparr>sDisp := dropFromReady i (sDisp s)\<rparr>)"
| "sysStep S owner now (EvClear t) s = Some (s\<lparr>sDisp := clearTenant t (sDisp s)\<rparr>)"
| "sysStep S owner now (EvStoreCall c) s = Some (s\<lparr>sStore := callStore S c (sStore s)\<rparr>)"
| "sysStep S owner now EvKick s = Some (kick S owner now s)"
| "sysStep S owner now EvRebuildStart s = Some (rebuildStart S s)"
| "sysStep S owner now (EvRebuildEnd n) s = rebuildEnd n s"
| "sysStep S owner now (EvConfigure c) s = Some (s\<lparr>sDisp := configure c (sDisp s)\<rparr>)"

fun runSys :: "'st JobStore \<Rightarrow> string \<Rightarrow> (int \<times> SysEvent) list \<Rightarrow> 'st Sys \<Rightarrow> 'st Sys option" where
  "runSys S owner [] s = Some s"
| "runSys S owner ((now, e) # es) s =
     (case sysStep S owner now e s of None \<Rightarrow> None | Some s' \<Rightarrow> runSys S owner es s')"

text \<open>The states that the events allowed by \<open>P\<close> can produce from a fresh dispatcher on store \<open>st0\<close>.\<close>

inductive reach :: "'st JobStore \<Rightarrow> string \<Rightarrow> PartialConfig \<Rightarrow> 'st \<Rightarrow> (int \<Rightarrow> SysEvent \<Rightarrow> bool) \<Rightarrow> 'st Sys \<Rightarrow> bool"
  for S owner c st0 P where
  reach_init: "reach S owner c st0 P (initialSys c st0)"
| reach_step: "reach S owner c st0 P s \<Longrightarrow> P now e \<Longrightarrow> sysStep S owner now e s = Some s' \<Longrightarrow>
     reach S owner c st0 P s'"

inductive_cases reach_cases: "reach S owner c st0 P s"

lemma reach_run:
  "reach S owner c st0 P s \<Longrightarrow> list_all (\<lambda>(now, e). P now e) es \<Longrightarrow> runSys S owner es s = Some s' \<Longrightarrow>
     reach S owner c st0 P s'"
proof (induction es arbitrary: s)
  case (Cons p es)
  obtain now e where p: "p = (now, e)" by (cases p)
  then obtain s1 where "sysStep S owner now e s = Some s1" "runSys S owner es s1 = Some s'"
    using Cons.prems(3) by (auto split: option.splits)
  then show ?case using Cons.IH [of s1] Cons.prems(1,2) p reach_step [of S owner c st0 P s now e s1] by auto
qed simp

section \<open>What the dispatcher needs of its store\<close>

text \<open>
  Beyond the contract of the interface: a claim by id returns that job, jobs come back with the
  tenant they were stored under (\<open>tn\<close> assigns a tenant to each id), and every other operation keeps
  this.
\<close>

definition wellJob :: "(string \<Rightarrow> string) \<Rightarrow> PersistedJob \<Rightarrow> bool" where
  "wellJob tn j \<longleftrightarrow> pjId j \<noteq> [] \<and> pjTenant j = tn (pjId j)"

fun wellCall :: "(string \<Rightarrow> string) \<Rightarrow> StoreCall \<Rightarrow> bool" where
  "wellCall tn (CEnqueue now j) = wellJob tn j"
| "wellCall tn _ = True"

locale dispatch_store = job_store +
  fixes stored :: "(string \<Rightarrow> string) \<Rightarrow> 'a \<Rightarrow> bool"
  assumes stored_call: "stored tn st \<Longrightarrow> wellCall tn c \<Longrightarrow> stored tn (callStore S c st)"
    and stored_claim: "stored tn st \<Longrightarrow> claimJ S now r st = (js, st') \<Longrightarrow> j \<in> set js \<Longrightarrow> wellJob tn j"
    and claim_by_id: "claimJ S now r st = (js, st') \<Longrightarrow> crJobId r = Some i \<Longrightarrow> i \<noteq> [] \<Longrightarrow>
        j \<in> set js \<Longrightarrow> pjId j = i"
    and stored_peek: "stored tn st \<Longrightarrow> j \<in> set (peekJ S t n st) \<Longrightarrow> wellJob tn j"
begin

lemma claimed_tenant:
  assumes "stored tn st" "claimJ S now (claimById owner d (pjId j)) st = (t # ts, st')" "wellJob tn j"
  shows "pjTenant t = pjTenant j"
  using stored_claim [OF assms(1,2), of t] claim_by_id [OF assms(2), of "pjId j" t] assms(3)
  by (simp add: claimById_def wellJob_def)

end

section \<open>Invariants\<close>

text \<open>
  \<open>configure\<close> changes the limits while jobs run, so the invariants speak of bounds \<open>L\<close> and \<open>F\<close> on every
  limit that has been in force.
\<close>

definition coreOk :: "'st Sys \<Rightarrow> bool" where
  "coreOk s \<longleftrightarrow> wfReady (sDisp s) \<and> (dLoopRunning (sDisp s) \<longleftrightarrow> sPc s \<noteq> LoopIdle)"

definition loopOk :: "nat \<Rightarrow> 'st Sys \<Rightarrow> bool" where
  "loopOk L s \<longleftrightarrow> coreOk s \<and> dcInFlightLimit (dConfig (sDisp s)) \<le> L \<and> runningCount (sDisp s) \<le> L \<and>
     (sPc s \<noteq> LoopIdle \<longrightarrow> runningCount (sDisp s) < L)"

definition capOk :: "nat \<Rightarrow> Dispatcher \<Rightarrow> bool" where
  "capOk F d \<longleftrightarrow> dcFairCapacity (dConfig d) \<le> F \<and> (\<forall>t. inFlightOf d t \<le> F)"

fun claimTarget :: "LoopPc \<Rightarrow> PersistedJob option" where
  "claimTarget (AwaitClaim t) = t"
| "claimTarget _ = None"

definition fairOk :: "nat \<Rightarrow> 'st Sys \<Rightarrow> bool" where
  "fairOk F s \<longleftrightarrow> capOk F (sDisp s) \<and>
     (\<forall>j. claimTarget (sPc s) = Some j \<longrightarrow> inFlightOf (sDisp s) (pjTenant j) < F)"

definition dispatchable :: "Dispatcher \<Rightarrow> bool" where
  "dispatchable d \<longleftrightarrow> loopGuard d \<and> (\<exists>t \<in> set (dOrder d). eligible d t)"

definition awake :: "'st Sys \<Rightarrow> bool" where
  "awake s \<longleftrightarrow> (sPc s = LoopIdle \<longrightarrow> \<not> dispatchable (sDisp s))"

lemma config_const [simp]:
  "dConfig (enqueueReady j d) = dConfig d" "dRunning (enqueueReady j d) = dRunning d"
  "dLoopRunning (enqueueReady j d) = dLoopRunning d"
  "dConfig (removeTenant t d) = dConfig d" "dRunning (removeTenant t d) = dRunning d"
  "dLoopRunning (removeTenant t d) = dLoopRunning d"
  "dConfig (setBucket t q d) = dConfig d" "dRunning (setBucket t q d) = dRunning d"
  "dLoopRunning (setBucket t q d) = dLoopRunning d"
  by (auto simp: enqueueReady_def removeTenant_def setBucket_def Let_def split: option.splits)

lemma drop_const [simp]:
  "dConfig (dropFromReady i d) = dConfig d" "dRunning (dropFromReady i d) = dRunning d"
  "dLoopRunning (dropFromReady i d) = dLoopRunning d"
  by (auto simp: dropFromReady_def split: option.splits)

lemma eligible_const [simp]:
  "eligible (d\<lparr>dLoopRunning := b\<rparr>) t = eligible d t" "capOk F (d\<lparr>dLoopRunning := b\<rparr>) = capOk F d"
  "loopGuard (d\<lparr>dLoopRunning := b\<rparr>) = loopGuard d" "dispatchable (d\<lparr>dLoopRunning := b\<rparr>) = dispatchable d"
  by (simp_all add: eligible_def inFlightOf_def capOk_def loopGuard_def totalReady_def runningCount_def
      dispatchable_def)

lemma same_running:
  "dRunning d' = dRunning d \<Longrightarrow> dConfig d' = dConfig d \<Longrightarrow>
     capOk F d' = capOk F d \<and> eligible d' t = eligible d t \<and> runningCount d' = runningCount d \<and>
     inFlightOf d' t = inFlightOf d t"
  by (simp add: eligible_def inFlightOf_def capOk_def runningCount_def)

lemma filter_update_le:
  "length (filter P (AList.update k v m)) \<le> Suc (length (filter P m))"
  "\<not> P (k, v) \<Longrightarrow> length (filter P (AList.update k v m)) \<le> length (filter P m)"
  by (induction m) auto

lemma length_update_le: "length (AList.update k v m) \<le> Suc (length m)"
  by (induction m) auto

lemma filter_delete_le: "length (filter P (AList.delete k m)) \<le> length (filter P m)"
  by (induction m) auto

lemma length_delete_le: "length (AList.delete k m) \<le> length m"
  by (induction m) auto

subsection \<open>The loop\<close>

lemma loopHead_core:
  assumes "wfReady (sDisp s)" "dLoopRunning (sDisp s)"
  shows "coreOk (loopHead S owner now s)"
proof -
  have "coreOk (exitLoop s')" if "sDisp s' = sDisp s" for s' :: "'a Sys"
    using assms that by (simp add: exitLoop_def coreOk_def)
  moreover have "coreOk (loopHead S owner now s)"
    if g: "loopGuard (sDisp s)" and t: "takeNextReady (sDisp s) = (Some job, d)" for job d
    using g t takeNextReady_Some [OF assms(1) t] assms(2)
    by (auto simp: loopHead_def coreOk_def exitLoop_def split: option.splits prod.splits)
  moreover have "takeNextReady (sDisp s) = (None, sDisp s) \<or> (\<exists>job d. takeNextReady (sDisp s) = (Some job, d))"
    using takeNextReady_None [OF assms(1)] by blast
  ultimately show ?thesis by (auto simp: loopHead_def)
qed

lemma loopHead_disp:
  assumes "wfReady (sDisp s)"
  shows "dRunning (sDisp (loopHead S owner now s)) = dRunning (sDisp s)"
    "dConfig (sDisp (loopHead S owner now s)) = dConfig (sDisp s)"
    "sPc (loopHead S owner now s) \<noteq> LoopIdle \<Longrightarrow> loopGuard (sDisp s)"
proof -
  obtain j d where t: "takeNextReady (sDisp s) = (j, d)" by force
  have x: "dRunning d = dRunning (sDisp s)" "dConfig d = dConfig (sDisp s)"
    using takeNextReady_Some(3,4) [OF assms, of _ d] takeNextReady_None [OF assms] t by (cases j; auto)+
  show "dRunning (sDisp (loopHead S owner now s)) = dRunning (sDisp s)"
    "dConfig (sDisp (loopHead S owner now s)) = dConfig (sDisp s)"
    by (simp_all add: loopHead_def exitLoop_def t x split: option.split prod.split)
  show "sPc (loopHead S owner now s) \<noteq> LoopIdle \<Longrightarrow> loopGuard (sDisp s)"
    by (rule ccontr) (simp add: loopHead_def exitLoop_def)
qed

lemma loopHead_ok:
  assumes w: "wfReady (sDisp s)" and "runningCount (sDisp s) \<le> L" "dcInFlightLimit (dConfig (sDisp s)) \<le> L"
    "dLoopRunning (sDisp s)"
  shows "loopOk L (loopHead S owner now s)"
  using loopHead_core [OF w assms(4), of S owner now] loopHead_disp [OF w, of S owner now] assms(2,3)
  by (auto simp: loopOk_def loopGuard_def runningCount_def)

lemma loopHead_fair:
  assumes d: "dispatch_store S good leaseOf stored" and w: "wfReady (sDisp s)" and c: "capOk F (sDisp s)"
    and st: "stored tn (sStore s)" and jobs: "\<forall>j \<in> \<Union> (set ` snd ` set (dReady (sDisp s))). wellJob tn j"
  shows "fairOk F (loopHead S owner now s)"
proof -
  have ex: "fairOk F (exitLoop s')" if "capOk F (sDisp s')" for s' :: "'a Sys"
    using that by (simp add: exitLoop_def fairOk_def)
  show ?thesis
  proof (cases "takeNextReady (sDisp s)")
    case (Pair j d')
    show ?thesis
    proof (cases j)
      case None
      then have "d' = sDisp s" using Pair takeNextReady_None [OF w] by auto
      then show ?thesis using None Pair c ex by (simp add: loopHead_def)
    next
      case (Some job)
      note T = takeNextReady_Some [OF w, of job d']
      have t: "takeNextReady (sDisp s) = (Some job, d')" using Pair Some by simp
      have job: "wellJob tn job" using jobs T(6) [OF t] by blast
      note R = same_running [OF T(3) [OF t] T(4) [OF t]]
      obtain cl st' where cl: "claimJ S now (claimById owner d' (pjId job)) (sStore s) = (cl, st')" by force
      have "inFlightOf d' (pjTenant j') < F" if "cl = j' # js" for j' js
        using dispatch_store.claimed_tenant [OF d st _ job, of now owner d' j' js st'] cl that R T(2) [OF t] c
        by (simp add: eligible_def capOk_def)
      then show ?thesis using t c R cl
        by (auto simp: loopHead_def fairOk_def exitLoop_def split: option.splits list.splits)
    qed
  qed
qed

lemma loopHead_awake:
  assumes "wfReady (sDisp s)" "now \<le> maxDateMs"
  shows "awake (loopHead S owner now s)"
proof (cases "loopGuard (sDisp s)")
  case False
  then show ?thesis by (simp add: loopHead_def exitLoop_def awake_def dispatchable_def)
next
  case True
  consider "takeNextReady (sDisp s) = (None, sDisp s)" "\<forall>t \<in> set (dOrder (sDisp s)). \<not> eligible (sDisp s) t"
    | job d where "takeNextReady (sDisp s) = (Some job, d)"
    using takeNextReady_None [OF assms(1)] by blast
  then show ?thesis
  proof cases
    case 1
    then show ?thesis by (simp add: loopHead_def exitLoop_def awake_def dispatchable_def)
  next
    case 2
    have "toISOString (pjDeadline job) \<noteq> None" if "0 < pjDeadline job" "pjDeadline job \<le> now"
      using that assms(2) by (simp add: toISOString_def Let_def case_prod_beta)
    then show ?thesis using 2 True
      by (auto simp: loopHead_def awake_def split: option.splits prod.splits)
  qed
qed

subsection \<open>All jobs in flight keep their tenant\<close>

definition readyJobs :: "Dispatcher \<Rightarrow> PersistedJob set" where
  "readyJobs d = \<Union> (set ` snd ` set (dReady d))"

definition sysJobs :: "'st Sys \<Rightarrow> PersistedJob set" where
  "sysJobs s = readyJobs (sDisp s) \<union> set (sPending s) \<union> fst ` set (sTimers s) \<union>
     \<Union> (set ` set (sRebuilds s)) \<union> fst ` set (sRuns s) \<union>
     set_option (claimTarget (sPc s))"

definition sysInv :: "nat \<Rightarrow> nat \<Rightarrow> ((string \<Rightarrow> string) \<Rightarrow> 'st \<Rightarrow> bool) \<Rightarrow> (string \<Rightarrow> string) \<Rightarrow> 'st Sys \<Rightarrow> bool" where
  "sysInv L F stored tn s \<longleftrightarrow> loopOk L s \<and> fairOk F s \<and> stored tn (sStore s) \<and> (\<forall>j \<in> sysJobs s. wellJob tn j)"

fun wellEvent :: "(string \<Rightarrow> string) \<Rightarrow> SysEvent \<Rightarrow> bool" where
  "wellEvent tn (EvEnqueueCall j) = wellJob tn j"
| "wellEvent tn (EvStoreCall c) = wellCall tn c"
| "wellEvent tn _ = True"

text \<open>No call of \<open>configure\<close> raises a limit beyond the bounds.\<close>

fun withinLimits :: "nat \<Rightarrow> nat \<Rightarrow> SysEvent \<Rightarrow> bool" where
  "withinLimits L F (EvConfigure c) = (nullish (pcInFlightLimit c) 0 \<le> L \<and> nullish (pcFairCapacity c) 0 \<le> F)"
| "withinLimits L F _ = True"

lemma readyJobs_remove: "readyJobs (removeTenant t d) \<subseteq> readyJobs d"
  by (auto simp: readyJobs_def removeTenant_def delete_filter)

lemma readyJobs_update: "\<Union> (set ` snd ` set (AList.update t q m)) \<subseteq> set q \<union> \<Union> (set ` snd ` set m)"
  using set_update [of t q m] by fastforce

lemma readyJobs_setBucket:
  assumes "set q \<subseteq> readyJobs d"
  shows "readyJobs (setBucket t q d) \<subseteq> readyJobs d"
proof (cases "q = []")
  case True
  then have "dReady (setBucket t q d) = AList.delete t (dReady d)"
    by (simp add: setBucket_def removeTenant_def delete_update_same)
  then show ?thesis by (auto simp: readyJobs_def delete_filter)
next
  case False
  then show ?thesis using assms readyJobs_update [of t q "dReady d"]
    by (auto simp: readyJobs_def setBucket_def)
qed

lemma entry_ready: "(t, q) \<in> set (dReady d) \<Longrightarrow> set q \<subseteq> readyJobs d"
  by (auto simp: readyJobs_def intro!: bexI [of _ "(t, q)"])

lemma bucket_ready: "map_of (dReady d) t = Some q \<Longrightarrow> set q \<subseteq> readyJobs d"
  by (rule entry_ready [OF map_of_SomeD])

lemma readyJobs_enqueue: "readyJobs (enqueueReady j d) \<subseteq> insert j (readyJobs d)"
proof (cases "map_of (dReady d) (pjTenant j)")
  case None
  then show ?thesis using readyJobs_update [of "pjTenant j" "[j]" "dReady d"]
    by (simp add: enqueueReady_def Let_def) (auto simp: readyJobs_def)
next
  case (Some q)
  then show ?thesis using readyJobs_update [of "pjTenant j" "q @ [j]" "dReady d"] bucket_ready [OF Some]
    by (simp add: enqueueReady_def Let_def) (auto simp: readyJobs_def)
qed

lemma readyJobs_drop: "readyJobs (dropFromReady i d) \<subseteq> readyJobs d"
proof (cases "find (\<lambda>(t, q). i \<in> pjId ` set q) (dReady d)")
  case (Some p)
  obtain t q where p: "p = (t, q)" by (cases p)
  have "(t, q) \<in> set (dReady d)" using Some p by (auto simp: find_Some_iff in_set_conv_nth)
  then have "set (dropFirst i q) \<subseteq> readyJobs d"
    using dropFirst_subset [of i q] entry_ready by blast
  then show ?thesis using Some p readyJobs_setBucket by (simp add: dropFromReady_def)
qed (simp add: dropFromReady_def)

lemma readyJobs_take:
  assumes "wfReady d" "takeNextReady d = (Some job, d')"
  shows "readyJobs d' \<subseteq> readyJobs d" "job \<in> readyJobs d"
proof -
  obtain pre t post q where "map_of (dReady d) t = Some (job # q)"
    "d' = setBucket t q (d\<lparr>dOrder := post @ pre @ [t]\<rparr>)"
    using takeNextReady_None [OF assms(1)] assms(2) by auto
  then show "readyJobs d' \<subseteq> readyJobs d"
    using readyJobs_setBucket [of q "d\<lparr>dOrder := post @ pre @ [t]\<rparr>" t] bucket_ready [of d t "job # q"]
    by (simp add: readyJobs_def)
  show "job \<in> readyJobs d" using takeNextReady_Some(6) [OF assms] by (simp add: readyJobs_def)
qed

lemma readyJobs_flag [simp]:
  "readyJobs (d\<lparr>dLoopRunning := b\<rparr>) = readyJobs d" "readyJobs (d\<lparr>dRunning := r\<rparr>) = readyJobs d"
  "readyJobs (d\<lparr>dReady := [], dOrder := os\<rparr>) = {}"
  by (simp_all add: readyJobs_def)

lemma sysJobs_exit: "sysJobs (exitLoop s) \<subseteq> sysJobs s"
  by (auto simp: sysJobs_def exitLoop_def split: LoopPc.splits option.splits)

text \<open>What holds when control is at the head of the loop.\<close>

definition headInv :: "nat \<Rightarrow> nat \<Rightarrow> ((string \<Rightarrow> string) \<Rightarrow> 'st \<Rightarrow> bool) \<Rightarrow> (string \<Rightarrow> string) \<Rightarrow> 'st Sys \<Rightarrow> bool" where
  "headInv L F stored tn s \<longleftrightarrow> wfReady (sDisp s) \<and>
     dcInFlightLimit (dConfig (sDisp s)) \<le> L \<and> runningCount (sDisp s) \<le> L \<and> dLoopRunning (sDisp s) \<and>
     capOk F (sDisp s) \<and> stored tn (sStore s) \<and> (\<forall>j \<in> sysJobs s. wellJob tn j)"

lemma data_inv:
  assumes "sysInv L F stored tn s" "sDisp s' = sDisp s" "sPc s' = sPc s" "stored tn (sStore s')"
    and "sysJobs s' \<subseteq> J \<union> sysJobs s" "\<forall>j \<in> J. wellJob tn j"
  shows "sysInv L F stored tn s'"
  using assms by (auto simp: sysInv_def loopOk_def coreOk_def fairOk_def)

lemma disp_inv:
  assumes "sysInv L F stored tn s" "wfReady d" "readyJobs d \<subseteq> J \<union> readyJobs (sDisp s)" "\<forall>j \<in> J. wellJob tn j"
    and "dRunning d = dRunning (sDisp s)" "dConfig d = dConfig (sDisp s)" "dLoopRunning d = dLoopRunning (sDisp s)"
  shows "sysInv L F stored tn (s\<lparr>sDisp := d\<rparr>)"
proof -
  have "sysJobs (s\<lparr>sDisp := d\<rparr>) \<subseteq> J \<union> sysJobs s" using assms(3) by (auto simp: sysJobs_def)
  then show ?thesis using assms same_running [OF assms(5,6)]
    by (auto simp: sysInv_def loopOk_def coreOk_def fairOk_def)
qed

lemma set_removeNth: "set (removeNth n xs) \<subseteq> set xs"
  by (auto simp: removeNth_def dest: in_set_takeD in_set_dropD)

context dispatch_store begin

lemma loopHead_jobs:
  assumes w: "wfReady (sDisp s)" and st: "stored tn (sStore s)"
    and jobs: "\<forall>j \<in> sysJobs s. wellJob tn j" and j: "j \<in> sysJobs (loopHead S owner now s)"
  shows "wellJob tn j"
proof (cases "takeNextReady (sDisp s)")
  case (Pair x d)
  show ?thesis
  proof (cases x)
    case None
    then have "d = sDisp s" using Pair takeNextReady_None [OF w] by auto
    then show ?thesis using j jobs sysJobs_exit [of s] None Pair
      by (auto simp: loopHead_def split: if_splits)
  next
    case (Some job)
    then have t: "takeNextReady (sDisp s) = (Some job, d)" using Pair by simp
    note sub = readyJobs_take(1) [OF w t]
    obtain cl st' where cl: "claimJ S now (claimById owner d (pjId job)) (sStore s) = (cl, st')" by force
    have "wellJob tn k" if "k \<in> set cl" for k using stored_claim [OF st cl that] .
    moreover have "j \<in> sysJobs s \<or> j \<in> set cl"
      using j sub unfolding loopHead_def t cl exitLoop_def
      by (auto simp: sysJobs_def cl split: if_splits option.splits list.splits LoopPc.splits)
    ultimately show ?thesis using jobs by blast
  qed
qed

lemma loopHead_stored:
  assumes "stored tn (sStore s)"
  shows "stored tn (sStore (loopHead S owner now s))"
  using assms stored_call [of tn _ "CClaim _ _"] stored_call [of tn _ "CFailQueued _ _ _"]
  by (auto simp: loopHead_def exitLoop_def split: option.splits prod.splits; metis snd_conv)

lemma loopHead_inv: "headInv L F stored tn s \<Longrightarrow> sysInv L F stored tn (loopHead S owner now s)"
  using loopHead_ok [of s L S owner now] loopHead_jobs [of s tn] loopHead_stored [of tn s owner now]
    loopHead_fair [OF dispatch_store_axioms, of s F tn owner now]
  by (auto simp: headInv_def sysInv_def sysJobs_def readyJobs_def)

lemma kick_inv: "sysInv L F stored tn s \<Longrightarrow> sysInv L F stored tn (kick S owner now s)"
  using loopHead_inv [of L F tn "s\<lparr>sDisp := (sDisp s)\<lparr>dLoopRunning := True\<rparr>\<rparr>" owner now]
  by (auto simp: kick_def headInv_def sysInv_def loopOk_def coreOk_def fairOk_def runningCount_def sysJobs_def)

lemma addReady_inv:
  assumes "sysInv L F stored tn s" "wellJob tn j"
  shows "sysInv L F stored tn (addReady j s)"
  unfolding addReady_def using assms readyJobs_enqueue [of j "sDisp s"]
  by (intro disp_inv [where J = "{j}"]) (auto simp: wfReady_enqueue sysInv_def loopOk_def coreOk_def)

lemma startRun_inv:
  assumes i: "sysInv L F stored tn s" and pc: "sPc s = AwaitClaim (Some t)"
  shows "headInv L F stored tn (startRun now t s)"
proof -
  let ?m = "dRunning (sDisp s)" and ?r = "\<lparr>rjId = pjId t, rjTenant = pjTenant t, rjStartedAt = now\<rparr>"
  have e: "inFlightOf (sDisp s) (pjTenant t) < F" "capOk F (sDisp s)"
    using i pc by (auto simp: sysInv_def fairOk_def)
  have "inFlightOf (sDisp (startRun now t s)) u \<le> F" for u
    using e filter_update_le [of "\<lambda>(i, r). rjTenant r = u" "pjId t" ?r ?m]
    by (cases "u = pjTenant t") (auto simp: inFlightOf_def startRun_def capOk_def intro: order_trans)
  moreover have "length (AList.update (pjId t) ?r ?m) \<le> L"
    using i pc length_update_le [of "pjId t" ?r ?m]
    by (auto simp: sysInv_def loopOk_def runningCount_def)
  moreover have "\<forall>j \<in> sysJobs (startRun now t s). wellJob tn j"
    using i pc by (auto simp: sysInv_def sysJobs_def startRun_def)
  ultimately show ?thesis using i pc
    by (auto simp: headInv_def sysInv_def loopOk_def coreOk_def capOk_def fairOk_def startRun_def runningCount_def)
qed

lemma resumeLoop_inv:
  assumes "sysInv L F stored tn s" "resumeLoop S owner now s = Some s'"
  shows "sysInv L F stored tn s'"
proof -
  have h: "headInv L F stored tn s" if "sPc s \<noteq> LoopIdle"
    using assms(1) that by (auto simp: sysInv_def headInv_def loopOk_def coreOk_def fairOk_def)
  show ?thesis
    using assms h loopHead_inv startRun_inv [OF assms(1)]
    by (auto simp: resumeLoop_def split: LoopPc.splits option.splits)
qed

lemma enqueueCall_inv:
  assumes "sysInv L F stored tn s" "wellJob tn j"
  shows "sysInv L F stored tn (snd (enqueueCall S now j s))"
proof -
  have st: "stored tn (snd (enqueueJ S now j (sStore s)))"
    using stored_call [of tn "sStore s" "CEnqueue now j"] assms by (simp add: sysInv_def)
  obtain e st' where e: "enqueueJ S now j (sStore s) = (e, st')" by force
  have "sysInv L F stored tn (s\<lparr>sStore := st'\<rparr>)" "sysInv L F stored tn (s\<lparr>sStore := st', sPending := sPending s @ [j]\<rparr>)"
    using assms(2) st e by (auto simp: sysJobs_def intro!: data_inv [OF assms(1), where J = "{j}"])
  then show ?thesis using assms(1) e
    by (cases e) (auto simp: enqueueCall_def Let_def split: option.splits)
qed

lemma mirror_inv:
  assumes "sysInv L F stored tn s" "mirror S owner now n s = Some s'"
  shows "sysInv L F stored tn s'"
proof -
  have n: "n < length (sPending s)"
    and s': "s' = kick S owner now (addReady (sPending s ! n) (s\<lparr>sPending := removeNth n (sPending s)\<rparr>))"
    using assms(2) by (auto simp: mirror_def split: if_splits)
  have "wellJob tn (sPending s ! n)" using assms(1) n by (auto simp: sysInv_def sysJobs_def)
  moreover have "sysInv L F stored tn (s\<lparr>sPending := removeNth n (sPending s)\<rparr>)"
    using assms(1) set_removeNth [of n "sPending s"]
    by (intro data_inv [OF assms(1), where J = "{}"]) (auto simp: sysInv_def sysJobs_def)
  ultimately show ?thesis unfolding s' by (intro kick_inv addReady_inv)
qed

lemma phase_jobs:
  assumes "n < length rs"
  shows "fst ` set (rs[n := (fst (rs ! n), p)]) \<subseteq> fst ` set rs"
proof -
  have "fst (rs ! n) \<in> fst ` set rs" using assms by simp
  then show ?thesis
    using image_mono [OF set_update_subset_insert [of rs n "(fst (rs ! n), p)"], of fst]
    by (simp only: image_insert fst_conv insert_absorb)
qed

lemma phase_inv:
  assumes "sysInv L F stored tn s" "n < length (sRuns s)" "stored tn st"
  shows "sysInv L F stored tn (s\<lparr>sStore := st, sRuns := (sRuns s)[n := (fst (sRuns s ! n), p)]\<rparr>)"
  using assms(3) phase_jobs [OF assms(2), of p]
  by (intro data_inv [OF assms(1), where J = "{}"]) (auto simp: sysJobs_def)

lemma failRun_inv:
  assumes "sysInv L F stored tn s" "n < length (sRuns s)"
  shows "sysInv L F stored tn (failRun S owner now n err s)"
proof -
  obtain s1 st where c: "failJ S now (pjId (fst (sRuns s ! n))) owner err (sStore s) = (s1, st)" by force
  have "stored tn st"
    using stored_call [of tn "sStore s" "CFail now (pjId (fst (sRuns s ! n))) owner err"] assms(1) c
    by (simp add: sysInv_def)
  from phase_inv [OF assms this] show ?thesis using c by (simp add: failRun_def Let_def)
qed

lemma settle_inv:
  assumes "sysInv L F stored tn s" "settle S owner now n r s = Some s'"
  shows "sysInv L F stored tn s'"
proof -
  have n: "n < length (sRuns s)" using assms(2) by (auto simp: settle_def split: if_splits)
  show ?thesis
  proof (cases r)
    case (Inl err)
    then show ?thesis using assms failRun_inv [OF assms(1) n] by (auto simp: settle_def Let_def split: if_splits)
  next
    case (Inr v)
    obtain ans st where c: "ackJ S now (pjId (fst (sRuns s ! n))) owner v
        (now + dcResultTtlMs (dConfig (sDisp s))) (sStore s) = (ans, st)" by force
    have "stored tn st"
      using stored_call [of tn "sStore s" "CAck now (pjId (fst (sRuns s ! n))) owner v
        (now + dcResultTtlMs (dConfig (sDisp s)))"] assms(1) c
      by (simp add: sysInv_def)
    from phase_inv [OF assms(1) n this] show ?thesis
      using assms(2) Inr c by (auto simp: settle_def Let_def split: if_splits)
  qed
qed

lemma runFinally_inv:
  assumes "sysInv L F stored tn s"
  shows "sysInv L F stored tn (runFinally S owner now job s)"
proof -
  let ?d = "(sDisp s)\<lparr>dRunning := AList.delete (pjId job) (dRunning (sDisp s))\<rparr>"
  have le: "inFlightOf ?d t \<le> inFlightOf (sDisp s) t" "runningCount ?d \<le> runningCount (sDisp s)" for t
    by (simp_all add: inFlightOf_def runningCount_def filter_delete_le length_delete_le)
  have "capOk F ?d" using assms le(1) order_trans by (fastforce simp: sysInv_def fairOk_def capOk_def)
  then have "fairOk F (s\<lparr>sDisp := ?d\<rparr>)"
    using assms le(1) order.strict_trans1 by (fastforce simp: sysInv_def fairOk_def)
  moreover have "loopOk L (s\<lparr>sDisp := ?d\<rparr>)" using assms le(2) by (auto simp: sysInv_def loopOk_def coreOk_def)
  moreover have "sysJobs (s\<lparr>sDisp := ?d\<rparr>) = sysJobs s" by (simp add: sysJobs_def)
  ultimately have "sysInv L F stored tn (s\<lparr>sDisp := ?d\<rparr>)" using assms by (simp add: sysInv_def)
  then show ?thesis by (simp add: runFinally_def Let_def kick_inv)
qed

lemma retry_well: "wellJob tn j \<Longrightarrow> wellJob tn (retryJob j)"
  by (simp add: wellJob_def retryJob_def)

lemma scheduleRetry_inv:
  assumes "sysInv L F stored tn s" "wellJob tn job"
  shows "sysInv L F stored tn (scheduleRetry S owner now job s)"
proof -
  have "sysInv L F stored tn (s\<lparr>sTimers := sTimers s @ [(retryJob job, now + retryDelay job)]\<rparr>)"
    using assms retry_well [OF assms(2)]
    by (intro data_inv [OF assms(1), where J = "{retryJob job}"]) (auto simp: sysInv_def sysJobs_def)
  then show ?thesis using assms kick_inv addReady_inv retry_well by (simp add: scheduleRetry_def)
qed

lemma finish_inv:
  assumes "sysInv L F stored tn s" "finish S owner now n s = Some s'"
  shows "sysInv L F stored tn s'"
proof -
  have "n < length (sRuns s)" using assms(2) by (auto simp: finish_def split: if_splits)
  note f = failRun_inv [OF assms(1) this]
  consider err where "s' = failRun S owner now n err s"
    | job nxt where "n < length (sRuns s)" "sRuns s ! n = (job, Settling nxt)"
      "s' = runFinally S owner now job
        (if nxt = Some Queued then scheduleRetry S owner now job (s\<lparr>sRuns := removeNth n (sRuns s)\<rparr>)
         else s\<lparr>sRuns := removeNth n (sRuns s)\<rparr>)"
    using assms(2) by (auto simp: finish_def Let_def split: if_splits prod.splits RunPhase.splits)
  then show ?thesis
  proof cases
    case (2 job nxt)
    have "job \<in> fst ` set (sRuns s)" using 2 by (metis fst_conv image_eqI nth_mem)
    then have "wellJob tn job" using assms(1) by (auto simp: sysInv_def sysJobs_def)
    moreover have "sysInv L F stored tn (s\<lparr>sRuns := removeNth n (sRuns s)\<rparr>)"
      using assms(1) set_removeNth [of n "sRuns s"]
      by (intro data_inv [OF assms(1), where J = "{}"]) (auto simp: sysInv_def sysJobs_def)
    ultimately show ?thesis unfolding 2(3) using runFinally_inv scheduleRetry_inv by auto
  qed (simp add: f)
qed

lemma fireTimer_inv:
  assumes "sysInv L F stored tn s" "fireTimer S owner now n s = Some s'"
  shows "sysInv L F stored tn s'"
proof -
  have n: "n < length (sTimers s)"
    and s': "s' = kick S owner now (addReady (fst (sTimers s ! n)) (s\<lparr>sTimers := removeNth n (sTimers s)\<rparr>))"
    using assms(2) by (auto simp: fireTimer_def split: if_splits)
  have "wellJob tn (fst (sTimers s ! n))" using assms(1) n by (auto simp: sysInv_def sysJobs_def)
  moreover have "sysInv L F stored tn (s\<lparr>sTimers := removeNth n (sTimers s)\<rparr>)"
    using assms(1) set_removeNth [of n "sTimers s"]
    by (intro data_inv [OF assms(1), where J = "{}"]) (auto simp: sysInv_def sysJobs_def)
  ultimately show ?thesis unfolding s' by (intro kick_inv addReady_inv)
qed

lemma rebuild_inv:
  assumes "sysInv L F stored tn s"
  shows "sysInv L F stored tn (rebuildStart S s)" "rebuildEnd n s = Some s' \<Longrightarrow> sysInv L F stored tn s'"
proof -
  have e: "sysInv L F stored tn (s\<lparr>sDisp := (sDisp s)\<lparr>dReady := [], dOrder := []\<rparr>\<rparr>)"
    using assms by (intro disp_inv [where J = "{}"]) (auto simp: wfReady_def sysInv_def)
  have "\<forall>j \<in> set (peekJ S None 10000 (sStore s)). wellJob tn j"
    using stored_peek assms by (auto simp: sysInv_def)
  then show "sysInv L F stored tn (rebuildStart S s)"
    using assms unfolding rebuildStart_def
    by (intro data_inv [OF e, where J = "set (peekJ S None 10000 (sStore s))"]) (auto simp: sysInv_def sysJobs_def)
  have f: "sysInv L F stored tn (fold addReady js u)" if "sysInv L F stored tn u" "\<forall>j \<in> set js. wellJob tn j" for js u
    using that by (induction js arbitrary: u) (auto intro: addReady_inv)
  have "sysInv L F stored tn (s\<lparr>sRebuilds := removeNth n (sRebuilds s)\<rparr>)"
  proof (rule data_inv [OF assms, where J = "{}"])
    show "sysJobs (s\<lparr>sRebuilds := removeNth n (sRebuilds s)\<rparr>) \<subseteq> {} \<union> sysJobs s"
      using set_removeNth [of n "sRebuilds s"] by (auto simp: sysJobs_def)
  qed (use assms in \<open>simp_all add: sysInv_def\<close>)
  moreover have "n < length (sRebuilds s) \<Longrightarrow> \<forall>j \<in> set (sRebuilds s ! n). wellJob tn j"
    using assms nth_mem [of n "sRebuilds s"] by (auto simp: sysInv_def sysJobs_def)
  ultimately show "rebuildEnd n s = Some s' \<Longrightarrow> sysInv L F stored tn s'"
    using f by (auto simp: rebuildEnd_def split: if_splits)
qed

lemma configure_inv:
  assumes "sysInv L F stored tn s" "withinLimits L F (EvConfigure c)"
  shows "sysInv L F stored tn (s\<lparr>sDisp := configure c (sDisp s)\<rparr>)"
proof -
  have j: "sysJobs (s\<lparr>sDisp := configure c (sDisp s)\<rparr>) = sysJobs s"
    by (simp add: sysJobs_def readyJobs_def configure_def)
  show ?thesis
    using assms unfolding sysInv_def loopOk_def coreOk_def fairOk_def capOk_def j
    by (auto simp: configure_def mergeConfig_def nullish_def runningCount_def inFlightOf_def wfReady_def
        split: option.splits)
qed

lemma sysStep_inv:
  assumes i: "sysInv L F stored tn s" and "wellEvent tn e" "withinLimits L F e" "sysStep S owner now e s = Some s'"
  shows "sysInv L F stored tn s'"
proof (cases e)
  case (EvConfigure c)
  then show ?thesis using configure_inv [OF i, of c] assms(3,4) by simp
next
  case (EvDrop i)
  have "sysInv L F stored tn (s\<lparr>sDisp := dropFromReady i (sDisp s)\<rparr>)"
    using assms(1) readyJobs_drop by (intro disp_inv [where J = "{}"]) (auto simp: sysInv_def loopOk_def coreOk_def wfReady_drop)
  then show ?thesis using EvDrop assms(4) by simp
next
  case (EvClear t)
  have "sysInv L F stored tn (s\<lparr>sDisp := clearTenant t (sDisp s)\<rparr>)"
    using assms(1) readyJobs_remove unfolding clearTenant_def
    by (intro disp_inv [where J = "{}"]) (auto simp: sysInv_def loopOk_def coreOk_def wfReady_remove)
  then show ?thesis using EvClear assms(4) by simp
next
  case (EvStoreCall c)
  have "sysInv L F stored tn (s\<lparr>sStore := callStore S c (sStore s)\<rparr>)"
    using assms stored_call [of tn "sStore s" c] EvStoreCall
    by (intro data_inv [OF i, where J = "{}"]) (auto simp: sysInv_def sysJobs_def)
  then show ?thesis using EvStoreCall assms(4) by simp
qed (use assms enqueueCall_inv [OF i] mirror_inv [OF i] resumeLoop_inv [OF i] settle_inv [OF i]
    finish_inv [OF i] fireTimer_inv [OF i] kick_inv [OF i] rebuild_inv [OF i] in auto)

lemma initial_inv:
  "stored tn st \<Longrightarrow> dcInFlightLimit (dConfig (newDispatcher c)) \<le> L \<Longrightarrow>
     dcFairCapacity (dConfig (newDispatcher c)) \<le> F \<Longrightarrow> sysInv L F stored tn (initialSys c st)"
  by (auto simp: sysInv_def initialSys_def loopOk_def coreOk_def fairOk_def capOk_def sysJobs_def readyJobs_def
      wfReady_new) (auto simp: newDispatcher_def runningCount_def inFlightOf_def)

lemma reach_inv:
  assumes "reach S owner c st0 P s" "stored tn st0" "\<And>now e. P now e \<Longrightarrow> wellEvent tn e \<and> withinLimits L F e"
    and "dcInFlightLimit (dConfig (newDispatcher c)) \<le> L" "dcFairCapacity (dConfig (newDispatcher c)) \<le> F"
  shows "sysInv L F stored tn s"
  using assms(1) by induction (use assms(2-5) initial_inv sysStep_inv in blast)+

end

subsection \<open>No lost wake-ups\<close>

lemma ready_pos:
  assumes "wfReady d" "t \<in> set (dOrder d)"
  shows "0 < totalReady d"
proof -
  obtain q where "map_of (dReady d) t = Some q" using wfReady_order [OF assms(1), of t] assms(2) by auto
  then have "(t, q) \<in> set (dReady d)" "q \<noteq> []"
    using map_of_SomeD [of "dReady d" t q] wfReady_bucket [OF assms(1)] by auto
  then have "length q \<in> set (map (\<lambda>(t, q). length q) (dReady d))" by force
  then have "length q \<le> totalReady d" unfolding totalReady_def by (intro member_le_sum_list) auto
  then show ?thesis using \<open>q \<noteq> []\<close> by (cases q) auto
qed

lemma dispatchable_mono:
  assumes "wfReady d" "set (dOrder d') \<subseteq> set (dOrder d)" "dRunning d' = dRunning d" "dConfig d' = dConfig d"
    and "dispatchable d'"
  shows "dispatchable d"
  using assms ready_pos [OF assms(1)] same_running [OF assms(3,4)]
  by (auto simp: dispatchable_def loopGuard_def)

lemma order_remove: "set (dOrder (removeTenant t d)) \<subseteq> set (dOrder d)"
  by (simp add: removeTenant_def set_remove1_subset)

lemma order_setBucket: "set (dOrder (setBucket t q d)) \<subseteq> set (dOrder d)"
  by (auto simp: setBucket_def removeTenant_def dest: set_remove1_subset [THEN subsetD])

lemma order_drop: "set (dOrder (dropFromReady i d)) \<subseteq> set (dOrder d)"
  using order_setBucket by (fastforce simp: dropFromReady_def split: option.splits)

lemma kick_awake: "coreOk s \<Longrightarrow> now \<le> maxDateMs \<Longrightarrow> awake (kick S owner now s)"
  using loopHead_awake [of "s\<lparr>sDisp := (sDisp s)\<lparr>dLoopRunning := True\<rparr>\<rparr>" now S owner]
  by (auto simp: kick_def awake_def coreOk_def)

lemma awake_same: "awake s \<Longrightarrow> sDisp s' = sDisp s \<Longrightarrow> sPc s' = sPc s \<Longrightarrow> awake s'"
  by (simp add: awake_def)

text \<open>
  The events after which nobody kicks the loop although there may be more to dispatch: the end of a
  rebuild, which fills the ready set, and a \<open>configure\<close> that sets a limit.
\<close>

fun silent :: "SysEvent \<Rightarrow> bool" where
  "silent (EvRebuildEnd _) = True"
| "silent (EvConfigure c) = (pcInFlightLimit c \<noteq> None \<or> pcFairCapacity c \<noteq> None)"
| "silent _ = False"

lemma coreOk_addReady: "coreOk s \<Longrightarrow> coreOk (addReady j s)"
  by (simp add: coreOk_def addReady_def wfReady_enqueue runningCount_def)

lemma coreOk_data [simp]:
  "coreOk (s\<lparr>sPending := ps\<rparr>) = coreOk s" "coreOk (s\<lparr>sTimers := ts\<rparr>) = coreOk s"
  by (simp_all add: coreOk_def)

lemma failRun_const [simp]:
  "sDisp (failRun S owner now n err s) = sDisp s" "sPc (failRun S owner now n err s) = sPc s"
  by (auto simp: failRun_def Let_def split: prod.splits)

lemma enqueueCall_const:
  "sDisp (snd (enqueueCall S now j s)) = sDisp s" "sPc (snd (enqueueCall S now j s)) = sPc s"
  by (auto simp: enqueueCall_def Let_def split: option.splits prod.splits)

lemma sysStep_awake:
  assumes i: "coreOk s" and a: "awake s" and now: "now \<le> maxDateMs" and r: "\<not> silent e"
    and st: "sysStep S owner now e s = Some s'"
  shows "awake s'"
proof (cases e)
  case (EvEnqueueCall j)
  then show ?thesis using st by (auto intro!: awake_same [OF a] simp: enqueueCall_const)
next
  case (EvMirror n)
  then show ?thesis using st i now
    by (auto simp: mirror_def split: if_splits intro!: kick_awake coreOk_addReady)
next
  case EvLoop
  have "wfReady (sDisp (startRun now t s))" for t using i by (simp add: coreOk_def startRun_def)
  then show ?thesis using EvLoop st i loopHead_awake [OF _ now]
    by (auto simp: resumeLoop_def coreOk_def split: LoopPc.splits option.splits)
next
  case (EvSettle n x)
  then have "sDisp s' = sDisp s \<and> sPc s' = sPc s" using st
    by (auto simp: settle_def Let_def split: if_splits sum.splits prod.splits)
  then show ?thesis using awake_same [OF a] by blast
next
  case (EvFinish n)
  have "awake (runFinally S owner now job s1)" if "coreOk s1" for job s1
  proof -
    let ?s = "s1\<lparr>sDisp := (sDisp s1)\<lparr>dRunning := AList.delete (pjId job) (dRunning (sDisp s1))\<rparr>\<rparr>"
    have "coreOk ?s" using that length_delete_le [of "pjId job" "dRunning (sDisp s1)"]
      by (auto simp: coreOk_def runningCount_def)
    then show ?thesis using kick_awake [OF _ now]
      by (auto simp: runFinally_def Let_def) (simp add: awake_def dispatchable_def)
  qed
  moreover have "coreOk (s\<lparr>sRuns := rs\<rparr>)" for rs using i by (simp add: coreOk_def)
  moreover have "coreOk (scheduleRetry S owner now job (s\<lparr>sRuns := rs\<rparr>))" for job rs
  proof -
    have k: "coreOk (kick S owner now u)" if "coreOk u" for u
      using that loopHead_core [of "u\<lparr>sDisp := (sDisp u)\<lparr>dLoopRunning := True\<rparr>\<rparr>" S owner now]
      by (auto simp: kick_def coreOk_def runningCount_def)
    show ?thesis using i k [OF coreOk_addReady] by (simp add: scheduleRetry_def coreOk_def)
  qed
  moreover have "awake (failRun S owner now n err s)" for err by (rule awake_same [OF a]) simp_all
  ultimately show ?thesis using EvFinish st
    by (auto simp: finish_def Let_def split: if_splits prod.splits RunPhase.splits)
next
  case (EvTimer n)
  then show ?thesis using st i now
    by (auto simp: fireTimer_def split: if_splits intro!: kick_awake coreOk_addReady)
next
  case (EvDrop j)
  then show ?thesis using st a i dispatchable_mono [of "sDisp s" "dropFromReady j (sDisp s)"] order_drop
    by (auto simp: awake_def coreOk_def)
next
  case (EvClear t)
  then show ?thesis using st a i dispatchable_mono [of "sDisp s" "clearTenant t (sDisp s)"]
      order_remove [of t "sDisp s"]
    by (auto simp: awake_def coreOk_def clearTenant_def)
next
  case EvKick
  then show ?thesis using st by (auto intro!: kick_awake [OF i now])
next
  case EvRebuildStart
  then show ?thesis using st by (auto simp: rebuildStart_def awake_def dispatchable_def)
next
  case (EvConfigure c)
  then have "dispatchable (configure c (sDisp s)) = dispatchable (sDisp s)" using r
    by (simp add: configure_def mergeConfig_def dispatchable_def loopGuard_def eligible_def totalReady_def
        runningCount_def inFlightOf_def)
  then show ?thesis using st a EvConfigure by (auto simp: awake_def)
qed (use st a r in \<open>auto simp: awake_def\<close>)

text \<open>The flag and the ready set stay well-formed along every event.\<close>

lemma kick_core: "coreOk s \<Longrightarrow> coreOk (kick S owner now s)"
  using loopHead_core [of "s\<lparr>sDisp := (sDisp s)\<lparr>dLoopRunning := True\<rparr>\<rparr>" S owner now]
  by (auto simp: kick_def coreOk_def)

lemma core_data [simp]:
  "coreOk (s\<lparr>sStore := st\<rparr>) = coreOk s" "coreOk (s\<lparr>sRuns := rs\<rparr>) = coreOk s"
  "coreOk (s\<lparr>sRebuilds := bs\<rparr>) = coreOk s"
  "coreOk (s\<lparr>sDisp := (sDisp s)\<lparr>dRunning := m\<rparr>\<rparr>) = coreOk s"
  by (simp_all add: coreOk_def)

lemma core_same: "coreOk s \<Longrightarrow> sDisp s' = sDisp s \<Longrightarrow> sPc s' = sPc s \<Longrightarrow> coreOk s'"
  by (simp add: coreOk_def)

lemma runFinally_core: "coreOk s \<Longrightarrow> coreOk (runFinally S owner now job s)"
  by (simp add: runFinally_def Let_def kick_core)

lemma scheduleRetry_core: "coreOk s \<Longrightarrow> coreOk (scheduleRetry S owner now job s)"
  by (simp add: scheduleRetry_def kick_core coreOk_addReady)

lemma fold_addReady_core: "coreOk s \<Longrightarrow> coreOk (fold addReady js s)"
  by (induction js arbitrary: s) (simp_all add: coreOk_addReady)

lemma sysStep_core:
  assumes i: "coreOk s" and st: "sysStep S owner now e s = Some s'"
  shows "coreOk s'"
proof (cases e)
  case (EvEnqueueCall j)
  then show ?thesis using st by (auto intro!: core_same [OF i] simp: enqueueCall_const)
next
  case EvLoop
  have "coreOk (loopHead S owner now s)" if "sPc s \<noteq> LoopIdle"
    using loopHead_core [of s] i that by (simp add: coreOk_def)
  moreover have "coreOk (loopHead S owner now (startRun now t s))" if "sPc s \<noteq> LoopIdle" for t
    using loopHead_core [of "startRun now t s"] i that by (simp add: coreOk_def startRun_def)
  ultimately show ?thesis using EvLoop st by (auto simp: resumeLoop_def split: LoopPc.splits option.splits)
next
  case (EvSettle n x)
  then have "sDisp s' = sDisp s \<and> sPc s' = sPc s" using st
    by (auto simp: settle_def Let_def split: if_splits sum.splits prod.splits)
  then show ?thesis using core_same [OF i] by blast
next
  case (EvFinish n)
  have "coreOk (failRun S owner now n err s)" for err by (rule core_same [OF i]) simp_all
  then show ?thesis using st EvFinish i
    by (auto simp: finish_def Let_def runFinally_core scheduleRetry_core split: if_splits prod.splits RunPhase.splits)
next
  case (EvDrop j)
  then show ?thesis using st i by (auto simp: coreOk_def wfReady_drop)
next
  case (EvClear t)
  then show ?thesis using st i by (auto simp: coreOk_def clearTenant_def wfReady_remove)
next
  case EvRebuildStart
  then show ?thesis using st i by (auto simp: rebuildStart_def coreOk_def wfReady_def)
next
  case (EvConfigure c)
  then show ?thesis using st i by (auto simp: coreOk_def wfReady_config) (auto simp: configure_def)
qed (use st i in \<open>auto simp: mirror_def fireTimer_def rebuildEnd_def kick_core coreOk_addReady fold_addReady_core
    split: if_splits\<close>)

lemma reach_core: "reach S owner c st0 P s \<Longrightarrow> coreOk s"
proof (induction rule: reach.induct)
  case reach_init
  then show ?case by (simp add: coreOk_def initialSys_def wfReady_new) (simp add: newDispatcher_def)
qed (rule sysStep_core)

lemma runSys_awake:
  assumes "coreOk s" "awake s" "list_all (\<lambda>(now, e). now \<le> maxDateMs \<and> \<not> silent e) es"
    and "runSys S owner es s = Some s'"
  shows "awake s'"
  using assms
proof (induction es arbitrary: s)
  case (Cons p es)
  obtain now e where p: "p = (now, e)" by (cases p)
  then obtain s1 where s1: "sysStep S owner now e s = Some s1" "runSys S owner es s1 = Some s'"
    using Cons.prems(4) by (auto split: option.splits)
  have "awake s1" using sysStep_awake [OF Cons.prems(1,2) _ _ s1(1)] Cons.prems(3) p by simp
  then show ?case using Cons.IH [OF sysStep_core [OF Cons.prems(1) s1(1)] _ _ s1(2)] Cons.prems(3) p by simp
qed simp

section \<open>The stores of the repository\<close>



lemma tenant_fields [simp]:
  "cTenant (leaseTo now req r) = cTenant r" "cTenant (failRow e r) = cTenant r"
  "pjTenant (rowToJob r) = cTenant r" "cTenant (insertedRow j) = pjTenant j"
  by (simp_all add: leaseTo_def failRow_def rowToJob_def insertedRow_def)









section \<open>Properties\<close>



definition twoSlots :: PartialConfig where
  "twoSlots = \<lparr>pcInFlightLimit = Some 2, pcMaxQueueDepth = None, pcResultTtlMs = None,
     pcFairCapacity = Some 1, pcLeaseMs = Some 10\<rparr>"

abbreviation dispatchTrace :: "(int \<times> SysEvent) list" where
  "dispatchTrace \<equiv> [(5, EvEnqueueCall (sampleJob ''j'' ''t'')), (5, EvEnqueueCall (sampleJob ''k'' ''t'')),
     (6, EvMirror 0), (6, EvMirror 0), (7, EvLoop)]"



text \<open>
  C17. No lost wake-up: take any reachable state, whatever happened before (rebuilds and
  reconfigurations included), and let the loop be kicked. From then on, until a rebuild ends or
  \<open>configure\<close> sets a limit again, whenever the dispatch loop is at rest there is nothing it could
  dispatch: no ready job, no free slot, or every tenant with ready jobs at its capacity.
\<close>

theorem dispatcher_work_conserving:
  assumes "reach doStorage owner c emptyDoStore (\<lambda>now e. True) s0" "now0 \<le> maxDateMs"
    and "list_all (\<lambda>(now, e). now \<le> maxDateMs \<and> \<not> silent e) es"
    and "runSys doStorage owner ((now0, EvKick) # es) s0 = Some s"
  shows "sPc s = LoopIdle \<longrightarrow>
     totalReady (sDisp s) = 0 \<or> dcInFlightLimit (dConfig (sDisp s)) \<le> runningCount (sDisp s) \<or>
     (\<forall>t \<in> set (dOrder (sDisp s)). dcFairCapacity (dConfig (sDisp s)) \<le> inFlightOf (sDisp s) t)"
proof -
  have c: "coreOk s0" using reach_core [OF assms(1)] .
  have "awake s"
    using runSys_awake [OF kick_core [OF c] kick_awake [OF c assms(2)] assms(3)] assms(4) by simp
  then show ?thesis by (auto simp: awake_def dispatchable_def loopGuard_def eligible_def not_less)
qed

theorem dispatcher_work_conserving_witness:
  "\<exists>s. runSys doStorage ''o'' ((8, EvKick) # [(9, EvSettle 0 (Inr (JNum 1)))])
         (the (runSys doStorage ''o'' dispatchTrace (initialSys twoSlots emptyDoStore))) = Some s \<and>
       sPc s = LoopIdle \<and> totalReady (sDisp s) = 1 \<and>
       filter (\<lambda>t. inFlightOf (sDisp s) t < 1) (dOrder (sDisp s)) = []"
proof -
  let ?s0 = "the (runSys doStorage ''o'' dispatchTrace (initialSys twoSlots emptyDoStore))"
  let ?es = "[(9, EvSettle 0 (Inr (JNum 1)))]"
  have "runSys doStorage ''o'' dispatchTrace (initialSys twoSlots emptyDoStore) \<noteq> None" by code_simp
  then have "runSys doStorage ''o'' dispatchTrace (initialSys twoSlots emptyDoStore) = Some ?s0" by simp
  then have r: "reach doStorage ''o'' twoSlots emptyDoStore (\<lambda>now e. True) ?s0"
    by (rule reach_run [OF reach_init, rotated]) simp
  have run: "(case runSys doStorage ''o'' ((8, EvKick) # ?es) ?s0 of None \<Rightarrow> False
      | Some s \<Rightarrow> sPc s = LoopIdle \<and> totalReady (sDisp s) = 1 \<and> runningCount (sDisp s) = 1 \<and>
                  dcInFlightLimit (dConfig (sDisp s)) = 2 \<and> dcFairCapacity (dConfig (sDisp s)) = 1)"
    by code_simp
  then obtain s where s: "runSys doStorage ''o'' ((8, EvKick) # ?es) ?s0 = Some s"
    "sPc s = LoopIdle" "totalReady (sDisp s) = 1" "runningCount (sDisp s) = 1"
    "dcInFlightLimit (dConfig (sDisp s)) = 2" "dcFairCapacity (dConfig (sDisp s)) = 1"
    by (cases "runSys doStorage ''o'' ((8, EvKick) # ?es) ?s0") auto
  from dispatcher_work_conserving [OF r _ _ s(1)] s show ?thesis
    by (auto simp: filter_empty_conv not_less maxDateMs_def)
qed

text \<open>
  The two silent events do leave dispatchable work behind: \<open>configure\<close> raises the limit and nobody kicks
  the loop, and after a rebuild the enqueue that caused it can throw \<open>QueueFullError\<close> before its kick.
\<close>

lemma raised_limit_not_dispatched:
  "\<exists>s. runSys doStorage ''o'' (dispatchTrace @ [(8, EvConfigure (twoSlots\<lparr>pcFairCapacity := Some 2\<rparr>))])
         (initialSys twoSlots emptyDoStore) = Some s \<and>
       sPc s = LoopIdle \<and> totalReady (sDisp s) = 1 \<and> runningCount (sDisp s) = 1 \<and>
       dcInFlightLimit (dConfig (sDisp s)) = 2 \<and> dcFairCapacity (dConfig (sDisp s)) = 2"
  (is "\<exists>s. ?run = Some s \<and> _")
proof -
  have "(case ?run of None \<Rightarrow> False | Some s \<Rightarrow>
       sPc s = LoopIdle \<and> totalReady (sDisp s) = 1 \<and> runningCount (sDisp s) = 1 \<and>
       dcInFlightLimit (dConfig (sDisp s)) = 2 \<and> dcFairCapacity (dConfig (sDisp s)) = 2)"
    by code_simp
  then show ?thesis by (cases ?run) auto
qed

lemma rebuilt_jobs_not_dispatched:
  "\<exists>s. runSys doStorage ''o''
         [(5, EvStoreCall (CEnqueue 5 (sampleJob ''j'' ''t''))), (6, EvRebuildStart), (6, EvRebuildEnd 0),
          (7, EvEnqueueCall (sampleJob ''k'' ''t''))]
         (initialSys (twoSlots\<lparr>pcMaxQueueDepth := Some (Some 1)\<rparr>) emptyDoStore) = Some s \<and>
       sPc s = LoopIdle \<and> sPending s = [] \<and> totalReady (sDisp s) = 1 \<and> runningCount (sDisp s) = 0"
  (is "\<exists>s. ?run = Some s \<and> _")
proof -
  have "(case ?run of None \<Rightarrow> False | Some s \<Rightarrow>
       sPc s = LoopIdle \<and> sPending s = [] \<and> totalReady (sDisp s) = 1 \<and> runningCount (sDisp s) = 0)"
    by code_simp
  then show ?thesis by (cases ?run) auto
qed

text \<open>
  Backpressure: \<open>enqueue\<close> throws \<open>QueueFullError\<close> exactly when the ready set has reached
  \<open>maxQueueDepth\<close>, and then neither the store nor the dispatcher has changed.
\<close>

theorem enqueue_backpressure:
  "(case dcMaxQueueDepth (dConfig (sDisp s)) of
      Some m \<Rightarrow> if m \<le> totalReady (sDisp s)
                then enqueueCall doStorage now j s =
                       (Some (Lib (QueueFullError (int (totalReady (sDisp s))) (int m) None)), s)
                else fst (enqueueCall doStorage now j s) =
                       map_option (\<lambda>err. PlainError ''Error'' err None) (fst (dsEnqueue now j (sStore s)))
    | None \<Rightarrow> fst (enqueueCall doStorage now j s) =
                map_option (\<lambda>err. PlainError ''Error'' err None) (fst (dsEnqueue now j (sStore s))))"
  by (auto simp: enqueueCall_def Let_def doStorage_ops split: option.splits prod.splits)

text \<open>
  Retry delays: the delay is at most 60 seconds; the exponential policy doubles it with every
  failed attempt up to that cap, and the linear policy is the constant one.
\<close>

theorem retry_delay:
  "retryDelay job \<le> 60000 \<and>
   retryDelay (job\<lparr>pjRetry := (pjRetry job)\<lparr>rpBackoff := Linear\<rparr>\<rparr>) =
     retryDelay (job\<lparr>pjRetry := (pjRetry job)\<lparr>rpBackoff := Constant\<rparr>\<rparr>) \<and>
   retryDelay (job\<lparr>pjRetry := (pjRetry job)\<lparr>rpBackoff := Exponential\<rparr>\<rparr>) =
     min (rpBaseMs (pjRetry job) * 2 ^ nat (pjRetryCount job)) 60000"
  by (simp add: retryDelay_def Let_def RETRY_MAX_DELAY_MS_def)

text \<open>
  The limit counts job ids, not runs: when leases expire before the user code returns, the alarm
  reclaims and re-dispatches the job while its first run continues, and more runs than
  \<open>inFlightLimit\<close> are executing at the same time.
\<close>

theorem lease_expiry_overcommits:
  "\<exists>s. runSys doStorage ''o''
        ([(5, EvEnqueueCall (sampleJob ''j'' ''t'')), (6, EvMirror 0), (7, EvLoop)] @
         concat (map (\<lambda>t. [(t, EvStoreCall (CReclaim t)), (t, EvRebuildStart), (t, EvRebuildEnd 0),
                           (t, EvKick), (t, EvLoop)]) [20, 40]))
        (initialSys (twoSlots\<lparr>pcFairCapacity := Some 4\<rparr>) emptyDoStore) = Some s \<and>
       dcInFlightLimit (dConfig (sDisp s)) = 2 \<and> runningCount (sDisp s) = 1 \<and>
       length (filter (\<lambda>r. snd r = Executing) (sRuns s)) = 3"
  (is "\<exists>s. ?run = Some s \<and> _")
proof -
  have "(case ?run of None \<Rightarrow> False | Some s \<Rightarrow> dcInFlightLimit (dConfig (sDisp s)) = 2 \<and>
      runningCount (sDisp s) = 1 \<and> length (filter (\<lambda>r. snd r = Executing) (sRuns s)) = 3)"
    by code_simp
  then show ?thesis by (cases ?run) auto
qed

end
