(* ===== verification/SchedulerDO.thy ===== *)
theory SchedulerDO
  imports DispatchLoop
begin

text \<open>
  The scheduler Durable Object (\<open>src/scheduler/scheduler-do.ts\<close>) around the dispatcher and the DO
  store, and the client side of the public scheduler (\<open>src/api/scheduler.ts\<close>): deadlines and
  defaults of an enqueued job, the long-poll of a handle, \<open>drain\<close> and \<open>stats\<close>. Each method is one
  step here; the interleavings inside the dispatcher are the subject of \<open>DispatchLoop\<close>. Running a
  job (\<open>#runJob\<close>) belongs to the loader.
\<close>

section \<open>State\<close>

record SchedulerEnqueueRequest =
  sqId :: string
  sqTenant :: string
  sqFnSource :: string
  sqFnHash :: string
  sqArgs :: "jsval list"
  sqContext :: "jsval option"
  sqDeadline :: int
  sqRetry :: RetryPolicy
  sqMeta :: "(string \<times> string) list option"
  sqIdempotencyKey :: "string option"
  sqWorkerOptions :: "jsval option"
  sqAllowList :: "string list option"
  sqCacheKeyStrategy :: "CacheKeyStrategy option"

text \<open>\<open>scBuilt\<close>: the dispatcher has been constructed (it takes the overrides known at that time).\<close>

record Scheduler =
  scSys :: "DoStore Sys"
  scBuilt :: bool
  scInitialized :: bool
  scOverrides :: PartialConfig
  scAlarm :: "int option"

definition mergePartial :: "PartialConfig \<Rightarrow> PartialConfig \<Rightarrow> PartialConfig" where
  "mergePartial a b =
     \<lparr>pcInFlightLimit = (case pcInFlightLimit b of None \<Rightarrow> pcInFlightLimit a | x \<Rightarrow> x),
      pcMaxQueueDepth = (case pcMaxQueueDepth b of None \<Rightarrow> pcMaxQueueDepth a | x \<Rightarrow> x),
      pcResultTtlMs = (case pcResultTtlMs b of None \<Rightarrow> pcResultTtlMs a | x \<Rightarrow> x),
      pcFairCapacity = (case pcFairCapacity b of None \<Rightarrow> pcFairCapacity a | x \<Rightarrow> x),
      pcLeaseMs = (case pcLeaseMs b of None \<Rightarrow> pcLeaseMs a | x \<Rightarrow> x)\<rparr>"

definition newScheduler :: "DoStore \<Rightarrow> Scheduler" where
  "newScheduler st = \<lparr>scSys = initialSys noConfig st, scBuilt = False, scInitialized = False,
     scOverrides = noConfig, scAlarm = None\<rparr>"

definition getDispatcher :: "Scheduler \<Rightarrow> Scheduler" where
  "getDispatcher s =
     (if scBuilt s then s
      else s\<lparr>scSys := (scSys s)\<lparr>sDisp := newDispatcher (scOverrides s)\<rparr>, scBuilt := True\<rparr>)"

section \<open>Methods\<close>

definition rebuildNow :: "DoStore Sys \<Rightarrow> DoStore Sys" where
  "rebuildNow y =
     fold addReady (dsPeek None 10000 (sStore y)) (y\<lparr>sDisp := (sDisp y)\<lparr>dReady := [], dOrder := []\<rparr>\<rparr>)"

definition ensureInit :: "Scheduler \<Rightarrow> Scheduler" where
  "ensureInit s =
     (if scInitialized s then s
      else let s1 = getDispatcher (s\<lparr>scInitialized := True\<rparr>)
           in s1\<lparr>scSys := rebuildNow (scSys s1)\<rparr>)"

definition buildJob :: "int \<Rightarrow> SchedulerEnqueueRequest \<Rightarrow> PersistedJob" where
  "buildJob now req =
     \<lparr>pjId = sqId req, pjTenant = sqTenant req, pjFnHash = sqFnHash req,
      pjFnSource = sqFnSource req, pjArgs = sqArgs req, pjContext = sqContext req,
      pjWorkerOptions = sqWorkerOptions req, pjAllowList = sqAllowList req, pjMeta = sqMeta req,
      pjCreatedAt = now, pjDeadline = sqDeadline req, pjRetry = sqRetry req, pjRetryCount = 0,
      pjStatus = Queued, pjCacheKeyStrategy = sqCacheKeyStrategy req, pjLeaseOwner = None,
      pjLeaseExpires = None, pjResult = None, pjResultExpires = None, pjError = None,
      pjIdempotencyKey = sqIdempotencyKey req\<rparr>"

definition schedEnqueue :: "string \<Rightarrow> int \<Rightarrow> SchedulerEnqueueRequest \<Rightarrow> Scheduler \<Rightarrow>
    (thrown + string \<times> nat) \<times> Scheduler" where
  "schedEnqueue owner now req s =
     (let s1 = getDispatcher (ensureInit s); job = buildJob now req in
      case enqueueCall doStorage now job (scSys s1) of
        (Some err, y) \<Rightarrow> (Inl err, s1\<lparr>scSys := y\<rparr>)
      | (None, y) \<Rightarrow>
          let y1 = kick doStorage owner now (addReady job (y\<lparr>sPending := butlast (sPending y)\<rparr>))
          in (Inr (sqId req, totalReady (sDisp y1)), s1\<lparr>scSys := y1\<rparr>))"

definition schedCancel :: "int \<Rightarrow> string \<Rightarrow> string option \<Rightarrow> Scheduler \<Rightarrow> bool \<times> Scheduler" where
  "schedCancel now i reason s =
     (case dsCancel now i reason (sStore (scSys s)) of (ok, st) \<Rightarrow>
        let s1 = s\<lparr>scSys := (scSys s)\<lparr>sStore := st\<rparr>\<rparr> in
        if ok then
          let s2 = getDispatcher s1
          in (True, s2\<lparr>scSys := (scSys s2)\<lparr>sDisp := dropFromReady i (sDisp (scSys s2))\<rparr>\<rparr>)
        else (False, s1))"

fun cancelAll :: "int \<Rightarrow> string option \<Rightarrow> PersistedJob list \<Rightarrow> DoStore \<Rightarrow> nat \<times> DoStore" where
  "cancelAll now reason [] st = (0, st)"
| "cancelAll now reason (j # js) st =
     (case dsCancel now (pjId j) reason st of (ok, st1) \<Rightarrow>
        (case cancelAll now reason js st1 of (n, st2) \<Rightarrow> ((if ok then 1 else 0) + n, st2)))"

definition schedCancelByTenant :: "int \<Rightarrow> string \<Rightarrow> string option \<Rightarrow> Scheduler \<Rightarrow> nat \<times> Scheduler" where
  "schedCancelByTenant now tenant reason s =
     (let active = dsListActiveByTenant tenant (sStore (scSys s)) in
      case cancelAll now reason active (sStore (scSys s)) of (n, st) \<Rightarrow>
        let s1 = getDispatcher (s\<lparr>scSys := (scSys s)\<lparr>sStore := st\<rparr>\<rparr>)
        in (n, s1\<lparr>scSys := (scSys s1)\<lparr>sDisp := clearTenant tenant (sDisp (scSys s1))\<rparr>\<rparr>))"

text \<open>The object that \<open>stats()\<close> returns; an unlimited queue depth is \<open>None\<close>.\<close>

definition countStatus :: "JobStatus \<Rightarrow> table \<Rightarrow> int" where
  "countStatus x t = int (length (filter (\<lambda>r. cStatus r = x) t))"

definition oldestQueuedAge :: "int \<Rightarrow> table \<Rightarrow> int" where
  "oldestQueuedAge now t =
     (case map cCreatedAt (filter (\<lambda>r. cStatus r = Queued) t) of
        [] \<Rightarrow> 0
      | x # xs \<Rightarrow> (let oldest = fold min xs x in if oldest = 0 then 0 else now - oldest))"

definition schedStats :: "int \<Rightarrow> Scheduler \<Rightarrow> (string \<times> int option) list" where
  "schedStats now s =
     (let t = dsRows (sStore (scSys s)); cfg = dConfig (sDisp (scSys (getDispatcher s))) in
      [(''queued'', Some (countStatus Queued t)), (''running'', Some (countStatus Leased t)),
       (''done'', Some (countStatus Done t)), (''failed'', Some (countStatus Failed t)),
       (''cancelled'', Some (countStatus Cancelled t)),
       (''oldestQueuedAgeMs'', Some (oldestQueuedAge now t)),
       (''inFlightLimit'', Some (int (dcInFlightLimit cfg))),
       (''maxQueueDepth'', map_option int (dcMaxQueueDepth cfg))])"

definition schedConfigure :: "PartialConfig \<Rightarrow> Scheduler \<Rightarrow> DispatcherConfig \<times> Scheduler" where
  "schedConfigure c s =
     (let s1 = s\<lparr>scOverrides := mergePartial (scOverrides s) c\<rparr> in
      if scBuilt s1 then
        let s2 = s1\<lparr>scSys := (scSys s1)\<lparr>sDisp := configure c (sDisp (scSys s1))\<rparr>\<rparr>
        in (dConfig (sDisp (scSys s2)), s2)
      else (mergeConfig DEFAULT_DISPATCHER_CONFIG c, s1))"

definition ALARM_SWEEP_MS :: int where "ALARM_SWEEP_MS = 5000"
definition IDLE_ALARM_MS :: int where "IDLE_ALARM_MS = 60000"

definition schedAlarm :: "string \<Rightarrow> int \<Rightarrow> Scheduler \<Rightarrow> Scheduler" where
  "schedAlarm owner now s =
     (let s0 = getDispatcher (ensureInit s); y0 = scSys s0 in
      case dsReclaimExpiredLeases now (sStore y0) of (reclaimed, st1) \<Rightarrow>
        let y1 = y0\<lparr>sStore := st1\<rparr>;
            y2 = (if 0 < reclaimed then rebuildNow y1 else y1);
            y3 = y2\<lparr>sStore := snd (dsSweepExpired now (sStore y2))\<rparr>;
            saturated = (dcInFlightLimit (dConfig (sDisp y3)) \<le> totalReady (sDisp y3) + runningCount (sDisp y3));
            y4 = (if saturated then y3 else rebuildNow y3);
            y5 = kick doStorage owner now y4;
            nextDelay = (if 0 < totalReady (sDisp y5) + runningCount (sDisp y5)
                         then ALARM_SWEEP_MS else IDLE_ALARM_MS)
        in s0\<lparr>scSys := y5, scAlarm := Some (now + nextDelay)\<rparr>)"

definition scheduleAlarmAt :: "int \<Rightarrow> Scheduler \<Rightarrow> Scheduler" where
  "scheduleAlarmAt wakeAt s =
     (case scAlarm s of
        None \<Rightarrow> s\<lparr>scAlarm := Some wakeAt\<rparr>
      | Some existing \<Rightarrow>
          if existing = 0 \<or> wakeAt < existing then s\<lparr>scAlarm := Some wakeAt\<rparr> else s)"

section \<open>The client\<close>

definition DEFAULT_DEADLINE_MS :: int where "DEFAULT_DEADLINE_MS = 60000"
definition DEFAULT_RESULT_TTL :: int where "DEFAULT_RESULT_TTL = 3600000"

text \<open>\<open>job.deadline ?? (job.deadlineMs !== undefined ? now + job.deadlineMs : now + default)\<close>\<close>

definition jobDeadline :: "int \<Rightarrow> int option \<Rightarrow> int option \<Rightarrow> int option \<Rightarrow> int" where
  "jobDeadline now deadline deadlineMs defaultMs =
     (case deadline of
        Some d \<Rightarrow> d
      | None \<Rightarrow>
          (case deadlineMs of Some m \<Rightarrow> now + m
           | None \<Rightarrow> now + nullish defaultMs DEFAULT_DEADLINE_MS))"

definition giveUpAfter :: "int \<Rightarrow> int \<Rightarrow> int option \<Rightarrow> int" where
  "giveUpAfter now deadline ttlMs =
     (let ttl = nullish ttlMs DEFAULT_RESULT_TTL in now + max (deadline - now + ttl) ttl)"

datatype PollOutcome = Resolve "jsval option" | Reject ParallelError | PollAgain

text \<open>One round of the long-poll of \<open>JobHandle.result()\<close> at time \<open>now\<close>.\<close>

definition pollRound :: "int \<Rightarrow> int \<Rightarrow> string \<Rightarrow> JobResult \<Rightarrow> PollOutcome" where
  "pollRound now giveUp i r =
     (if giveUp < now then Reject (ResultExpiredError i None)
      else case jrStatus r of
        Done \<Rightarrow> Resolve (jrValue r)
      | Cancelled \<Rightarrow>
          Reject (leafErrorToTypedError \<lparr>frName = ''CancelledError'', frMessage = ''Job cancelled'',
                                         frStack = None, frOriginalName = None\<rparr>)
      | Failed \<Rightarrow>
          (let e = nullish (jrError r) \<lparr>frName = ''ExecutionError'', frMessage = ''job failed'',
                                        frStack = None, frOriginalName = None\<rparr>
           in if frName e = ''ResultExpiredError'' then Reject (ResultExpiredError i None)
              else Reject (leafErrorToTypedError e))
      | _ \<Rightarrow> PollAgain)"

definition handleStatus :: "JobStatus option \<Rightarrow> string" where
  "handleStatus raw =
     (case nullish raw Failed of Queued \<Rightarrow> ''queued'' | Leased \<Rightarrow> ''running'' | Done \<Rightarrow> ''done''
      | Failed \<Rightarrow> ''failed'' | Cancelled \<Rightarrow> ''cancelled'')"

text \<open>
  The exit test of \<open>drain\<close>: it reads the fields \<open>queued\<close> and \<open>leased\<close> of the stats object, and a field
  that is missing is \<open>undefined\<close>, which is not \<open>=== 0\<close>. \<open>inFlight\<close> of the public stats reads the same
  field.
\<close>

definition drainDone :: "(string \<times> int option) list \<Rightarrow> bool" where
  "drainDone obj \<longleftrightarrow> map_of obj ''queued'' = Some (Some 0) \<and> map_of obj ''leased'' = Some (Some 0)"

definition statsInFlight :: "(string \<times> int option) list \<Rightarrow> int option option" where
  "statsInFlight obj = map_of obj ''leased''"

text \<open>The rounds of \<open>drain\<close> over the snapshots it polls: the number of rounds, if it returns.\<close>

fun drainRounds :: "(int \<times> Scheduler) list \<Rightarrow> nat option" where
  "drainRounds [] = None"
| "drainRounds ((now, s) # snaps) =
     (if drainDone (schedStats now s) then Some 1 else map_option Suc (drainRounds snaps))"

section \<open>Properties\<close>

lemma mergeConfig_assoc: "mergeConfig (mergeConfig d a) b = mergeConfig d (mergePartial a b)"
  by (auto simp: mergeConfig_def mergePartial_def split: option.splits)

text \<open>
  \<open>drain\<close> never returns: the stats object of the scheduler DO has a \<open>running\<close> field and no
  \<open>leased\<close> field, so the exit test of the client fails on every snapshot, even of an empty scheduler,
  and the public \<open>inFlight\<close> counter is always undefined.
\<close>

theorem drain_never_returns:
  "drainRounds snaps = None \<and> statsInFlight (schedStats now s) = None"
proof -
  have "map_of (schedStats t u) ''leased'' = None" for t u
    by (simp add: schedStats_def Let_def)
  then show ?thesis
    by (induction snaps rule: drainRounds.induct) (simp_all add: drainDone_def statsInFlight_def)
qed

lemma sqlAck_row:
  assumes "rowById i t = Some r" "ownsLease i w r"
  shows "rowById i (snd (sqlAck i w v x t)) =
    Some (r\<lparr>cStatus := Done, cResult := Some v, cResultExpires := Some x\<rparr>)"
  using assms by (simp add: sqlAck_def rowById_update)

text \<open>
  A finished job is delivered: after the worker that holds the lease acknowledges a JSON value, the
  long-poll of the job's handle resolves to exactly that value until the result's time to live has
  passed, and to a \<open>ResultExpiredError\<close> after that.
\<close>

theorem ack_then_result:
  assumes "dsGood st" "rowById i (dsRows st) = Some r" "ownsLease i w r" "jsonSafe v" "x \<noteq> 0"
    and "now \<le> giveUp"
  shows "pollRound now giveUp i (dsResult now i (snd (dsAck t i w v x st))) =
     (if x < now then Reject (ResultExpiredError i None) else Resolve (Some v))"
  using sqlAck_row [OF assms(2,3), of "enc v" x] assms(4-6)
  by (simp add: dsResult_def sqlResult_def ds_rows pollRound_def)

theorem ack_then_result_witness:
  "pollRound 50 99 ''j'' (dsResult 50 ''j'' (snd (dsAck 11 ''j'' ''w'' (JNum 7) 60
     (fold (callStore doStorage) [CEnqueue 5 (sampleJob ''j'' ''t''), CClaim 10 sampleClaim] emptyDoStore)))) =
   Resolve (Some (JNum 7))"
  (is "pollRound _ _ _ (dsResult _ _ (snd (dsAck _ _ _ _ _ ?st))) = _")
proof -
  have "(case rowById ''j'' (dsRows ?st) of Some r \<Rightarrow> ownsLease ''j'' ''w'' r | None \<Rightarrow> False)" by code_simp
  then obtain r where "rowById ''j'' (dsRows ?st) = Some r" "ownsLease ''j'' ''w'' r"
    by (cases "rowById ''j'' (dsRows ?st)") auto
  from ack_then_result [OF dsGood_run [OF dsGood_empty] this, of "JNum 7" 60 50 99 11]
  show ?thesis by simp
qed

lemma sqlCancel_row:
  "rowById k (snd (sqlCancel i t)) =
     map_option (\<lambda>r. if cId r = i \<and> active r then r\<lparr>cStatus := Cancelled\<rparr> else r) (rowById k t)"
  by (simp add: sqlCancel_def Let_def rowById_update)

lemma cancelAll_rows:
  assumes "goodTable (dsRows st)" "distinct (map pjId js)"
    and "\<forall>j \<in> set js. \<exists>r. rowById (pjId j) (dsRows st) = Some r \<and> active r"
  shows "fst (cancelAll now why js st) = length js \<and>
     rowById k (dsRows (snd (cancelAll now why js st))) =
       (if k \<in> pjId ` set js then map_option (\<lambda>r. r\<lparr>cStatus := Cancelled\<rparr>) (rowById k (dsRows st))
        else rowById k (dsRows st))"
  using assms
proof (induction js arbitrary: st)
  case (Cons j js)
  obtain ok st1 where c: "dsCancel now (pjId j) why st = (ok, st1)" by force
  have c': "sqlCancel (pjId j) (dsRows st) = (ok, dsRows st1)"
    using ds_rows(10,11) [of now "pjId j" why st] c by (simp add: prod_eq_iff)
  obtain r where r: "rowById (pjId j) (dsRows st) = Some r" "active r" using Cons.prems(3) by auto
  have ok: "ok" using sqlCancel_facts(2) [OF Cons.prems(1) c'] r by (auto simp: sqlStatus_def active_def)
  have rows: "rowById k (dsRows st1) =
      (if k = pjId j then map_option (\<lambda>r. r\<lparr>cStatus := Cancelled\<rparr>) (rowById k (dsRows st))
       else rowById k (dsRows st))" for k
    using sqlCancel_row [of k "pjId j" "dsRows st"] c' r rowById_SomeD [of k "dsRows st"]
    by (cases "rowById k (dsRows st)") auto
  have "goodTable (dsRows st1)" using sqlCancel_facts(1) [OF Cons.prems(1) c'] .
  moreover have "\<forall>j' \<in> set js. \<exists>r. rowById (pjId j') (dsRows st1) = Some r \<and> active r"
  proof
    fix j' assume j': "j' \<in> set js"
    then have "pjId j' \<in> pjId ` set js" by simp
    then have "pjId j' \<noteq> pjId j" using Cons.prems(2) by auto
    then show "\<exists>r. rowById (pjId j') (dsRows st1) = Some r \<and> active r"
      using Cons.prems(3) j' rows [of "pjId j'"] by simp
  qed
  ultimately have IH: "fst (cancelAll now why js st1) = length js \<and>
     rowById k (dsRows (snd (cancelAll now why js st1))) =
       (if k \<in> pjId ` set js then map_option (\<lambda>r. r\<lparr>cStatus := Cancelled\<rparr>) (rowById k (dsRows st1))
        else rowById k (dsRows st1))"
    using Cons.IH [of st1] Cons.prems(2) by simp
  moreover have "k = pjId j \<longrightarrow> k \<notin> pjId ` set js" using Cons.prems(2) by auto
  ultimately show ?case using c ok rows [of k]
    by (cases "cancelAll now why js st1") (auto simp: map_option.compositionality comp_def)
qed simp

lemma distinct_byCreation: "distinct (map cId xs) \<Longrightarrow> distinct (map cId (byCreation xs))"
  by (simp add: distinct_map byCreation_def)

lemma listActive_rows:
  "goodTable t \<Longrightarrow> distinct (map pjId (sqlListActive tenant t)) \<and>
     (k \<in> pjId ` set (sqlListActive tenant t) \<longleftrightarrow>
        (\<exists>r. rowById k t = Some r \<and> cTenant r = tenant \<and> active r))"
proof -
  assume g: "goodTable t"
  have "map pjId (sqlListActive tenant t) =
      map cId (byCreation (filter (\<lambda>r. cTenant r = tenant \<and> active r) t))"
    by (simp add: sqlListActive_def comp_def)
  moreover have "distinct (map cId (byCreation (filter P t)))" for P
    by (rule distinct_byCreation [OF distinct_map_filter [OF goodTable_distinct [OF g]]])
  moreover have "k \<in> pjId ` set (sqlListActive tenant t) \<longleftrightarrow>
      (\<exists>r \<in> set t. cId r = k \<and> cTenant r = tenant \<and> active r)"
    by (force simp: sqlListActive_def byCreation_def)
  moreover have "(\<exists>r \<in> set t. cId r = k \<and> P r) \<longleftrightarrow> (\<exists>r. rowById k t = Some r \<and> P r)" for P
  proof
    assume "\<exists>r \<in> set t. cId r = k \<and> P r"
    then obtain r where "r \<in> set t" "cId r = k" "P r" by auto
    then show "\<exists>r. rowById k t = Some r \<and> P r"
      using rowById_in [OF goodTable_distinct [OF g], of r] by auto
  next
    assume "\<exists>r. rowById k t = Some r \<and> P r"
    then obtain r where "rowById k t = Some r" "P r" by auto
    then show "\<exists>r \<in> set t. cId r = k \<and> P r" using rowById_SomeD [of k t r] by auto
  qed
  ultimately show ?thesis by simp
qed

text \<open>
  C19. Cancelling a tenant reaches every active job of that tenant: afterwards none of its jobs is
  queued or leased, none is in the ready set, jobs of other tenants keep their status, and the
  count returned is the number of jobs that were active.
\<close>

theorem cancelByTenant_complete:
  assumes "dsGood (sStore (scSys s))" "schedCancelByTenant now tenant why s = (n, s')"
  shows "rowById k (dsRows (sStore (scSys s'))) =
      map_option (\<lambda>r. if cTenant r = tenant \<and> active r then r\<lparr>cStatus := Cancelled\<rparr> else r)
        (rowById k (dsRows (sStore (scSys s)))) \<and>
    map_of (dReady (sDisp (scSys s'))) tenant = None \<and>
    n = length (filter (\<lambda>r. cTenant r = tenant \<and> active r) (dsRows (sStore (scSys s))))"
proof -
  let ?t = "dsRows (sStore (scSys s))" and ?js = "dsListActiveByTenant tenant (sStore (scSys s))"
  obtain n' st where c: "cancelAll now why ?js (sStore (scSys s)) = (n', st)" by force
  have s': "n' = n" "sStore (scSys s') = st" "map_of (dReady (sDisp (scSys s'))) tenant = None"
    using assms(2) c by (auto simp: schedCancelByTenant_def Let_def getDispatcher_def clearTenant_def removeTenant_def)
  have L: "distinct (map pjId ?js)" "\<And>k. k \<in> pjId ` set ?js \<longleftrightarrow>
      (\<exists>r. rowById k ?t = Some r \<and> cTenant r = tenant \<and> active r)"
    using listActive_rows [OF assms(1)] by (simp_all add: dsListActiveByTenant_def)
  have "\<forall>j \<in> set ?js. \<exists>r. rowById (pjId j) ?t = Some r \<and> active r" using L(2) by blast
  from cancelAll_rows [OF assms(1) L(1) this, of now why k] c
  have "n' = length ?js" "rowById k (dsRows st) =
       (if k \<in> pjId ` set ?js then map_option (\<lambda>r. r\<lparr>cStatus := Cancelled\<rparr>) (rowById k ?t) else rowById k ?t)"
    by auto
  moreover have "length ?js = length (filter (\<lambda>r. cTenant r = tenant \<and> active r) ?t)"
    by (simp add: dsListActiveByTenant_def sqlListActive_def byCreation_def)
  ultimately show ?thesis using s' L(2) [of k] by (cases "rowById k ?t") auto
qed

theorem cancelByTenant_complete_witness:
  "fst (schedCancelByTenant 9 ''t'' None (newScheduler (fold (callStore doStorage)
     [CEnqueue 5 (sampleJob ''j'' ''t''), CEnqueue 6 (sampleJob ''k'' ''u''), CEnqueue 7 (sampleJob ''l'' ''t'')]
     emptyDoStore))) = 2"
  (is "fst (schedCancelByTenant _ _ _ (newScheduler ?st)) = 2")
proof -
  obtain n s' where c: "schedCancelByTenant 9 ''t'' None (newScheduler ?st) = (n, s')" by force
  have "dsGood ?st" by (rule dsGood_run [OF dsGood_empty])
  moreover have "sStore (scSys (newScheduler st)) = st" for st
    by (simp add: newScheduler_def initialSys_def)
  ultimately have g: "dsGood (sStore (scSys (newScheduler ?st)))" by metis
  have "length (filter (\<lambda>r. cTenant r = ''t'' \<and> active r) (dsRows (sStore (scSys (newScheduler ?st))))) = 2"
    by code_simp
  then show ?thesis using cancelByTenant_complete [OF g c] c by simp
qed

text \<open>
  \<open>configure\<close> reports the settings that will be in force only once the dispatcher exists: before
  that it answers with the defaults and the latest call, although the dispatcher is later built from
  all calls.
\<close>

theorem configure_effective:
  "(if scBuilt s
    then fst (schedConfigure c s) = dConfig (sDisp (scSys (snd (schedConfigure c s))))
    else fst (schedConfigure c s) = mergeConfig DEFAULT_DISPATCHER_CONFIG c \<and>
         dConfig (sDisp (scSys (getDispatcher (snd (schedConfigure c s))))) =
           mergeConfig (mergeConfig DEFAULT_DISPATCHER_CONFIG (scOverrides s)) c)"
  by (simp add: schedConfigure_def Let_def getDispatcher_def newDispatcher_def mergeConfig_assoc)

definition noExpiredLease :: "int \<Rightarrow> table \<Rightarrow> bool" where
  "noExpiredLease now t \<longleftrightarrow> (\<forall>r \<in> set t. \<not> (cStatus r = Leased \<and> leaseExpired now r))"

lemma takeLoop_config: "dConfig (snd (takeLoop i d)) = dConfig d"
proof (induction i d rule: takeLoop.induct)
  case (1 i d)
  have R: "dConfig (removeTenant t d1) = dConfig d1" "dConfig (setBucket t q d1) = dConfig d1" for t q d1
    by (simp_all add: setBucket_def removeTenant_def)
  show ?case
    by (subst takeLoop.simps) (auto simp: 1 R Let_def split: list.splits)
qed

lemma takeNextReady_config: "dConfig (snd (takeNextReady d)) = dConfig d"
  by (simp add: takeNextReady_def takeLoop_config)

lemma noExpired_reclaim: "noExpiredLease now (snd (sqlReclaim now t))"
  by (auto simp: noExpiredLease_def sqlReclaim_def Let_def updateWhere_def)

lemma noExpired_claimRows:
  "noExpiredLease now t \<Longrightarrow> 0 \<le> crLeaseMs req \<Longrightarrow> noExpiredLease now (snd (claimRows now req rows t))"
proof (induction now req rows t rule: claimRows.induct)
  case (2 now req row rows t)
  have "noExpiredLease now (updateWhere P (leaseTo now req) t)" for P
    using 2(3,4) by (auto simp: noExpiredLease_def updateWhere_def leaseTo_def leaseExpired_def)
  then show ?case using 2 by (auto simp: Let_def split: prod.splits)
qed simp

lemma rebuildNow_frame [simp]:
  "sStore (rebuildNow y) = sStore y" "dConfig (sDisp (rebuildNow y)) = dConfig (sDisp y)"
proof -
  have "sStore (fold addReady js y) = sStore y \<and> dConfig (sDisp (fold addReady js y)) = dConfig (sDisp y)"
    for js and y :: "DoStore Sys"
    by (induction js arbitrary: y) (auto simp: addReady_def enqueueReady_def Let_def split: option.splits)
  then show "sStore (rebuildNow y) = sStore y" "dConfig (sDisp (rebuildNow y)) = dConfig (sDisp y)"
    by (simp_all add: rebuildNow_def)
qed

lemma noExpired_kick:
  assumes "noExpiredLease now (dsRows (sStore y))" "0 \<le> dcLeaseMs (dConfig (sDisp y))"
  shows "noExpiredLease now (dsRows (sStore (kick doStorage owner now y)))"
proof -
  have F: "noExpiredLease now (dsRows (snd (dsFailQueued now i e st)))"
    if "noExpiredLease now (dsRows st)" for i e st
    using that by (auto simp: noExpiredLease_def ds_rows sqlFailQueued_def Let_def updateWhere_def)
  have C: "noExpiredLease now (dsRows (snd (dsClaim now (claimById owner d i) st)))"
    if "noExpiredLease now (dsRows st)" "dConfig d = dConfig (sDisp y)" for d i st
    using noExpired_claimRows that assms(2) by (simp add: ds_rows sqlClaim_def claimById_def)
  have T: "dConfig d' = dConfig d" if "takeNextReady d = (x, d')" for x d d'
    using takeNextReady_config [of d] that by simp
  show ?thesis
  proof (cases "dLoopRunning (sDisp y) \<or> \<not> loopGuard (sDisp y\<lparr>dLoopRunning := True\<rparr>)")
    case True
    then show ?thesis using assms(1) by (auto simp: kick_def loopHead_def exitLoop_def)
  next
    case False
    obtain x d where t: "takeNextReady (sDisp y\<lparr>dLoopRunning := True\<rparr>) = (x, d)" by force
    then have d: "dConfig d = dConfig (sDisp y)" using T by fastforce
    show ?thesis
    proof (cases x)
      case None
      then show ?thesis using False t assms(1) by (simp add: kick_def loopHead_def exitLoop_def)
    next
      case (Some job)
      then show ?thesis using False t F [OF assms(1)] C [OF assms(1) d] assms(1)
        by (simp add: kick_def loopHead_def exitLoop_def doStorage_def case_prod_unfold
            split: option.splits)
    qed
  qed
qed

text \<open>
  The alarm restores leases: after it no leased row of the store has a lease that had run out,
  whatever the dispatch loop claims on the way, and the next alarm is 5 seconds away while any job is
  ready or running and 60 seconds away otherwise.
\<close>

theorem alarm_sweeps:
  assumes "0 \<le> dcLeaseMs (dConfig (sDisp (scSys (getDispatcher (ensureInit s)))))"
  shows "(let s' = schedAlarm owner now s; y = scSys s' in
    (\<forall>r \<in> set (dsRows (sStore y)). cStatus r = Leased \<longrightarrow> \<not> leaseExpired now r) \<and>
    scAlarm s' = Some (now + (if 0 < totalReady (sDisp y) + runningCount (sDisp y) then 5000 else 60000)))"
proof -
  obtain n st1 where R: "dsReclaimExpiredLeases now (sStore (scSys (getDispatcher (ensureInit s)))) = (n, st1)"
    by force
  then have "noExpiredLease now (dsRows st1)"
    using noExpired_reclaim ds_rows(13) [of now "sStore (scSys (getDispatcher (ensureInit s)))"] by auto
  then have "noExpiredLease now (dsRows (snd (dsSweepExpired now st1)))"
    by (auto simp: noExpiredLease_def ds_rows sqlSweep_def)
  then have "noExpiredLease now (dsRows (sStore (scSys (schedAlarm owner now s))))"
    unfolding schedAlarm_def Let_def R prod.case
    by (auto intro!: noExpired_kick simp: assms)
  then show ?thesis
    by (simp add: noExpiredLease_def schedAlarm_def Let_def ALARM_SWEEP_MS_def IDLE_ALARM_MS_def split: prod.splits)
qed

theorem alarm_sweeps_witness:
  "noExpiredLease 90000 (dsRows (sStore (scSys (schedAlarm ''o'' 90000 (newScheduler (fold (callStore doStorage)
     [CEnqueue 5 (sampleJob ''j'' ''t''), CClaim 10 sampleClaim] emptyDoStore))))))"
proof -
  have "dConfig (sDisp (scSys (getDispatcher (ensureInit (newScheduler st))))) = DEFAULT_DISPATCHER_CONFIG" for st
    by (simp add: ensureInit_def newScheduler_def getDispatcher_def newDispatcher_def mergeConfig_def
        noConfig_def DEFAULT_DISPATCHER_CONFIG_def nullish_def Let_def)
  then show ?thesis using alarm_sweeps [of "newScheduler _" "''o''" 90000]
    by (simp add: DEFAULT_DISPATCHER_CONFIG_def Let_def noExpiredLease_def)
qed

end
