(* ===== verification/SchedulerClient.thy ===== *)
theory SchedulerClient
  imports SchedulerDO SerializeFn Observability
begin

text \<open>
  The public scheduler (\<open>src/api/scheduler.ts\<close>) on top of the scheduler Durable Object: the checks of
  the constructor, the initial configuration, \<open>enqueue\<close>, and the handle of a job; and how the object runs
  a claimed job (\<open>#runJob\<close> of \<open>src/scheduler/scheduler-do.ts\<close>).

  A client call changes the client and the object. \<open>net\<close> is what the RPC itself throws, if the call
  does not reach the object. The context and the arguments of a job are JSON values: they are stored as
  JSON text.
\<close>

section \<open>Construction\<close>

record SchedulerOptions =
  soId :: string
  soStore :: "string option"
  soHasFairness :: bool
  soHasAlarmCadence :: bool
  soShared :: ClientOptions
  soContext :: "jsval option"
  soRetry :: "RetryPolicy option"
  soDefaultDeadlineMs :: "int option"
  soRetentionTtlMs :: "int option"
  soInFlightLimit :: "nat option"
  soMaxQueueDepth :: "nat option option"
  soFairCapacityPerTenant :: "nat option"
  soLocationHint :: "string option"
  soRequestColo :: "string option"

record SchedulerEnv =
  snLoader :: bool
  snSchedulerDO :: bool

text \<open>\<open>shFlight\<close>: the promise of the first configuration, by what it settled with (\<open>Some\<close> an error).\<close>

record SchedulerHandle =
  shOpts :: SchedulerOptions
  shLocationHint :: "string option"
  shFlight :: "thrown option option"

definition newSchedulerHandle :: "SchedulerEnv \<Rightarrow> SchedulerOptions \<Rightarrow> ParallelError + SchedulerHandle" where
  \<open>newSchedulerHandle env opts =
     (if \<not> snLoader env then Inl (BindingError ''Parallel.scheduler() requires a Worker Loader binding.'' None)
      else if \<not> snSchedulerDO env then Inl (MissingBindingError ''CfpSchedulerDO'' None)
      else if soId opts = [] then Inl (BindingError ''Parallel.scheduler() requires `opts.id`'' None)
      else if nullish (soStore opts) [] \<noteq> [] \<and> soStore opts \<noteq> Some ''do-storage'' then
        Inl (BindingError (''Parallel.scheduler() currently uses the SchedulerDO SQLite store. '' @
          ''`store: "d1"`, `store: "queues"`, and custom JobStore instances are lower-level '' @
          ''adapters and are not selectable through the public Scheduler constructor.'') None)
      else if soHasFairness opts then
        Inl (BindingError (''Parallel.scheduler() does not support `fairness.keyFrom` in the public constructor. '' @
          ''Set `job.tenantId` on enqueue and use `fairCapacityPerTenant` for per-tenant limits.'') None)
      else if soHasAlarmCadence opts then
        Inl (BindingError (''Parallel.scheduler() does not currently expose alarm cadence tuning; '' @
          ''the SchedulerDO uses built-in active/idle alarm intervals.'') None)
      else Inr \<lparr>shOpts = opts,
                shLocationHint = (if soLocationHint opts = None then locationHintForColo (soRequestColo opts)
                                  else soLocationHint opts),
                shFlight = None\<rparr>)\<close>

definition schedulerStub :: "bool \<Rightarrow> SchedulerHandle \<Rightarrow> DOStub" where
  "schedulerStub hasGetByName h = getStub hasGetByName (soId (shOpts h)) (shLocationHint h)"

section \<open>The initial configuration\<close>

definition initialConfig :: "SchedulerOptions \<Rightarrow> PartialConfig option" where
  "initialConfig opts =
     (let cfg = \<lparr>pcInFlightLimit = soInFlightLimit opts, pcMaxQueueDepth = soMaxQueueDepth opts,
                 pcResultTtlMs = soRetentionTtlMs opts, pcFairCapacity = soFairCapacityPerTenant opts,
                 pcLeaseMs = None\<rparr>
      in if cfg = noConfig then None else Some cfg)"

text \<open>What the caller is left with: an error or nothing, and the client and the object.\<close>

definition ensureInitialConfig :: "thrown option \<Rightarrow> SchedulerHandle \<times> Scheduler \<Rightarrow>
    thrown option \<times> SchedulerHandle \<times> Scheduler" where
  "ensureInitialConfig net c =
     (case c of (h, s) \<Rightarrow>
        (case initialConfig (shOpts h) of
           None \<Rightarrow> (None, h, s)
         | Some cfg \<Rightarrow>
             (case shFlight h of
                Some settled \<Rightarrow> (settled, h, s)
              | None \<Rightarrow>
                  (case net of
                     Some e \<Rightarrow> (Some e, h\<lparr>shFlight := Some (Some e)\<rparr>, s)
                   | None \<Rightarrow> (None, h\<lparr>shFlight := Some None\<rparr>, snd (schedConfigure cfg s))))))"

text \<open>A call that is made once the initial configuration is in place.\<close>

definition afterConfig :: "thrown option \<Rightarrow> SchedulerHandle \<times> Scheduler \<Rightarrow>
    (SchedulerHandle \<times> Scheduler \<Rightarrow> (thrown + 'a) \<times> SchedulerHandle \<times> Scheduler) \<Rightarrow>
    (thrown + 'a) \<times> SchedulerHandle \<times> Scheduler" where
  "afterConfig net c call =
     (case ensureInitialConfig net c of
        (Some e, c1) \<Rightarrow> (Inl e, c1)
      | (None, c1) \<Rightarrow> call c1)"

definition clientConfigure :: "thrown option \<Rightarrow> thrown option \<Rightarrow> PartialConfig \<Rightarrow> SchedulerHandle \<times> Scheduler \<Rightarrow>
    (thrown + DispatcherConfig) \<times> SchedulerHandle \<times> Scheduler" where
  "clientConfigure net0 net cfg c =
     afterConfig net0 c (\<lambda>(h, s).
       case net of
         Some e \<Rightarrow> (Inl e, h, s)
       | None \<Rightarrow> (case schedConfigure cfg s of (effective, s1) \<Rightarrow> (Inr effective, h, s1)))"

definition clientCancelByTenant :: "thrown option \<Rightarrow> int \<Rightarrow> string \<Rightarrow> string option \<Rightarrow> SchedulerHandle \<times> Scheduler \<Rightarrow>
    (thrown + nat) \<times> SchedulerHandle \<times> Scheduler" where
  "clientCancelByTenant net now tenant reason c =
     (case c of (h, s) \<Rightarrow>
        (case net of
           Some e \<Rightarrow> (Inl e, h, s)
         | None \<Rightarrow> (case schedCancelByTenant now tenant reason s of (n, s1) \<Rightarrow> (Inr n, h, s1))))"

text \<open>The fields of the public stats that are no constants; a field that is missing reads as \<open>None\<close>.\<close>

record SchedulerStats =
  stInFlight :: "int option option"
  stQueued :: "int option option"
  stCompleted :: "int option option"
  stFailed :: "int option option"
  stCancelled :: "int option option"
  stOldestQueuedAgeMs :: "int option option"
  stResultRetentionTtlMs :: int

definition clientStats :: "thrown option \<Rightarrow> thrown option \<Rightarrow> int \<Rightarrow> SchedulerHandle \<times> Scheduler \<Rightarrow>
    (thrown + SchedulerStats) \<times> SchedulerHandle \<times> Scheduler" where
  "clientStats net0 net now c =
     afterConfig net0 c (\<lambda>(h, s).
       case net of
         Some e \<Rightarrow> (Inl e, h, s)
       | None \<Rightarrow>
           let obj = schedStats now s
           in (Inr \<lparr>stInFlight = statsInFlight obj, stQueued = map_of obj ''queued'',
                    stCompleted = map_of obj ''done'', stFailed = map_of obj ''failed'',
                    stCancelled = map_of obj ''cancelled'', stOldestQueuedAgeMs = map_of obj ''oldestQueuedAgeMs'',
                    stResultRetentionTtlMs = nullish (soRetentionTtlMs (shOpts h)) DEFAULT_RESULT_TTL\<rparr>, h, s))"

section \<open>Worker options as JSON\<close>

definition optField :: "('a \<Rightarrow> jsval) \<Rightarrow> 'a option \<Rightarrow> jsval" where
  "optField f x = (case x of None \<Rightarrow> JUndef | Some y \<Rightarrow> f y)"

definition wireJs :: "WireWorkerOptions \<Rightarrow> jsval" where
  "wireJs w =
     JObj [(''compatibilityDate'', optField JStr (wwCompatibilityDate w)),
           (''compatibilityFlags'', optField (JArr \<circ> map JStr) (wwCompatibilityFlags w)),
           (''globalOutbound'', optField (\<lambda>x. JStr (case x of Inherit \<Rightarrow> ''inherit'' | Sandboxed \<Rightarrow> ''sandboxed'')) (wwGlobalOutbound w)),
           (''limits'', optField (\<lambda>(cpu, sub). JObj [(''cpuMs'', optField JNum cpu), (''subRequests'', optField JNum sub)]) (wwLimits w)),
           (''tailBindingName'', optField JStr (wwTailBindingName w))]"

fun field :: "string \<Rightarrow> jsval \<Rightarrow> jsval" where
  "field k (JObj fs) = nullish (map_of fs k) JUndef"
| "field k _ = JUndef"

fun asStr :: "jsval \<Rightarrow> string option" where
  "asStr (JStr s) = Some s"
| "asStr _ = None"

fun asNum :: "jsval \<Rightarrow> int option" where
  "asNum (JNum i) = Some i"
| "asNum _ = None"

fun asStrs :: "jsval \<Rightarrow> string list option" where
  "asStrs (JArr vs) = Some (List.map_filter asStr vs)"
| "asStrs _ = None"

definition wireOfJs :: "jsval \<Rightarrow> WireWorkerOptions" where
  "wireOfJs v =
     \<lparr>wwCompatibilityDate = asStr (field ''compatibilityDate'' v),
      wwCompatibilityFlags = asStrs (field ''compatibilityFlags'' v),
      wwGlobalOutbound = (case asStr (field ''globalOutbound'' v) of
          None \<Rightarrow> None
        | Some s \<Rightarrow> if s = ''sandboxed'' then Some Sandboxed else if s = ''inherit'' then Some Inherit else None),
      wwLimits = (case field ''limits'' v of
          JObj fs \<Rightarrow> Some (asNum (field ''cpuMs'' (JObj fs)), asNum (field ''subRequests'' (JObj fs))) | _ \<Rightarrow> None),
      wwTailBindingName = asStr (field ''tailBindingName'' v)\<rparr>"

section \<open>Enqueue\<close>

record Job =
  jbFn :: callee
  jbArgs :: "jsval list"
  jbTenantId :: "string option"
  jbDeadlineMs :: "int option"
  jbDeadline :: "int option"
  jbRetry :: "RetryPolicy option"
  jbIdempotencyKey :: "string option"
  jbMeta :: "(string \<times> string) list option"

definition DEFAULT_RETRY :: RetryPolicy where
  "DEFAULT_RETRY = \<lparr>rpMax = 3, rpBackoff = Exponential, rpBaseMs = 200\<rparr>"

text \<open>\<open>rnd\<close> is the random suffix of the id.\<close>

definition jobId :: "string \<Rightarrow> string \<Rightarrow> string" where
  "jobId fnSource rnd = ''j-'' @ hashSource fnSource @ ''-'' @ rnd"

definition enqueueRequest :: "SchedulerOptions \<Rightarrow> Job \<Rightarrow> string \<Rightarrow> string \<Rightarrow> int \<Rightarrow> SchedulerEnqueueRequest" where
  "enqueueRequest opts job fnSource rnd now =
     \<lparr>sqId = jobId fnSource rnd, sqTenant = nullish (jbTenantId job) ''default'',
      sqFnSource = fnSource, sqFnHash = hashSource fnSource, sqArgs = jbArgs job, sqContext = soContext opts,
      sqDeadline = jobDeadline now (jbDeadline job) (jbDeadlineMs job) (soDefaultDeadlineMs opts),
      sqRetry = nullish (jbRetry job) (nullish (soRetry opts) DEFAULT_RETRY),
      sqMeta = jbMeta job, sqIdempotencyKey = jbIdempotencyKey job,
      sqWorkerOptions = map_option wireJs (workerOptionsToWire (Some (clientWorkerOptions (soShared opts)))),
      sqAllowList = bindingAllowList (coBindings (soShared opts)),
      sqCacheKeyStrategy = Some (nullish (coCacheKeyStrategy (soShared opts)) Stable)\<rparr>"

text \<open>A handle of a job: its id and its deadline, and what \<open>result\<close> reads of the options.\<close>

record JobHandle =
  hdId :: string
  hdDeadline :: int
  hdTtlMs :: "int option"

definition schedulerNote :: "int \<Rightarrow> string \<Rightarrow> EventKind \<Rightarrow> string option \<Rightarrow> ObservabilityEvent" where
  "schedulerNote ts i kind detail = SchedulerNote \<lparr>seTs = ts, seJobId = i, seKind = kind, seDetail = detail\<rparr>"

definition clientEnqueue :: "thrown option \<Rightarrow> thrown option \<Rightarrow> string \<Rightarrow> int \<Rightarrow> string \<Rightarrow> Job \<Rightarrow> SchedulerHandle \<times> Scheduler \<Rightarrow>
    (thrown + JobHandle \<times> ObservabilityEvent) \<times> SchedulerHandle \<times> Scheduler" where
  "clientEnqueue net0 net owner now rnd job c =
     afterConfig net0 c (\<lambda>(h, s).
       case serializeFunction (jbFn job) of
         Inl e \<Rightarrow> (Inl (Lib e), h, s)
       | Inr fnSource \<Rightarrow>
           (case net of
              Some e \<Rightarrow> (Inl e, h, s)
            | None \<Rightarrow>
                let req = enqueueRequest (shOpts h) job fnSource rnd now in
                (case schedEnqueue owner now req s of
                   (Inl e, s1) \<Rightarrow> (Inl e, h, s1)
                 | (Inr r, s1) \<Rightarrow>
                     (Inr (\<lparr>hdId = sqId req, hdDeadline = sqDeadline req, hdTtlMs = soRetentionTtlMs (shOpts h)\<rparr>,
                           schedulerNote now (sqId req) EvEnqueued None), h, s1))))"

section \<open>The handle\<close>

definition DEFAULT_POLL_INTERVAL_MS :: int where "DEFAULT_POLL_INTERVAL_MS = 250"

text \<open>\<open>jitter\<close>: \<open>rnd\<close> is \<open>Math.random()\<close>.\<close>

definition pollJitter :: "int \<Rightarrow> rat \<Rightarrow> rat" where
  "pollJitter ms rnd = of_int ms * (3 / 4 + rnd * (1 / 2))"

definition pollEvents :: "int \<Rightarrow> string \<Rightarrow> JobResult \<Rightarrow> ObservabilityEvent list" where
  "pollEvents now i r =
     (case jrStatus r of
        JobStatus.Done \<Rightarrow> [schedulerNote now i EvDone None]
      | Cancelled \<Rightarrow> [schedulerNote now i EvCancelled None]
      | Failed \<Rightarrow> [schedulerNote now i EvFailed (Some (case jrError r of None \<Rightarrow> ''job failed'' | Some e \<Rightarrow> frMessage e))]
      | _ \<Rightarrow> [])"

text \<open>
  The loop of \<open>result\<close> over the answers it gets, each with the time of its round; an answer is what the
  RPC throws or the result of the object. \<open>None\<close>: it still polls after the last one.
\<close>

fun resultLoop :: "int \<Rightarrow> string \<Rightarrow> (int \<times> (thrown + JobResult)) list \<Rightarrow>
    (thrown + jsval option) option \<times> ObservabilityEvent list" where
  "resultLoop giveUp i [] = (None, [])"
| "resultLoop giveUp i ((now, answer) # polls) =
     (if giveUp < now then (Some (Inl (Lib (ResultExpiredError i None))), [])
      else case answer of
        Inl e \<Rightarrow> (Some (Inl e), [])
      | Inr r \<Rightarrow>
          (case pollRound now giveUp i r of
             Resolve v \<Rightarrow> (Some (Inr v), pollEvents now i r)
           | Reject e \<Rightarrow> (Some (Inl (Lib e)), pollEvents now i r)
           | PollAgain \<Rightarrow> resultLoop giveUp i polls))"

definition handleResult :: "int \<Rightarrow> JobHandle \<Rightarrow> (int \<times> (thrown + JobResult)) list \<Rightarrow>
    (thrown + jsval option) option \<times> ObservabilityEvent list" where
  "handleResult now jh polls = resultLoop (giveUpAfter now (hdDeadline jh) (hdTtlMs jh)) (hdId jh) polls"

definition handleCancel :: "int \<Rightarrow> string option \<Rightarrow> JobHandle \<Rightarrow> Scheduler \<Rightarrow> ObservabilityEvent \<times> Scheduler" where
  "handleCancel now reason jh s =
     (schedulerNote now (hdId jh) EvCancelled reason, snd (schedCancel now (hdId jh) reason s))"

section \<open>Running a claimed job\<close>

text \<open>A JSON value as an argument; every object and array is a new one.\<close>

fun argOf :: "nat \<Rightarrow> jsval \<Rightarrow> nat \<times> rval"
  and argsOf :: "nat \<Rightarrow> jsval list \<Rightarrow> nat \<times> rval list"
  and argFields :: "nat \<Rightarrow> (string \<times> jsval) list \<Rightarrow> nat \<times> (string \<times> rval) list" where
  "argOf n JUndef = (n, RUndef)"
| "argOf n JNull = (n, RNull)"
| "argOf n (JBool b) = (n, RBool b)"
| "argOf n (JNum i) = (n, RNumber i)"
| "argOf n (JStr s) = (n, RString s)"
| "argOf n (JArr vs) = (case argsOf (Suc n) vs of (m, rs) \<Rightarrow> (m, RArray n rs))"
| "argOf n (JObj fs) = (case argFields (Suc n) fs of (m, rs) \<Rightarrow> (m, RObject n ''Object'' rs))"
| "argsOf n [] = (n, [])"
| "argsOf n (v # vs) = (case argOf n v of (m, r) \<Rightarrow> case argsOf m vs of (m', rs) \<Rightarrow> (m', r # rs))"
| "argFields n [] = (n, [])"
| "argFields n ((k, v) # fs) = (case argOf n v of (m, r) \<Rightarrow> case argFields m fs of (m', rs) \<Rightarrow> (m', (k, r) # rs))"

text \<open>The same for a context.\<close>

fun ctxOf :: "nat \<Rightarrow> jsval \<Rightarrow> nat \<times> ctxval"
  and ctxsOf :: "nat \<Rightarrow> jsval list \<Rightarrow> nat \<times> ctxval list"
  and ctxFields :: "nat \<Rightarrow> (string \<times> jsval) list \<Rightarrow> nat \<times> (string \<times> ctxval) list" where
  "ctxOf n JUndef = (n, CUndef)"
| "ctxOf n JNull = (n, CNull)"
| "ctxOf n (JBool b) = (n, CBool b)"
| "ctxOf n (JNum i) = (n, CNum i)"
| "ctxOf n (JStr s) = (n, CStr s)"
| "ctxOf n (JArr vs) = (case ctxsOf (Suc n) vs of (m, rs) \<Rightarrow> (m, CArr n rs))"
| "ctxOf n (JObj fs) = (case ctxFields (Suc n) fs of (m, rs) \<Rightarrow> (m, CObj n rs))"
| "ctxsOf n [] = (n, [])"
| "ctxsOf n (v # vs) = (case ctxOf n v of (m, r) \<Rightarrow> case ctxsOf m vs of (m', rs) \<Rightarrow> (m', r # rs))"
| "ctxFields n [] = (n, [])"
| "ctxFields n ((k, v) # fs) = (case ctxOf n v of (m, r) \<Rightarrow> case ctxFields m fs of (m', rs) \<Rightarrow> (m', (k, r) # rs))"

definition jobContext :: "jsval option \<Rightarrow> jscontext option" where
  "jobContext ctx = (case ctx of Some (JObj fs) \<Rightarrow> Some (0, snd (ctxFields 1 fs)) | _ \<Rightarrow> None)"

definition jobRunner :: "jsenv \<Rightarrow> PersistedJob \<Rightarrow> RunnerOptions" where
  "jobRunner env job =
     \<lparr>roCallSite = DoMethod, roCacheKeyStrategy = nullish (pjCacheKeyStrategy job) Stable,
      roWorkerOptions = wireToWorkerOptions (map_option wireOfJs (pjWorkerOptions job)) (Some env),
      roAllowList = pjAllowList job\<rparr>"

definition jobInput :: "jsenv \<Rightarrow> PersistedJob \<Rightarrow> RunOneInput" where
  "jobInput env job =
     \<lparr>riFnSource = pjFnSource job, riFnHash = pjFnHash job, riContext = jobContext (pjContext job),
      riBindings = Some env,
      riEnvelope = \<lparr>reDeadlineEpochMs = pjDeadline job, reCancelTokenId = None, reMode = PoolFn,
                    reSignal = (False, None)\<rparr>,
      riArgs = snd (argsOf 0 (pjArgs job)), riFreshIsolate = False, riTaskSlot = None, riCancelStream = None,
      riState = None\<rparr>"

definition runJob :: "loadFn \<Rightarrow> string option \<Rightarrow> int \<Rightarrow> jsenv \<Rightarrow> PersistedJob \<Rightarrow> nat \<Rightarrow> (ParallelError + rval) \<times> nat" where
  "runJob load cpuPattern now env job counter =
     runWithMode load cpuPattern now (jobRunner env job) (jobInput env job) PoolFn counter"

section \<open>The initial configuration is sent once, and its failure is final\<close>

lemma ensureInitialConfig_flight:
  assumes "ensureInitialConfig net (h, s) = (r, h1, s1)" "initialConfig (shOpts h) \<noteq> None"
  shows "shFlight h1 = Some r" "shOpts h1 = shOpts h" "ensureInitialConfig net' (h1, s2) = (r, h1, s2)"
  using assms by (auto simp: ensureInitialConfig_def split: option.splits)

text \<open>
  After an RPC of the initial configuration has failed, every call of the handle that needs it is
  rejected with that error, whatever the network does, and without reaching the object.
\<close>

lemma failed_configuration_sticks:
  assumes "ensureInitialConfig net (h, s) = (Some e, h1, s1)"
  shows "clientEnqueue n0 n owner now rnd job (h1, s2) = (Inl e, h1, s2) \<and>
    clientConfigure n0 n cfg (h1, s2) = (Inl e, h1, s2) \<and> clientStats n0 n now (h1, s2) = (Inl e, h1, s2)"
proof -
  have "initialConfig (shOpts h) \<noteq> None" using assms by (cases "initialConfig (shOpts h)") (auto simp: ensureInitialConfig_def)
  from ensureInitialConfig_flight(3) [OF assms this]
  show ?thesis by (simp add: clientEnqueue_def clientConfigure_def clientStats_def afterConfig_def)
qed

lemma failed_configuration_sticks_witness:
  "\<exists>h1. shFlight h1 = Some (Some (NonError ''net'')) \<and> fst (clientStats None None 7 (h1, newScheduler emptyDoStore)) = Inl (NonError ''net'')"
proof -
  let ?o = "\<lparr>soId = ''q'', soStore = None, soHasFairness = False, soHasAlarmCadence = False, soShared = sampleClient,
    soContext = None, soRetry = None, soDefaultDeadlineMs = None, soRetentionTtlMs = None, soInFlightLimit = Some 8,
    soMaxQueueDepth = None, soFairCapacityPerTenant = None, soLocationHint = None, soRequestColo = None\<rparr>"
  let ?h = "\<lparr>shOpts = ?o, shLocationHint = None, shFlight = None\<rparr>"
  have "ensureInitialConfig (Some (NonError ''net'')) (?h, newScheduler emptyDoStore) =
      (Some (NonError ''net''), ?h\<lparr>shFlight := Some (Some (NonError ''net''))\<rparr>, newScheduler emptyDoStore)"
    by (simp add: ensureInitialConfig_def initialConfig_def noConfig_def)
  from failed_configuration_sticks [OF this, of None None "''o''" 7 "[]" _ "newScheduler emptyDoStore" noConfig]
  show ?thesis by (intro exI [of _ "?h\<lparr>shFlight := Some (Some (NonError ''net''))\<rparr>"]) simp
qed

section \<open>Polling\<close>

text \<open>A round waits at least 187 ms and at most 313 ms.\<close>

lemma pollJitter_range:
  "0 \<le> rnd \<Longrightarrow> rnd < 1 \<Longrightarrow> 187 < pollJitter DEFAULT_POLL_INTERVAL_MS rnd \<and> pollJitter DEFAULT_POLL_INTERVAL_MS rnd < 313"
  by (simp add: pollJitter_def DEFAULT_POLL_INTERVAL_MS_def)

lemma late_settles:
  "polls \<noteq> [] \<Longrightarrow> giveUp < fst (last polls) \<Longrightarrow> fst (resultLoop giveUp i polls) \<noteq> None"
proof (induction giveUp i polls rule: resultLoop.induct)
  case (2 giveUp i now answer polls)
  show ?case
  proof (cases "giveUp < now")
    case False
    then have "polls \<noteq> []" "giveUp < fst (last polls)" using 2(3) by (auto split: if_splits)
    then show ?thesis using 2(1) False by (auto split: sum.split PollOutcome.split)
  qed simp
qed simp

text \<open>The round in which the loop ends: the one before it was not past the limit.\<close>

lemma settling_round:
  "fst (resultLoop giveUp i polls) \<noteq> None \<Longrightarrow>
     \<exists>k < length polls. fst (resultLoop giveUp i (take (Suc k) polls)) \<noteq> None \<and>
       (k = 0 \<or> fst (polls ! (k - 1)) \<le> giveUp)"
proof (induction giveUp i polls rule: resultLoop.induct)
  case (2 giveUp i now answer polls)
  show ?case
  proof (cases "fst (resultLoop giveUp i [(now, answer)]) = None")
    case True
    then obtain r where r: "\<not> giveUp < now" "answer = Inr r" "pollRound now giveUp i r = PollAgain"
      by (auto split: if_splits sum.splits PollOutcome.splits)
    then obtain k where k: "k < length polls" "fst (resultLoop giveUp i (take (Suc k) polls)) \<noteq> None"
      "k = 0 \<or> fst (polls ! (k - 1)) \<le> giveUp"
      using 2 by auto
    have "fst (((now, answer) # polls) ! k) \<le> giveUp" using k(3) r(1) by (cases k) auto
    then show ?thesis using k r by (intro exI [of _ "Suc k"]) auto
  qed (intro exI [of _ 0], simp)
qed simp

definition roundsApart :: "int \<Rightarrow> (int \<times> 'a) list \<Rightarrow> bool" where
  "roundsApart lat = successively (\<lambda>p q. fst p + 187 \<le> fst q \<and> fst q \<le> fst p + 313 + lat)"

lemma rounds_last:
  "roundsApart lat ((t, x) # ps) \<Longrightarrow> t + 187 * int (length ps) \<le> fst (last ((t, x) # ps))"
proof (induction ps arbitrary: t x)
  case (Cons p ps)
  then have "fst p + 187 * int (length ps) \<le> fst (last (p # ps))" "t + 187 \<le> fst p"
    using Cons.IH [of "fst p" "snd p"] by (simp_all add: roundsApart_def)
  then show ?case by simp
qed simp

lemma rounds_gap:
  "roundsApart lat ps \<Longrightarrow> Suc k < length ps \<Longrightarrow> fst (ps ! Suc k) \<le> fst (ps ! k) + 313 + lat"
  unfolding roundsApart_def by (simp add: successively_conv_nth)

text \<open>
  C34. \<open>result\<close> returns a value or throws in time, whatever the object answers: when an answer takes at
  most \<open>lat\<close> ms, so that consecutive rounds are 187 to 313 + \<open>lat\<close> ms apart, there is a round \<open>k\<close> in
  which it settles, and that round is no later than one round after the time to live beyond the later of
  the job's deadline and the call. (With a negative time to live the first round settles.)
\<close>

theorem result_settles:
  assumes "successively (\<lambda>p q. fst p + 187 \<le> fst q \<and> fst q \<le> fst p + 313 + lat) ((now, answer) # rest)"
    and "max (hdDeadline jh) now + nullish (hdTtlMs jh) 3600000 < now + 187 * int (length rest)"
  shows "\<exists>k \<le> length rest. \<exists>outcome events.
      handleResult now jh (take (Suc k) ((now, answer) # rest)) = (Some outcome, events) \<and>
      fst (((now, answer) # rest) ! k) \<le>
        max now (max (hdDeadline jh) now + nullish (hdTtlMs jh) 3600000 + 313 + lat)"
proof -
  let ?polls = "(now, answer) # rest" and ?g = "giveUpAfter now (hdDeadline jh) (hdTtlMs jh)"
  have R: "roundsApart lat ?polls" using assms(1) by (simp add: roundsApart_def)
  have g: "?g = max (hdDeadline jh) now + nullish (hdTtlMs jh) 3600000"
    by (simp add: giveUpAfter_def DEFAULT_RESULT_TTL_def Let_def)
  have "?g < fst (last ?polls)" using rounds_last [OF R] assms(2) g by linarith
  then have "fst (resultLoop ?g (hdId jh) ?polls) \<noteq> None" by (intro late_settles) simp_all
  from settling_round [OF this] obtain k where k: "k < length ?polls"
    "fst (resultLoop ?g (hdId jh) (take (Suc k) ?polls)) \<noteq> None" "k = 0 \<or> fst (?polls ! (k - 1)) \<le> ?g"
    by blast
  have "fst (?polls ! k) \<le> max now (?g + 313 + lat)"
  proof (cases k)
    case (Suc j)
    then show ?thesis using k rounds_gap [OF R, of j] by simp
  qed simp
  moreover have "\<exists>outcome events. handleResult now jh (take (Suc k) ?polls) = (Some outcome, events)"
    using k(2) unfolding handleResult_def by (metis option.exhaust prod.collapse)
  ultimately show ?thesis using k(1) g by (intro exI [of _ k]) auto
qed

lemma result_settles_witness:
  "\<exists>k outcome events. handleResult 0 \<lparr>hdId = ''j'', hdDeadline = 100, hdTtlMs = Some 50\<rparr>
     (take (Suc k) [(0, Inr \<lparr>jrStatus = Queued, jrValue = None, jrError = None\<rparr>),
      (190, Inr \<lparr>jrStatus = Leased, jrValue = None, jrError = None\<rparr>)]) = (Some outcome, events)"
  using result_settles [of 20 0 "Inr \<lparr>jrStatus = Queued, jrValue = None, jrError = None\<rparr>"
      "[(190, Inr \<lparr>jrStatus = Leased, jrValue = None, jrError = None\<rparr>)]" "\<lparr>hdId = ''j'', hdDeadline = 100, hdTtlMs = Some 50\<rparr>"]
  by (auto simp: nullish_def)

section \<open>A repeated key\<close>

lemma claimRows_ids: "map cId (snd (claimRows now req rows t)) = map cId t"
proof (induction now req rows t rule: claimRows.induct)
  case (2 now req row rows t)
  have "map cId (updateWhere P (leaseTo now req) t) = map cId t" for P
    by (auto simp: updateWhere_def leaseTo_def)
  then show ?case using 2 by (auto simp: Let_def split: prod.splits)
qed simp

lemma kick_ids: "map cId (dsRows (sStore (kick doStorage owner now y))) = map cId (dsRows (sStore y))"
proof -
  have F: "map cId (dsRows (snd (dsFailQueued now i e st))) = map cId (dsRows st)" for i e st
    by (auto simp: ds_rows sqlFailQueued_def Let_def updateWhere_def)
  have C: "map cId (dsRows (snd (dsClaim now req st))) = map cId (dsRows st)" for req st
    by (simp add: ds_rows sqlClaim_def claimRows_ids)
  obtain x d where t: "takeNextReady (sDisp y\<lparr>dLoopRunning := True\<rparr>) = (x, d)" by force
  show ?thesis
    using t F C by (cases x) (simp_all add: kick_def loopHead_def exitLoop_def doStorage_def case_prod_unfold split: option.splits)
qed

lemma getDispatcher_store [simp]: "sStore (scSys (getDispatcher s)) = sStore (scSys s)"
  by (simp add: getDispatcher_def)

lemma ensureInit_store [simp]: "sStore (scSys (ensureInit s)) = sStore (scSys s)"
  by (simp add: ensureInit_def Let_def)

lemma addReady_store [simp]: "sStore (addReady j y) = sStore y"
  by (simp add: addReady_def)

lemma insertJob_repeated:
  assumes "pjIdempotencyKey j = Some key" "key \<noteq> []" "list_ex (\<lambda>q. cIdempotencyKey q = Some key) t"
  shows "insertJob j t = Inr (False, t)"
proof -
  have "strIncludes ''unique'' (toLowerCase (''UNIQUE constraint failed: jobs.id''))"
    "strIncludes ''unique'' (toLowerCase (''UNIQUE constraint failed: jobs.idempotency_key''))"
    by code_simp+
  then show ?thesis using assms
    by (auto simp: insertJob_def sqlInsert_def insertedRow_def nullish_def)
qed

lemma schedEnqueue_repeated:
  assumes "sqIdempotencyKey req = Some key" "key \<noteq> []"
    and "list_ex (\<lambda>q. cIdempotencyKey q = Some key) (dsRows (sStore (scSys s)))"
  shows "map cId (dsRows (sStore (scSys (snd (schedEnqueue owner now req s))))) =
         map cId (dsRows (sStore (scSys s)))"
proof -
  have "insertJob (buildJob now req) (dsRows (sStore (scSys s))) = Inr (False, dsRows (sStore (scSys s)))"
    by (rule insertJob_repeated [OF _ assms(2,3)]) (simp add: buildJob_def assms(1))
  then have "dsEnqueue now (buildJob now req) (sStore (scSys s)) = (None, sStore (scSys s))"
    by (simp add: dsEnqueue_def)
  then show ?thesis
    by (simp add: schedEnqueue_def enqueueCall_def Let_def doStorage_def kick_ids [unfolded doStorage_def]
        split: option.splits prod.splits)
qed

lemma afterConfig_store:
  "sStore (scSys (snd (snd (ensureInitialConfig net (h, s))))) = sStore (scSys s)"
  by (simp add: ensureInitialConfig_def schedConfigure_def Let_def split: option.splits)

lemma clientEnqueue_ok:
  assumes "clientEnqueue n0 n owner now rnd job (h, s) = (Inr (jh, ev), h', s')"
  obtains fnSource s1 where "serializeFunction (jbFn job) = Inr fnSource" "hdId jh = jobId fnSource rnd"
    "s' = snd (schedEnqueue owner now (enqueueRequest (shOpts h) job fnSource rnd now) s1)"
    "sStore (scSys s1) = sStore (scSys s)"
proof -
  obtain r h1 s1 where c: "ensureInitialConfig n0 (h, s) = (r, h1, s1)" by (metis prod.exhaust)
  have "shOpts h1 = shOpts h" using c by (auto simp: ensureInitialConfig_def split: option.splits)
  moreover have "sStore (scSys s1) = sStore (scSys s)" using afterConfig_store [of n0 h s] c by simp
  moreover obtain fnSource r' where "serializeFunction (jbFn job) = Inr fnSource"
    "schedEnqueue owner now (enqueueRequest (shOpts h1) job fnSource rnd now) s1 = (Inr r', s')"
    "jh = \<lparr>hdId = sqId (enqueueRequest (shOpts h1) job fnSource rnd now),
           hdDeadline = sqDeadline (enqueueRequest (shOpts h1) job fnSource rnd now),
           hdTtlMs = soRetentionTtlMs (shOpts h1)\<rparr>"
    using assms c by (auto simp: clientEnqueue_def afterConfig_def Let_def split: option.splits sum.splits prod.splits)
  ultimately show thesis using that [of fnSource s1] by (simp add: enqueueRequest_def)
qed

text \<open>
  An idempotency key admits one job: enqueueing a second one with the key of a stored job adds no
  row. The handle it returns, though, has an id of its own that no row has: its \<open>status\<close> is \<open>failed\<close> and
  its \<open>result\<close> is rejected with the error for a missing job, whatever becomes of the stored job.
\<close>

theorem repeated_key_handle:
  assumes "clientEnqueue n0 n owner now rnd job (h, s) = (Inr (jh, ev), h', s')"
    and "jbIdempotencyKey job = Some key" "key \<noteq> []"
    and "list_ex (\<lambda>q. cIdempotencyKey q = Some key) (dsRows (sStore (scSys s)))"
    and "hdId jh \<notin> cId ` set (dsRows (sStore (scSys s)))"
    and "t \<le> giveUpAfter t (hdDeadline jh) (hdTtlMs jh)"
  shows "map cId (dsRows (sStore (scSys s'))) = map cId (dsRows (sStore (scSys s))) \<and>
    handleStatus (dsStatus (hdId jh) (sStore (scSys s'))) = ''failed'' \<and>
    fst (handleResult t jh [(t, Inr (dsResult t (hdId jh) (sStore (scSys s'))))]) =
      Some (Inl (Lib (leafErrorToTypedError \<lparr>frName = ''NotFoundError'',
        frMessage = ''Job '' @ hdId jh @ '' not found (or result expired)'', frStack = None, frOriginalName = None\<rparr>)))"
proof -
  obtain fnSource s1 where E: "s' = snd (schedEnqueue owner now (enqueueRequest (shOpts h) job fnSource rnd now) s1)"
    "sStore (scSys s1) = sStore (scSys s)"
    using clientEnqueue_ok [OF assms(1)] by metis
  have ids: "map cId (dsRows (sStore (scSys s'))) = map cId (dsRows (sStore (scSys s)))"
    using schedEnqueue_repeated [of "enqueueRequest (shOpts h) job fnSource rnd now" key s1 owner now] assms(2-4)
    by (simp add: E enqueueRequest_def)
  then have "hdId jh \<notin> cId ` set (dsRows (sStore (scSys s')))" using assms(5) by (metis image_set)
  then have none: "rowById (hdId jh) (dsRows (sStore (scSys s'))) = None" by (auto simp: rowById_None)
  show ?thesis using ids none assms(6)
    by (simp add: dsStatus_def sqlStatus_def dsResult_def sqlResult_def handleStatus_def handleResult_def
        pollRound_def nullish_def Let_def)
qed

lemma schedEnqueue_repeated_ok:
  assumes "sqIdempotencyKey req = Some key" "key \<noteq> []"
    and "list_ex (\<lambda>q. cIdempotencyKey q = Some key) (dsRows st)"
  shows "\<exists>n s'. schedEnqueue owner now req (newScheduler st) = (Inr (sqId req, n), s')"
proof -
  have D: "dConfig (sDisp (scSys (getDispatcher (ensureInit (newScheduler st))))) = DEFAULT_DISPATCHER_CONFIG"
    by (simp add: ensureInit_def newScheduler_def getDispatcher_def newDispatcher_def mergeConfig_def
        noConfig_def DEFAULT_DISPATCHER_CONFIG_def nullish_def Let_def)
  have S: "sStore (scSys (newScheduler st)) = st" by (simp add: newScheduler_def initialSys_def)
  have "insertJob (buildJob now req) (dsRows st) = Inr (False, dsRows st)"
    by (rule insertJob_repeated [OF _ assms(2,3)]) (simp add: buildJob_def assms(1))
  then have "dsEnqueue now (buildJob now req) st = (None, st)" by (simp add: dsEnqueue_def)
  then show ?thesis
    by (simp add: schedEnqueue_def enqueueCall_def Let_def D DEFAULT_DISPATCHER_CONFIG_def doStorage_def S)
qed

definition sampleSchedulerOptions :: SchedulerOptions where
  "sampleSchedulerOptions = \<lparr>soId = ''q'', soStore = None, soHasFairness = False, soHasAlarmCadence = False,
     soShared = sampleClient, soContext = None, soRetry = None, soDefaultDeadlineMs = None,
     soRetentionTtlMs = None, soInFlightLimit = None, soMaxQueueDepth = None, soFairCapacityPerTenant = None,
     soLocationHint = None, soRequestColo = None\<rparr>"

definition sampleHandle :: SchedulerHandle where
  "sampleHandle = \<lparr>shOpts = sampleSchedulerOptions, shLocationHint = None, shFlight = None\<rparr>"

definition keyedJob :: Job where
  "keyedJob = \<lparr>jbFn = Function ''f'' ''x => x'', jbArgs = [], jbTenantId = None, jbDeadlineMs = None, jbDeadline = None,
     jbRetry = None, jbIdempotencyKey = Some ''k'', jbMeta = None\<rparr>"

lemma repeated_key_handle_witness:
  "\<exists>jh ev h' s'. clientEnqueue None None ''o'' 9 ''r'' keyedJob (sampleHandle, newScheduler
      (callStore doStorage (CEnqueue 5 ((sampleJob ''j'' ''t'')\<lparr>pjIdempotencyKey := Some ''k''\<rparr>)) emptyDoStore))
      = (Inr (jh, ev), h', s') \<and> map cId (dsRows (sStore (scSys s'))) = [''j'']"
  (is "\<exists>jh ev h' s'. clientEnqueue _ _ _ _ _ _ (_, newScheduler ?st) = _ \<and> _")
proof -
  let ?req = "enqueueRequest sampleSchedulerOptions keyedJob ''x => x'' ''r'' 9"
  have S: "sStore (scSys (newScheduler ?st)) = ?st" by (simp add: newScheduler_def initialSys_def)
  have ids: "map cId (dsRows ?st) = [''j'']" by code_simp
  have k: "list_ex (\<lambda>q. cIdempotencyKey q = Some ''k'') (dsRows ?st)" by code_simp
  have "sqIdempotencyKey ?req = Some ''k''" by (simp add: enqueueRequest_def keyedJob_def)
  from schedEnqueue_repeated_ok [OF this _ k, of "''o''" 9]
  obtain n s' where q: "schedEnqueue ''o'' 9 ?req (newScheduler ?st) = (Inr (sqId ?req, n), s')" by auto
  have src: "serializeFunction (Function ''f'' ''x => x'') = Inr ''x => x''" by code_simp
  have "ensureInitialConfig None (sampleHandle, newScheduler ?st) = (None, sampleHandle, newScheduler ?st)"
    by (simp add: ensureInitialConfig_def initialConfig_def noConfig_def sampleHandle_def sampleSchedulerOptions_def)
  then obtain jh ev h' where c: "clientEnqueue None None ''o'' 9 ''r'' keyedJob (sampleHandle, newScheduler ?st) = (Inr (jh, ev), h', s')"
    and jh: "hdId jh = jobId ''x => x'' ''r''" "hdTtlMs jh = None"
    using q src by (simp add: clientEnqueue_def afterConfig_def keyedJob_def sampleHandle_def
        sampleSchedulerOptions_def enqueueRequest_def Let_def)
  have "9 \<le> giveUpAfter 9 (hdDeadline jh) (hdTtlMs jh)"
    by (simp add: giveUpAfter_def jh nullish_def DEFAULT_RESULT_TTL_def Let_def)
  moreover have "''j'' \<noteq> jobId ''x => x'' ''r''" by (simp add: jobId_def)
  ultimately have "map cId (dsRows (sStore (scSys s'))) = map cId (dsRows ?st)"
    using repeated_key_handle [OF c, of "''k''" 9] ids k S jh(1)
    by (simp add: keyedJob_def) (metis (no_types, lifting) image_set list.set(1,2) singletonD)
  then show ?thesis using c ids by auto
qed

section \<open>What a job runs with\<close>

definition reread :: "jsval \<Rightarrow> jsval" where
  "reread v = (case stringify v of None \<Rightarrow> JUndef | Some j \<Rightarrow> parseJson j)"

lemma field_reread:
  assumes "distinct (map fst fs)"
  shows "field k (dec (enc (JObj fs))) = (case map_of fs k of None \<Rightarrow> JUndef | Some v \<Rightarrow> reread v)"
proof -
  let ?g = "\<lambda>(k, v). case stringify v of None \<Rightarrow> [] | Some j \<Rightarrow> [(k, j)]"
  have none: "map_of (map (\<lambda>(k, v). (k, parseJson v)) (concat (map ?g fs))) k = None" if "k \<notin> fst ` set fs" for fs
    using that by (induction fs) (auto split: option.splits)
  have "map_of (map (\<lambda>(k, v). (k, parseJson v)) (concat (map ?g fs))) k =
      Option.bind (map_of fs k) (\<lambda>v. map_option parseJson (stringify v))"
    using assms
  proof (induction fs)
    case (Cons p fs)
    obtain k' v where p: "p = (k', v)" by (cases p)
    then show ?case using Cons none [of fs] by (auto split: option.splits simp: image_iff)
  qed simp
  then show ?thesis
    by (auto simp: enc_def dec_def nullish_def reread_def split: option.splits)
qed

lemma reread_simps [simp]:
  "reread JUndef = JUndef" "reread (JStr s) = JStr s" "reread (JNum i) = JNum i"
  "reread (JArr (map JStr ss)) = JArr (map JStr ss)"
  by (simp_all add: reread_def nullish_def comp_def)

lemma reread_obj: "reread (JObj fs) = dec (enc (JObj fs))"
  by (simp add: reread_def enc_def dec_def nullish_def)

lemma asNum_optField [simp]: "asNum (reread (optField JNum x)) = x"
  "asNum (case Some (optField JNum x) of None \<Rightarrow> JUndef | Some v \<Rightarrow> reread v) = x"
  by (cases x; simp add: optField_def)+

lemma asStr_optField [simp]: "asStr (reread (optField JStr x)) = x"
  by (cases x) (simp_all add: optField_def)

lemma asStrs_JStr [simp]: "asStrs (reread (optField (JArr \<circ> map JStr) x)) = x"
proof -
  have "List.map_filter asStr (map JStr ss) = ss" for ss by (induction ss) (simp_all add: List.map_filter_def)
  then show ?thesis by (cases x) (simp_all add: optField_def)
qed

lemma wire_reread: "wireOfJs (dec (enc (wireJs w))) = w"
proof -
  have obj: "\<exists>gs. dec (enc (JObj fs)) = JObj gs" for fs by (simp add: enc_def dec_def nullish_def)
  have lim: "(case reread (optField (\<lambda>(cpu, sub). JObj [(''cpuMs'', optField JNum cpu), (''subRequests'', optField JNum sub)]) l) of
      JObj fs \<Rightarrow> Some (asNum (field ''cpuMs'' (JObj fs)), asNum (field ''subRequests'' (JObj fs))) | _ \<Rightarrow> None) = l" for l
  proof (cases l)
    case (Some p)
    obtain cpu sub where p: "p = (cpu, sub)" by (cases p)
    let ?fs = "[(''cpuMs'', optField JNum cpu), (''subRequests'', optField JNum sub)]"
    obtain gs where "dec (enc (JObj ?fs)) = JObj gs" using obj by blast
    moreover have "field k (dec (enc (JObj ?fs))) = (case map_of ?fs k of None \<Rightarrow> JUndef | Some v \<Rightarrow> reread v)" for k
      by (rule field_reread) simp
    ultimately show ?thesis by (simp add: Some p optField_def [of "\<lambda>(cpu, sub). _ cpu sub"] reread_obj)
  qed (simp add: optField_def)
  let ?ws = "[(''compatibilityDate'', optField JStr (wwCompatibilityDate w)),
     (''compatibilityFlags'', optField (JArr \<circ> map JStr) (wwCompatibilityFlags w)),
     (''globalOutbound'', optField (\<lambda>x. JStr (case x of Inherit \<Rightarrow> ''inherit'' | Sandboxed \<Rightarrow> ''sandboxed'')) (wwGlobalOutbound w)),
     (''limits'', optField (\<lambda>(cpu, sub). JObj [(''cpuMs'', optField JNum cpu), (''subRequests'', optField JNum sub)]) (wwLimits w)),
     (''tailBindingName'', optField JStr (wwTailBindingName w))]"
  have F: "field k (dec (enc (wireJs w))) = (case map_of ?ws k of None \<Rightarrow> JUndef | Some v \<Rightarrow> reread v)" for k
    unfolding wireJs_def by (rule field_reread) simp
  have out: "(case asStr (reread (optField (\<lambda>x. JStr (case x of Inherit \<Rightarrow> ''inherit'' | Sandboxed \<Rightarrow> ''sandboxed'')) y)) of
      None \<Rightarrow> None | Some s \<Rightarrow> if s = ''sandboxed'' then Some Sandboxed else if s = ''inherit'' then Some Inherit else None) = y" for y
    by (cases y) (auto simp: optField_def split: wireOutbound.splits)
  show ?thesis
    by (rule WireWorkerOptions.equality; unfold wireOfJs_def F; simp add: lim out)
qed

lemma jobId_nonempty [simp]: "jobId fnSource rnd \<noteq> []"
  by (simp add: jobId_def)

text \<open>
  C33. A scheduler job runs with what its client asked for, provided that its arguments and context are
  JSON values, its id is new, no stored job has its idempotency key (if it has one) and it is claimed before
  its deadline: the job that is claimed for the request, after the row with its JSON columns, loads the
  source, arguments, context and deadline of the request, under the very runner options (bindings,
  network, limits, tail, cache strategy) that a submit of a pool with the same options runs under on that
  object. A repeated key gives a handle without a job (\<open>repeated_key_handle\<close>), and what JSON cannot
  express arrives changed.
\<close>

theorem job_runs_as_enqueued:
  assumes "rowById (jobId fnSource rnd) (dsRows st) = None"
    and "jbIdempotencyKey job = None \<or> \<not> list_ex (\<lambda>r. cIdempotencyKey r = jbIdempotencyKey job) (dsRows st)"
    and "jsonSafe (JArr (jbArgs job))" "pred_option jsonSafe (soContext opts)"
    and "now' < jobDeadline now (jbDeadline job) (jbDeadlineMs job) (soDefaultDeadlineMs opts)"
    and "crJobId req = Some (jobId fnSource rnd)"
    and "dsEnqueue now (buildJob now (enqueueRequest opts job fnSource rnd now)) st = (msg, st')"
  shows "\<exists>claimed. fst (dsClaim now' req st') = [claimed] \<and>
    jobRunner env claimed = runnerFor (clientSpec (soShared opts) fnSource noSubmitOptions envelope None) env \<and>
    riFnSource (jobInput env claimed) = fnSource \<and> riArgs (jobInput env claimed) = snd (argsOf 0 (jbArgs job)) \<and>
    riContext (jobInput env claimed) = jobContext (soContext opts) \<and>
    reDeadlineEpochMs (riEnvelope (jobInput env claimed)) =
      jobDeadline now (jbDeadline job) (jbDeadlineMs job) (soDefaultDeadlineMs opts)"
proof -
  let ?j = "buildJob now (enqueueRequest opts job fnSource rnd now)"
  let ?c = "(rowToJob (insertedRow ?j))\<lparr>pjStatus := Leased, pjLeaseOwner := Some (crWorkerId req),
              pjLeaseExpires := Some (now' + crLeaseMs req)\<rparr>"
  have claim: "fst (dsClaim now' req st') = [?c]"
    using claim_enqueued [of ?j st now' req now msg st'] assms
    by (simp add: buildJob_def enqueueRequest_def unusedKey_def)
  have args: "dec (enc (JArr (jbArgs job))) = JArr (jbArgs job)" by (rule dec_enc [OF assms(3)])
  have ctx: "map_option (\<lambda>x. dec (enc x)) (soContext opts) = soContext opts"
    using assms(4) by (cases "soContext opts") simp_all
  obtain w where w: "workerOptionsToWire (Some (clientWorkerOptions (soShared opts))) = Some w"
    by (simp add: workerOptionsToWire_def)
  show ?thesis
    by (rule exI [of _ ?c])
      (simp add: claim jobRunner_def jobInput_def rowToJob_def insertedRow_def buildJob_def enqueueRequest_def
        runnerFor_def clientSpec_def args ctx option.map_comp wire_reread w comp_def)
qed

lemma job_runs_as_enqueued_witness:
  "\<exists>claimed. riArgs (jobInput [] claimed) = [RNumber 7] \<and>
     fst (dsClaim 10 \<lparr>crWorkerId = ''w'', crMax = 1, crLeaseMs = 100, crJobId = Some (jobId ''x => x'' ''r'')\<rparr>
       (snd (dsEnqueue 5 (buildJob 5 (enqueueRequest sampleSchedulerOptions
          (keyedJob\<lparr>jbArgs := [JNum 7]\<rparr>) ''x => x'' ''r'' 5)) emptyDoStore))) = [claimed]"
proof -
  let ?job = "keyedJob\<lparr>jbArgs := [JNum 7]\<rparr>"
  obtain msg st' where e: "dsEnqueue 5 (buildJob 5 (enqueueRequest sampleSchedulerOptions ?job ''x => x'' ''r'' 5)) emptyDoStore = (msg, st')"
    by force
  have "rowById (jobId ''x => x'' ''r'') (dsRows emptyDoStore) = None" by (simp add: emptyDoStore_def rowById_def)
  moreover have "\<not> list_ex (\<lambda>r. cIdempotencyKey r = jbIdempotencyKey ?job) (dsRows emptyDoStore)"
    by (simp add: emptyDoStore_def)
  ultimately show ?thesis
    using job_runs_as_enqueued [OF _ disjI2 _ _ _ _ e, of 10
      "\<lparr>crWorkerId = ''w'', crMax = 1, crLeaseMs = 100, crJobId = Some (jobId ''x => x'' ''r'')\<rparr>" "[]" sampleEnvelope] e
    by (auto simp: keyedJob_def sampleSchedulerOptions_def jobDeadline_def DEFAULT_DEADLINE_MS_def nullish_def)
qed

text \<open>Two jobs with one source and one context run in one isolate: the cache key has no slot.\<close>

lemma jobs_share_isolate:
  assumes "pjFnSource a = pjFnSource b" "pjContext a = pjContext b"
    and "nullish (pjCacheKeyStrategy a) Stable = Stable" "nullish (pjCacheKeyStrategy b) Stable = Stable"
    and "contextHash (jobContext (pjContext a)) = Inr h"
  shows "\<exists>key. runJob load p now env a n = (loadAndCall load p (jobRunner env a) (jobInput env a) PoolFn key, n) \<and>
    runJob load p now' env b m = (loadAndCall load p (jobRunner env b) (jobInput env b) PoolFn key, m)"
  using assms
  by (intro exI [of _ "''cfp:'' @ hashSource (pjFnSource a @ '':'' @ h) @ slotSuffix None"])
    (simp add: runJob_def runWithMode_def jobInput_def jobRunner_def buildCacheKey_def Let_def)

end
