(* ===== verification/FakeScheduler.thy ===== *)
theory FakeScheduler
  imports Fakes SchedulerClient
begin

text \<open>
  The test double of the scheduler (\<open>schedulerFake\<close> of \<open>src/api/testing.ts\<close>) as a state machine. A job is
  started when it is enqueued; its function settles later, in any order with respect to cancels and to
  the calls of \<open>drain\<close>. \<open>fjPending\<close>: the function has not settled yet.
\<close>

section \<open>State and steps\<close>

datatype FakeStatus = FqQueued | FqRunning | FqDone | FqFailed | FqCancelled

record FakeJob =
  fjStatus :: FakeStatus
  fjValue :: rval
  fjError :: "FailRecord option"
  fjSettled :: bool
  fjPending :: bool

text \<open>Job \<open>n\<close> has the id \<open>j-n\<close>. \<open>fqWaiting\<close> and \<open>fqDrained\<close>: the calls of \<open>drain\<close> by what became of them.\<close>

record FakeSched =
  fqJobs :: "FakeJob list"
  fqBarrier :: bool
  fqWaiting :: nat
  fqDrained :: nat

definition newFakeSched :: FakeSched where
  "newFakeSched = \<lparr>fqJobs = [], fqBarrier = False, fqWaiting = 0, fqDrained = 0\<rparr>"

definition openJob :: "FakeJob \<Rightarrow> bool" where
  "openJob j \<longleftrightarrow> fjStatus j = FqQueued \<or> fjStatus j = FqRunning"

definition checkDrain :: "FakeSched \<Rightarrow> FakeSched" where
  "checkDrain s =
     (if \<not> fqBarrier s then s
      else if list_ex openJob (fqJobs s) then s
      else s\<lparr>fqBarrier := False, fqWaiting := 0, fqDrained := fqDrained s + fqWaiting s\<rparr>)"

definition fakeEnqueue :: "FakeSched \<Rightarrow> string \<times> FakeSched" where
  "fakeEnqueue s =
     (''j-'' @ showNat (length (fqJobs s)),
      s\<lparr>fqJobs := fqJobs s @ [\<lparr>fjStatus = FqRunning, fjValue = RUndef, fjError = None, fjSettled = False, fjPending = True\<rparr>]\<rparr>)"

text \<open>The function of job \<open>n\<close> settles. A value that cannot be cloned fails the job.\<close>

definition settledJob :: "thrown + rval \<Rightarrow> FakeJob \<Rightarrow> FakeJob" where
  "settledJob r j =
     (case bindE r structuredClone of
        Inr v \<Rightarrow> j\<lparr>fjStatus := FqDone, fjValue := v, fjSettled := True, fjPending := False\<rparr>
      | Inl t \<Rightarrow> j\<lparr>fjStatus := FqFailed, fjError := Some (errorToRecord t), fjSettled := True, fjPending := False\<rparr>)"

definition fakeJobSettles :: "nat \<Rightarrow> thrown + rval \<Rightarrow> FakeSched \<Rightarrow> FakeSched" where
  "fakeJobSettles n r s = checkDrain (s\<lparr>fqJobs := (fqJobs s)[n := settledJob r (fqJobs s ! n)]\<rparr>)"

definition fakeCancel :: "nat \<Rightarrow> FakeSched \<Rightarrow> FakeSched" where
  "fakeCancel n s =
     checkDrain (s\<lparr>fqJobs := (fqJobs s)[n := (fqJobs s ! n)\<lparr>fjStatus := FqCancelled, fjSettled := True\<rparr>]\<rparr>)"

definition fakeDrain :: "FakeSched \<Rightarrow> FakeSched" where
  "fakeDrain s =
     (if \<not> list_ex openJob (fqJobs s) then s\<lparr>fqDrained := fqDrained s + 1\<rparr>
      else s\<lparr>fqBarrier := True, fqWaiting := fqWaiting s + 1\<rparr>)"

text \<open>\<open>result\<close>: \<open>None\<close> while it waits. A job without an error record makes it fail on \<open>undefined.error\<close>.\<close>

definition fakeResult :: "FakeJob \<Rightarrow> (thrown + rval) option" where
  "fakeResult j =
     (if openJob j \<and> \<not> fjSettled j then None
      else if fjStatus j = FqDone then Some (Inr (fjValue j))
      else case fjError j of
        Some e \<Rightarrow> Some (Inl (Lib (leafErrorToTypedError e)))
      | None \<Rightarrow> Some (Inl (PlainError ''TypeError''
          (''Cannot read properties of undefined (reading '' @ [CHR 0x27] @ ''error'' @ [CHR 0x27] @ '')'') None)))"

definition fakeCount :: "FakeStatus \<Rightarrow> FakeSched \<Rightarrow> nat" where
  "fakeCount x s = length (filter (\<lambda>j. fjStatus j = x) (fqJobs s))"

definition fakeSchedStats :: "int option \<Rightarrow> FakeSched \<Rightarrow> SchedulerStats" where
  "fakeSchedStats ttl s =
     \<lparr>stInFlight = Some (Some (int (fakeCount FqRunning s))), stQueued = Some (Some (int (fakeCount FqQueued s))),
      stCompleted = Some (Some (int (fakeCount FqDone s))), stFailed = Some (Some (int (fakeCount FqFailed s))),
      stCancelled = Some (Some (int (fakeCount FqCancelled s))), stOldestQueuedAgeMs = Some (Some 0),
      stResultRetentionTtlMs = nullish ttl 3600000\<rparr>"

definition fakeConfigure :: "PartialConfig \<Rightarrow> DispatcherConfig" where
  "fakeConfigure c =
     \<lparr>dcInFlightLimit = nullish (pcInFlightLimit c) 32, dcMaxQueueDepth = nullish (pcMaxQueueDepth c) None,
      dcResultTtlMs = nullish (pcResultTtlMs c) 3600000, dcFairCapacity = nullish (pcFairCapacity c) 4,
      dcLeaseMs = nullish (pcLeaseMs c) 60000\<rparr>"

inductive fakeStep :: "FakeSched \<Rightarrow> FakeSched \<Rightarrow> bool" where
  enqueue: "fakeStep s (snd (fakeEnqueue s))"
| settles: "n < length (fqJobs s) \<Longrightarrow> fjPending (fqJobs s ! n) \<Longrightarrow> fakeStep s (fakeJobSettles n r s)"
| cancel: "n < length (fqJobs s) \<Longrightarrow> fakeStep s (fakeCancel n s)"
| drain: "fakeStep s (fakeDrain s)"

inductive fakeReach :: "FakeSched \<Rightarrow> bool" where
  start: "fakeReach newFakeSched"
| step: "fakeReach s \<Longrightarrow> fakeStep s s' \<Longrightarrow> fakeReach s'"

inductive_cases fakeStep_cases: "fakeStep s s'"

section \<open>Properties\<close>

definition fakeInv :: "FakeSched \<Rightarrow> bool" where
  "fakeInv s \<longleftrightarrow> (fqBarrier s \<longleftrightarrow> 0 < fqWaiting s) \<and> (fqBarrier s \<longrightarrow> list_ex openJob (fqJobs s)) \<and>
     list_all (\<lambda>j. (openJob j \<longleftrightarrow> \<not> fjSettled j) \<and> (openJob j \<longrightarrow> fjPending j)) (fqJobs s)"

lemma list_all_update: "list_all P xs \<Longrightarrow> P x \<Longrightarrow> list_all P (xs[n := x])"
  using set_update_subset_insert [of xs n x] by (auto simp: list_all_iff)

lemma checkDrain_inv:
  assumes "list_all (\<lambda>j. (openJob j \<longleftrightarrow> \<not> fjSettled j) \<and> (openJob j \<longrightarrow> fjPending j)) (fqJobs s)"
    and "fqBarrier s \<longleftrightarrow> 0 < fqWaiting s"
  shows "fakeInv (checkDrain s)"
  using assms by (auto simp: fakeInv_def checkDrain_def)

lemma fakeStep_inv: "fakeStep s s' \<Longrightarrow> fakeInv s \<Longrightarrow> fakeInv s'"
proof (induction rule: fakeStep.induct)
  case (enqueue s)
  then show ?case by (auto simp: fakeInv_def fakeEnqueue_def openJob_def)
next
  case (settles n s r)
  have "openJob (settledJob r j) = False" "fjSettled (settledJob r j)" for j
    by (auto simp: settledJob_def openJob_def split: sum.splits)
  then show ?case using settles
    unfolding fakeJobSettles_def by (intro checkDrain_inv) (auto simp: fakeInv_def intro!: list_all_update)
next
  case (cancel n s)
  then show ?case
    unfolding fakeCancel_def by (intro checkDrain_inv) (auto simp: fakeInv_def openJob_def intro!: list_all_update)
next
  case (drain s)
  then show ?case by (auto simp: fakeInv_def fakeDrain_def)
qed

lemma fakeReach_inv: "fakeReach s \<Longrightarrow> fakeInv s"
proof (induction rule: fakeReach.induct)
  case start
  then show ?case by (simp add: fakeInv_def newFakeSched_def)
next
  case (step s s')
  then show ?case using fakeStep_inv by blast
qed

text \<open>
  \<open>drain\<close> of the fake loses no wake-up: in every reachable state a caller waits only while some job
  is still open, that is, its function has not settled and it has not been cancelled; \<open>result\<close> of a job
  waits exactly then, and the counts of \<open>stats\<close> add up to the number of jobs.
\<close>

theorem fake_drain_wakes:
  assumes "fakeReach s"
  shows "(if list_ex openJob (fqJobs s) then True else fqWaiting s = 0) \<and>
    list_all (\<lambda>j. fakeResult j = None \<longleftrightarrow> openJob j) (fqJobs s) \<and>
    fakeCount FqQueued s + fakeCount FqRunning s + fakeCount FqDone s + fakeCount FqFailed s + fakeCount FqCancelled s
      = length (fqJobs s)"
proof -
  have inv: "fakeInv s" by (rule fakeReach_inv [OF assms])
  have "length (filter (\<lambda>j. fjStatus j = FqQueued) js) + length (filter (\<lambda>j. fjStatus j = FqRunning) js) +
      length (filter (\<lambda>j. fjStatus j = FqDone) js) + length (filter (\<lambda>j. fjStatus j = FqFailed) js) +
      length (filter (\<lambda>j. fjStatus j = FqCancelled) js) = length js" for js
  proof (induction js)
    case (Cons j js)
    then show ?case by (cases "fjStatus j") simp_all
  qed simp
  moreover have "list_all (\<lambda>j. fakeResult j = None \<longleftrightarrow> openJob j) (fqJobs s)"
    using inv by (auto simp: fakeInv_def list_all_iff fakeResult_def split: option.splits)
  ultimately show ?thesis using inv by (auto simp: fakeInv_def fakeCount_def)
qed

lemma fake_drain_wakes_witness:
  "fqDrained (fakeJobSettles 0 (Inr RNull) (fakeDrain (snd (fakeEnqueue newFakeSched)))) = 1 \<and>
   fqWaiting (fakeJobSettles 0 (Inr RNull) (fakeDrain (snd (fakeEnqueue newFakeSched)))) = 0"
proof -
  let ?s1 = "snd (fakeEnqueue newFakeSched)"
  let ?s2 = "fakeDrain ?s1"
  have "fakeReach ?s1" by (rule fakeReach.step [OF fakeReach.start fakeStep.enqueue])
  then have "fakeReach ?s2" by (rule fakeReach.step [OF _ fakeStep.drain])
  moreover have "0 < length (fqJobs ?s2)" "fjPending (fqJobs ?s2 ! 0)"
    by (simp_all add: fakeDrain_def fakeEnqueue_def newFakeSched_def openJob_def)
  ultimately have "fakeReach (fakeJobSettles 0 (Inr RNull) ?s2)"
    using fakeReach.step fakeStep.settles by blast
  from fake_drain_wakes [OF this]
  have "if list_ex openJob (fqJobs (fakeJobSettles 0 (Inr RNull) ?s2)) then True
      else fqWaiting (fakeJobSettles 0 (Inr RNull) ?s2) = 0" by blast
  moreover have "\<not> list_ex openJob (fqJobs (fakeJobSettles 0 (Inr RNull) ?s2))"
    "fqDrained (fakeJobSettles 0 (Inr RNull) ?s2) = 1"
    by (simp_all add: fakeJobSettles_def checkDrain_def fakeDrain_def fakeEnqueue_def newFakeSched_def openJob_def
        settledJob_def structuredClone_def)
  ultimately show ?thesis by simp
qed

text \<open>
  A cancelled job of the fake is not finished: its function settles later and makes it \<open>done\<close>. A job
  that is done can be cancelled. And \<open>result\<close> of a cancelled job throws a \<open>TypeError\<close>.
\<close>

lemma fake_cancel_not_final:
  assumes "n < length (fqJobs s)"
  shows "fjStatus (fqJobs (fakeJobSettles n (Inr RNull) (fakeCancel n s)) ! n) = FqDone"
    and "fjStatus (fqJobs (fakeCancel n (fakeJobSettles n r s)) ! n) = FqCancelled"
proof -
  have C: "fqJobs (checkDrain x) = fqJobs x" for x by (simp add: checkDrain_def)
  show "fjStatus (fqJobs (fakeJobSettles n (Inr RNull) (fakeCancel n s)) ! n) = FqDone"
    "fjStatus (fqJobs (fakeCancel n (fakeJobSettles n r s)) ! n) = FqCancelled"
    using assms by (simp_all add: fakeJobSettles_def fakeCancel_def C settledJob_def structuredClone_def)
qed

lemma fake_cancelled_result:
  "fjStatus j = FqCancelled \<Longrightarrow> fjError j = None \<Longrightarrow> \<exists>m. fakeResult j = Some (Inl (PlainError ''TypeError'' m None))"
  by (simp add: fakeResult_def openJob_def)

text \<open>\<open>configure\<close> of the fake forgets what was configured before; the production one merges.\<close>

lemma fake_configure_defaults: "fakeConfigure c = mergeConfig DEFAULT_DISPATCHER_CONFIG c"
  by (simp add: fakeConfigure_def mergeConfig_def DEFAULT_DISPATCHER_CONFIG_def nullish_def split: option.splits)

end
