(* ===== verification/TableTypes.thy ===== *)
theory TableTypes
  imports DoStorage D1Store SchedulerDO
begin

text \<open>
  The types of the jobs table. The schema of both stores (\<open>src/scheduler/stores/do-storage.ts\<close>,
  \<open>src/scheduler/stores/d1.ts\<close>) lets every column but a few be null whatever the status is; which
  columns are there for which status is a matter of the statements. \<open>rowWf\<close> is the type that the
  readers rely on, \<open>tableWf\<close> adds the unique columns, and every statement keeps them.
\<close>

section \<open>Well-formed rows\<close>

definition rowWf :: "JobsRow \<Rightarrow> bool" where
  "rowWf r \<longleftrightarrow>
     (case cStatus r of
        Queued \<Rightarrow> cLeaseOwner r = None \<and> cLeaseExpires r = None \<and> cResult r = None \<and>
                   (cRetryCount r = 0 \<or> cRetryCount r < cRetryMax r)
      | Leased \<Rightarrow> cLeaseOwner r \<noteq> None \<and> cLeaseExpires r \<noteq> None \<and> cResult r = None \<and>
                   (cRetryCount r = 0 \<or> cRetryCount r < cRetryMax r)
      | JobStatus.Done \<Rightarrow> cResult r \<noteq> None \<and> cResultExpires r \<noteq> None
      | Failed \<Rightarrow> cError r \<noteq> None \<and> cResult r = None
      | Cancelled \<Rightarrow> cResult r = None) \<and>
     cRetryCount r \<le> max 1 (cRetryMax r)"

definition keysOf :: "table \<Rightarrow> string list" where
  "keysOf t = map the (filter (\<lambda>k. k \<noteq> None) (map cIdempotencyKey t))"

definition tableWf :: "table \<Rightarrow> bool" where
  "tableWf t \<longleftrightarrow> distinct (map cId t) \<and> distinct (keysOf t) \<and> list_all rowWf t"

text \<open>A call as the scheduler makes it: new jobs have not been retried.\<close>

fun freshCall :: "StoreCall \<Rightarrow> bool" where
  "freshCall (CEnqueue now j) = (pjRetryCount j = 0)"
| "freshCall _ = True"

section \<open>Every statement keeps them\<close>

lemma keysOf_update [simp]: "(\<And>r. cIdempotencyKey (f r) = cIdempotencyKey r) \<Longrightarrow> keysOf (updateWhere P f t) = keysOf t"
proof -
  assume "\<And>r. cIdempotencyKey (f r) = cIdempotencyKey r"
  then have "map cIdempotencyKey (updateWhere P f t) = map cIdempotencyKey t" by (simp add: updateWhere_def)
  then show ?thesis by (simp only: keysOf_def)
qed

lemma keysOf_filter: "set (keysOf (filter P t)) \<subseteq> set (keysOf t)"
  by (force simp: keysOf_def)

lemma tableWf_update:
  assumes "tableWf t" "\<And>r. cId (f r) = cId r" "\<And>r. cIdempotencyKey (f r) = cIdempotencyKey r"
    and "\<And>r. P r \<Longrightarrow> rowWf r \<Longrightarrow> rowWf (f r)"
  shows "tableWf (updateWhere P f t)"
proof -
  have "list_all rowWf (updateWhere P f t)"
    using assms(1,4) by (auto simp: tableWf_def list_all_iff updateWhere_def)
  then show ?thesis using assms(1) by (simp add: tableWf_def ids_update [OF assms(2)] keysOf_update [OF assms(3)])
qed

lemma insertJob_wf:
  assumes "tableWf t" "pjRetryCount j = 0" "insertJob j t = Inr (b, t')"
  shows "tableWf t'"
proof (cases "t' = t")
  case False
  have "sqlInsert (insertedRow j) t = Inr t'"
    using assms(3) False by (auto simp: insertJob_def split: sum.splits if_splits)
  then have n: "t' = t @ [insertedRow j]" "cId (insertedRow j) \<notin> cId ` set t"
    "cIdempotencyKey (insertedRow j) = None \<or> cIdempotencyKey (insertedRow j) \<notin> cIdempotencyKey ` set t"
    by (auto simp: sqlInsert_def list_ex_iff image_iff split: if_splits)
  have "rowWf (insertedRow j)" using assms(2) by (simp add: rowWf_def insertedRow_def)
  moreover have "distinct (keysOf (t @ [insertedRow j]))"
  proof (cases "cIdempotencyKey (insertedRow j)")
    case (Some k)
    then have "k \<notin> set (keysOf t)" using n(3) by (force simp: keysOf_def)
    then show ?thesis using assms(1) Some by (simp add: tableWf_def keysOf_def)
  qed (use assms(1) in \<open>simp add: tableWf_def keysOf_def\<close>)
  ultimately show ?thesis using assms(1) n(1,2) by (simp add: tableWf_def)
qed (use assms(1) in simp)

lemma claimRows_wf: "tableWf t \<Longrightarrow> tableWf (snd (claimRows now req rows t))"
proof (induction now req rows t rule: claimRows.induct)
  case (2 now req row rows t)
  have "rowWf (leaseTo now req r)" if "claimable now r" "rowWf r" for r
    using that by (auto simp: rowWf_def leaseTo_def claimable_def)
  then have "tableWf (updateWhere (\<lambda>r. cId r = cId row \<and> claimable now r) (leaseTo now req) t)"
    using 2(3) by (intro tableWf_update) (auto simp: leaseTo_def)
  then show ?case using 2 by (auto simp: Let_def split: prod.splits)
qed simp

lemma sql_wf:
  assumes "tableWf t"
  shows "tableWf (snd (sqlClaim now req t))" "tableWf (snd (sqlAck i w v x t))" "tableWf (snd (sqlFail i w e t))"
    "tableWf (snd (sqlFailQueued i e t))" "tableWf (snd (sqlCancel i t))" "tableWf (snd (sqlSweep now t))"
    "tableWf (snd (sqlReclaim now t))"
proof -
  show "tableWf (snd (sqlClaim now req t))" using claimRows_wf [OF assms] by (simp add: sqlClaim_def)
  show "tableWf (snd (sqlAck i w v x t))"
    unfolding sqlAck_def snd_conv by (rule tableWf_update [OF assms]) (auto simp: rowWf_def ownsLease_def)
  show "tableWf (snd (sqlFail i w e t))"
    unfolding sqlFail_def snd_conv
    by (rule tableWf_update [OF assms]) (auto simp: rowWf_def ownsLease_def failRow_def failStatus_def)
  show "tableWf (snd (sqlFailQueued i e t))"
    unfolding sqlFailQueued_def Let_def snd_conv by (rule tableWf_update [OF assms]) (auto simp: rowWf_def)
  show "tableWf (snd (sqlCancel i t))"
    unfolding sqlCancel_def Let_def snd_conv by (rule tableWf_update [OF assms]) (auto simp: rowWf_def active_def)
  show "tableWf (snd (sqlReclaim now t))"
    unfolding sqlReclaim_def Let_def snd_conv by (rule tableWf_update [OF assms]) (auto simp: rowWf_def)
  have "distinct (keysOf (filter P t))" if "distinct (keysOf t)" for P
    using that
  proof (induction t)
    case (Cons r t)
    then show ?case using keysOf_filter [of P t]
      by (cases "cIdempotencyKey r") (auto simp: keysOf_def)
  qed (simp add: keysOf_def)
  then show "tableWf (snd (sqlSweep now t))"
    using assms by (auto simp: tableWf_def sqlSweep_def distinct_map_filter list_all_iff)
qed

lemma ds_wf:
  assumes "tableWf (dsRows st)" "freshCall c"
  shows "tableWf (dsRows (callStore doStorage c st))"
proof (cases c)
  case (CEnqueue now j)
  then show ?thesis using assms insertJob_wf [OF assms(1), of j]
    by (auto simp: doStorage_ops ds_rows split: sum.splits prod.splits)
qed (simp_all add: doStorage_ops ds_rows sql_wf [OF assms(1)])

lemma d1_wf:
  assumes "tableWf t" "freshCall c"
  shows "tableWf (callStore d1Store c t)"
proof (cases c)
  case (CEnqueue now j)
  then show ?thesis using assms insertJob_wf [OF assms(1), of j]
    by (auto simp: d1_ops d1Enqueue_state split: sum.splits prod.splits)
qed (simp_all add: d1_ops d1Ack_state d1Fail_def Let_def sql_wf [OF assms(1)] assms(1))

text \<open>
  C32. The jobs table is well typed after every sequence of store calls, on both stores: ids and
  idempotency keys are unique; a leased row has an owner and an expiry and a queued one neither; a
  done row has a result with its expiry and no other row has a result; a failed row has its error;
  and no row counts more attempts than its policy allows.
\<close>

theorem table_well_typed:
  assumes "list_all freshCall calls"
  shows "tableWf (dsRows (fold (callStore doStorage) calls emptyDoStore)) \<and>
         tableWf (fold (callStore d1Store) calls [])"
proof -
  have "tableWf (dsRows st) \<Longrightarrow> tableWf (dsRows (fold (callStore doStorage) calls st))" for st
    using assms by (induction calls arbitrary: st) (auto simp: ds_wf)
  moreover have "tableWf t \<Longrightarrow> tableWf (fold (callStore d1Store) calls t)" for t
    using assms by (induction calls arbitrary: t) (auto simp: d1_wf)
  ultimately show ?thesis by (simp add: tableWf_def keysOf_def emptyDoStore_def)
qed

lemma table_well_typed_witness:
  "tableWf (dsRows (fold (callStore doStorage) [CEnqueue 5 (sampleJob ''j'' ''t''), CClaim 10 sampleClaim,
     CAck 11 ''j'' ''w'' (JNum 7) 60, CFail 12 ''j'' ''w'' (expiredRecord [])] emptyDoStore))"
  using table_well_typed [of "[CEnqueue 5 (sampleJob ''j'' ''t''), CClaim 10 sampleClaim,
     CAck 11 ''j'' ''w'' (JNum 7) 60, CFail 12 ''j'' ''w'' (expiredRecord [])]"]
  by (simp add: sampleJob_def)

text \<open>
  A worker that loses its lease costs the job nothing: neither the reclaim nor the next claim counts an
  attempt, so a job that always crashes its worker is run for ever.
\<close>

lemma lease_loss_not_counted:
  "map cRetryCount (snd (sqlReclaim now t)) = map cRetryCount t"
  "map cRetryCount (snd (sqlClaim now req t)) = map cRetryCount t"
proof -
  have U: "map cRetryCount (updateWhere P f t) = map cRetryCount t" if "\<And>r. cRetryCount (f r) = cRetryCount r" for P f t
    using that by (simp add: updateWhere_def)
  show "map cRetryCount (snd (sqlReclaim now t)) = map cRetryCount t" by (simp add: sqlReclaim_def Let_def U)
  have "map cRetryCount (snd (claimRows now req rows t)) = map cRetryCount t" for rows
    by (induction now req rows t rule: claimRows.induct) (auto simp: Let_def U leaseTo_def split: prod.splits)
  then show "map cRetryCount (snd (sqlClaim now req t)) = map cRetryCount t" by (simp add: sqlClaim_def)
qed

end
