(* ===== verification/JobLife.thy ===== *)
theory JobLife
  imports SchedulerClient TableTypes QueuesStore
begin

text \<open>
  The life of a job across the components: the two SQL stores and the queue adapter run side by side
  (\<open>src/scheduler/stores/do-storage.ts\<close>, \<open>d1.ts\<close>, \<open>queues.ts\<close>), the event log of the default store
  against its table, and the long-poll of a handle (\<open>src/api/scheduler.ts\<close>) against the calls that the
  object makes on the store at the same time.
\<close>

section \<open>The adapters agree\<close>

datatype StoreAnswer =
    AError "string option"
  | AJobs "PersistedJob list"
  | AAck "string + bool"
  | AFlag bool
  | AStatus JobStatus
  | ACount nat

fun storeAnswer :: "'st JobStore \<Rightarrow> StoreCall \<Rightarrow> 'st \<Rightarrow> StoreAnswer" where
  "storeAnswer S (CEnqueue now j) st = AError (fst (enqueueJ S now j st))"
| "storeAnswer S (CClaim now r) st = AJobs (fst (claimJ S now r st))"
| "storeAnswer S (CAck now i w v x) st = AAck (fst (ackJ S now i w v x st))"
| "storeAnswer S (CFail now i w e) st = AStatus (fst (failJ S now i w e st))"
| "storeAnswer S (CCancel now i r) st = AFlag (fst (cancelJ S now i r st))"
| "storeAnswer S (CFailQueued now i e) st = AFlag (fst (failQueuedJ S now i e st))"
| "storeAnswer S (CSweep now) st = ACount (fst (sweepExpiredJ S now st))"
| "storeAnswer S (CReclaim now) st = ACount (fst (reclaimJ S now st))"




lemma stringify_None [simp]: "stringify v = None \<longleftrightarrow> v = JUndef"
  by (cases v) auto









text \<open>
  They do not agree on the result of a function that returns nothing: the DO store takes the
  acknowledgement and reads it back as null, D1 throws and keeps the job leased.
\<close>

lemma undefined_ack_differs:
  "let hist = [CEnqueue 5 (sampleJob ''j'' ''t''), CClaim 10 sampleClaim]; c = CAck 11 ''j'' ''w'' JUndef 99
   in storeAnswer doStorage c (fold (callStore doStorage) hist emptyDoStore) = AAck (Inr True) \<and>
      storeAnswer d1Store c (fold (callStore d1Store) hist []) = AAck (Inl d1TypeError) \<and>
      dsStatus ''j'' (fold (callStore doStorage) (hist @ [c]) emptyDoStore) = Some JobStatus.Done \<and>
      sqlStatus ''j'' (fold (callStore d1Store) (hist @ [c]) []) = Some Leased"
  unfolding Let_def by (intro conjI; code_simp)

section \<open>The event log\<close>

text \<open>The kind of the newest event of a job.\<close>

definition lastKind :: "string \<Rightarrow> JobEvent list \<Rightarrow> EventKind option" where
  "lastKind i es = map_option evKind (find (\<lambda>e. evJobId e = i) (rev es))"

text \<open>
  What the newest event says about the status. Two changes of the table leave no event: the reclaim of an
  expired lease and the sweep of an expired result.
\<close>

fun explains :: "EventKind option \<Rightarrow> JobStatus option \<Rightarrow> bool" where
  "explains None s = (s = None)"
| "explains (Some EvEnqueued) s = (s = Some Queued)"
| "explains (Some EvRetrying) s = (s = Some Queued)"
| "explains (Some EvLeased) s = (s = Some Leased \<or> s = Some Queued)"
| "explains (Some EvDone) s = (s = Some JobStatus.Done \<or> s = None)"
| "explains (Some EvFailed) s = (s = Some Failed)"
| "explains (Some EvCancelled) s = (s = Some Cancelled)"
| "explains (Some EvExpired) s = False"

definition explained :: "string \<Rightarrow> DoStore \<Rightarrow> bool" where
  "explained i st = explains (lastKind i (dsEvents st)) (dsStatus i st)"

lemma find_filter: "(\<And>x. P x \<Longrightarrow> Q x) \<Longrightarrow> find P (filter Q xs) = find P xs"
  by (induction xs) auto

lemma lastKind_emit [simp]:
  "lastKind i (dsEvents (dsEmit now j k d st)) = (if i = j then Some k else lastKind i (dsEvents st))"
  by (simp add: lastKind_def dsEmit_def rev_filter)
    (auto intro!: arg_cong [where f = "map_option evKind"] find_filter)

lemma lastKind_emits [simp]:
  "lastKind i (dsEvents (fold (\<lambda>j. dsEmit now (pjId j) EvLeased d) js st)) =
     (if i \<in> pjId ` set js then Some EvLeased else lastKind i (dsEvents st))"
  by (induction js arbitrary: st) auto

lemma dsStatus_emit [simp]: "dsStatus i (dsEmit now j k d st) = dsStatus i st"
  by (simp add: dsStatus_def)

lemma sweep_row:
  assumes "goodTable t"
  shows "rowById i (snd (sqlSweep now t)) =
    (case rowById i t of None \<Rightarrow> None | Some r \<Rightarrow> if resultExpired now r then None else Some r)"
proof (cases "rowById i t")
  case None
  then have "rowById i (snd (sqlSweep now t)) = None" by (auto simp: sqlSweep_def rowById_None)
  then show ?thesis using None by simp
next
  case (Some r)
  have d: "distinct (map cId (snd (sqlSweep now t)))"
    using goodTable_distinct [OF sqlSweep_good [OF assms]] .
  have only: "q \<in> set t \<Longrightarrow> cId q = i \<Longrightarrow> q = r" for q
    using rowById_in [OF goodTable_distinct [OF assms], of q] Some by simp
  have r: "r \<in> set t" "cId r = i" using rowById_SomeD [OF Some] by auto
  show ?thesis
  proof (cases "resultExpired now r")
    case True
    then have "i \<notin> cId ` set (snd (sqlSweep now t))" using only by (auto simp: sqlSweep_def)
    then show ?thesis using Some True by (simp add: rowById_None)
  next
    case False
    then have "r \<in> set (snd (sqlSweep now t))" using r by (simp add: sqlSweep_def)
    from rowById_in [OF d this] show ?thesis using Some False r by simp
  qed
qed

lemma explained_enqueue:
  assumes "explained i st"
  shows "explained i (snd (dsEnqueue now j st))"
proof (cases "insertJob j (dsRows st)")
  case (Inr p)
  obtain b t' where p: "p = (b, t')" by force
  note row = insertJob_row [OF Inr [unfolded p]]
  show ?thesis
  proof (cases b)
    case True
    then show ?thesis using assms row Inr p
      by (auto simp: explained_def dsEnqueue_def dsStatus_def sqlStatus_def split: option.splits)
  qed (use assms Inr p in \<open>simp add: dsEnqueue_def\<close>)
qed (use assms in \<open>simp add: dsEnqueue_def\<close>)

lemma explained_claim:
  assumes "explained i st" "dsGood st"
  shows "explained i (snd (dsClaim now req st))"
proof -
  obtain js t where c: "sqlClaim now req (dsRows st) = (js, t)" by force
  then have "sqlStatus i t = (if i \<in> pjId ` set js then Some Leased else dsStatus i st)"
    using sqlClaim_facts(2) [OF assms(2) c, of i] by (simp add: dsStatus_def)
  then show ?thesis using assms(1) c by (simp add: explained_def dsClaim_def dsStatus_def)
qed

lemma explained_fail:
  assumes "explained i st" "dsGood st"
  shows "explained i (snd (dsFail now k w e st))"
proof -
  obtain s t where f: "sqlFail k w e (dsRows st) = (s, t)" by force
  have "q = Failed \<or> q = Queued" if "s = Some q" for q
    using sqlFail_facts(2) [OF assms(2) f] that by (auto simp: failStatus_def split: option.splits if_splits)
  then show ?thesis using assms(1) f sqlFail_facts(3) [OF assms(2) f, of i]
    by (cases s) (auto simp: explained_def dsFail_def dsStatus_def)
qed

lemma explained_call:
  assumes "explained i st" "dsGood st"
  shows "explained i (callStore doStorage c st)"
proof (cases c)
  case (CEnqueue now j)
  then show ?thesis using explained_enqueue [OF assms(1)] by (simp add: doStorage_ops)
next
  case (CClaim now r)
  then show ?thesis using explained_claim [OF assms] by (simp add: doStorage_ops)
next
  case (CAck now k w v x)
  obtain ok t where "sqlAck k w (enc v) x (dsRows st) = (ok, t)" by force
  then show ?thesis using CAck assms(1) sqlAck_facts(3) [OF assms(2), of k w "enc v" x ok t i]
    by (auto simp: doStorage_ops explained_def dsAck_def)
next
  case (CFail now k w e)
  then show ?thesis using explained_fail [OF assms] by (simp add: doStorage_ops)
next
  case (CCancel now k why)
  obtain ok t where "sqlCancel k (dsRows st) = (ok, t)" by force
  then show ?thesis using CCancel assms(1) sqlCancel_facts(3) [OF assms(2), of k ok t i]
    by (auto simp: doStorage_ops explained_def dsCancel_def)
next
  case (CFailQueued now k e)
  obtain ok t where "sqlFailQueued k e (dsRows st) = (ok, t)" by force
  then show ?thesis using CFailQueued assms(1) sqlFailQueued_facts(3) [OF assms(2), of k e ok t i]
    by (auto simp: doStorage_ops explained_def dsFailQueued_def)
next
  case (CSweep now)
  have "explains k s' \<Longrightarrow> s = s' \<or> (s' = Some JobStatus.Done \<and> s = None) \<Longrightarrow> explains k s" for k s s'
    by (cases "(k, s')" rule: explains.cases) auto
  moreover have "sqlStatus i (snd (sqlSweep now (dsRows st))) = dsStatus i st \<or>
      (dsStatus i st = Some JobStatus.Done \<and> sqlStatus i (snd (sqlSweep now (dsRows st))) = None)"
    unfolding dsStatus_def sqlStatus_def sweep_row [OF assms(2)]
    by (cases "rowById i (dsRows st)") (auto simp: resultExpired_def)
  ultimately show ?thesis using CSweep assms(1)
    by (auto simp: doStorage_ops explained_def dsSweepExpired_def split: prod.split)
next
  case (CReclaim now)
  obtain n t where r: "sqlReclaim now (dsRows st) = (n, t)" by force
  have "explains k s \<Longrightarrow> s = Some Leased \<Longrightarrow> explains k (Some Queued)" for k s
    by (cases "(k, s)" rule: explains.cases) auto
  then show ?thesis using CReclaim assms(1) r sqlReclaim_facts(2) [OF assms(2) r, of i]
      tableLease_leased [of "dsRows st" i]
    by (auto simp: doStorage_ops explained_def dsReclaimExpiredLeases_def)
qed

text \<open>
  C40. The event log explains the table: after every history of calls the newest event of a job determines
  its status, up to the two changes that leave no event, the reclaim of a lease and the sweep of a
  result. A job that has no event is not in the table, and the kind \<open>expired\<close> is never the newest.
\<close>

theorem events_explain_status:
  "explains (lastKind i (dsEvents (fold (callStore doStorage) hist emptyDoStore)))
     (dsStatus i (fold (callStore doStorage) hist emptyDoStore))"
proof -
  have "explained i st' \<Longrightarrow> dsGood st' \<Longrightarrow> explained i (fold (callStore doStorage) hist st')" for st'
    by (induction hist arbitrary: st') (auto simp: explained_call ds.good_call)
  moreover have "explained i emptyDoStore"
    by (simp add: explained_def emptyDoStore_def lastKind_def dsStatus_def sqlStatus_def)
  ultimately show ?thesis by (simp add: explained_def)
qed

section \<open>Delivery\<close>

text \<open>
  A timeline of a job's handle and the object: the calls on the store in their order, whoever makes
  them, and the rounds of the long-poll, each with the client's clock and the clock of the object.
\<close>

datatype Moment = MCall StoreCall | MPoll int int

fun observe :: "string \<Rightarrow> Moment list \<Rightarrow> DoStore \<Rightarrow> (int \<times> (thrown + JobResult)) list" where
  "observe i [] st = []"
| "observe i (MCall c # ms) st = observe i ms (callStore doStorage c st)"
| "observe i (MPoll client server # ms) st = (client, Inr (dsResult server i st)) # observe i ms st"

fun replay :: "Moment list \<Rightarrow> DoStore \<Rightarrow> DoStore" where
  "replay [] st = st"
| "replay (MCall c # ms) st = replay ms (callStore doStorage c st)"
| "replay (MPoll client server # ms) st = replay ms st"

text \<open>Before the acknowledgement: nobody enqueues the id again and the client has not given up.\<close>

fun waiting :: "string \<Rightarrow> int \<Rightarrow> Moment \<Rightarrow> bool" where
  "waiting i giveUp (MCall (CEnqueue now j)) = (pjId j \<noteq> i)"
| "waiting i giveUp (MCall _) = True"
| "waiting i giveUp (MPoll client server) = (client \<le> giveUp)"

text \<open>After it: the result is not swept before it expires.\<close>

fun keepsResult :: "int \<Rightarrow> StoreCall \<Rightarrow> bool" where
  "keepsResult x (CSweep now) = (now \<le> x)"
| "keepsResult x _ = True"

abbreviation activeStatus :: "JobStatus option \<Rightarrow> bool" where
  "activeStatus s \<equiv> s = Some Queued \<or> s = Some Leased"

lemma call_ids:
  "cId ` set (dsRows (callStore doStorage c st)) \<subseteq>
     cId ` set (dsRows st) \<union> (case c of CEnqueue now j \<Rightarrow> {pjId j} | _ \<Rightarrow> {})"
proof (cases c)
  case (CEnqueue now j)
  then show ?thesis using insertJob_row [of j "dsRows st"]
    by (auto simp: doStorage_ops ds_rows split: sum.splits if_splits)
next
  case (CClaim now r)
  then show ?thesis using claimRows_ids [of now r "claimCandidates now r (dsRows st)" "dsRows st"]
    by (simp add: doStorage_ops ds_rows sqlClaim_def flip: set_map)
qed (auto simp: doStorage_ops ds_rows sqlAck_def sqlFail_def sqlCancel_def sqlFailQueued_def sqlSweep_def
      sqlReclaim_def Let_def updateWhere_def failRow_def split: if_splits)

lemma active_before:
  assumes "dsGood st" "waiting i giveUp (MCall c)" "activeStatus (dsStatus i (callStore doStorage c st))"
  shows "activeStatus (dsStatus i st)"
proof (rule ccontr)
  assume no: "\<not> activeStatus (dsStatus i st)"
  show False
  proof (cases "dsStatus i st")
    case (Some s)
    then have "terminal s" using no by (cases s) auto
    show ?thesis
    proof (cases "isSweep c")
      case True
      then obtain now where "c = CSweep now" by (cases c) auto
      then show ?thesis using assms(3) no sweep_row [OF assms(1), of i now]
        by (cases "rowById i (dsRows st)")
          (auto simp: doStorage_ops ds_rows sqlStatus_def split: if_splits)
    next
      case False
      have "dsStatus i (callStore doStorage c st) = Some s"
        using ds.terminal_stays [OF assms(1), of i s c] Some \<open>terminal s\<close> False by (simp add: doStorage_ops)
      then show ?thesis using assms(3) \<open>terminal s\<close> by auto
    qed
  next
    case None
    then have n: "rowById i (dsRows st) = None" by (simp add: dsStatus_def sqlStatus_def)
    have "cId ` set (dsRows (callStore doStorage c st)) \<subseteq> cId ` set (dsRows st) \<union> (case c of CEnqueue now j \<Rightarrow> {pjId j} | _ \<Rightarrow> {})"
      by (rule call_ids)
    then have "i \<notin> cId ` set (dsRows (callStore doStorage c st))"
      using n assms(2) by (cases c) (auto simp: rowById_None)
    then show ?thesis using assms(3) by (simp add: dsStatus_def sqlStatus_def flip: rowById_None)
  qed
qed

lemma replay_good: "dsGood st \<Longrightarrow> dsGood (replay ms st)"
  by (induction ms st rule: replay.induct) (auto intro: ds.good_call)

lemma active_replay:
  assumes "dsGood st" "list_all (waiting i giveUp) ms" "activeStatus (dsStatus i (replay ms st))"
  shows "activeStatus (dsStatus i st)"
  using assms
proof (induction ms st rule: replay.induct)
  case (2 c ms st)
  have "activeStatus (dsStatus i (callStore doStorage c st))"
    using 2(1) ds.good_call [OF 2(2)] 2(3,4) by simp
  moreover have "waiting i giveUp (MCall c)" using 2(3) by simp
  ultimately show ?case using active_before [OF 2(2)] by blast
qed simp_all

text \<open>The result of a queued or running job makes the loop poll again.\<close>

lemma poll_active:
  assumes "activeStatus (dsStatus i st)" "client \<le> giveUp"
  shows "pollRound client giveUp i (dsResult server i st) = PollAgain"
  using assms by (auto simp: pollRound_def dsResult_def sqlResult_def dsStatus_def sqlStatus_def split: option.splits)

lemma loop_waits:
  assumes "dsGood st" "list_all (waiting i giveUp) ms" "activeStatus (dsStatus i (replay ms st))"
  shows "resultLoop giveUp i (observe i (ms @ rest) st) = resultLoop giveUp i (observe i rest (replay ms st))"
  using assms
proof (induction ms st rule: replay.induct)
  case (2 c ms st)
  then show ?case using ds.good_call [OF 2(2)] by simp
next
  case (3 client server ms st)
  then have "activeStatus (dsStatus i st)" using active_replay [OF 3(2), of i giveUp ms] by simp
  then show ?case using 3 poll_active by simp
qed simp

text \<open>A done row stays as it is until its result is swept.\<close>

lemma done_row_call:
  assumes "dsGood st" "rowById i (dsRows st) = Some r" "cStatus r = JobStatus.Done"
    and "cResultExpires r = Some x" "keepsResult x c"
  shows "rowById i (dsRows (callStore doStorage c st)) = Some r"
proof -
  have U: "rowById i (updateWhere P f (dsRows st)) = Some r" if "\<not> P r" "\<And>q. cId (f q) = cId q" for P f
    using assms(2) that by (simp add: rowById_update)
  show ?thesis
  proof (cases c)
    case (CEnqueue now j)
    then show ?thesis using assms(2) insertJob_row [of j "dsRows st"]
      by (auto simp: doStorage_ops ds_rows split: sum.splits if_splits)
  next
    case (CClaim now req)
    obtain js t where cl: "sqlClaim now req (dsRows st) = (js, t)" by force
    then show ?thesis using CClaim claimRows_rows [OF assms(1) cl [unfolded sqlClaim_def], of i] assms(2,3)
      by (auto simp: doStorage_ops ds_rows claimable_def split: if_splits)
  next
    case (CSweep now)
    then show ?thesis using assms sweep_row [OF assms(1), of i now]
      by (simp add: doStorage_ops ds_rows resultExpired_def)
  qed (use assms(3) in \<open>simp_all add: doStorage_ops ds_rows sqlAck_def sqlFail_def sqlCancel_def sqlFailQueued_def
      sqlReclaim_def Let_def U ownsLease_def active_def\<close>)
qed

lemma done_row_run:
  assumes "dsGood st" "rowById i (dsRows st) = Some r" "cStatus r = JobStatus.Done"
    and "cResultExpires r = Some x" "list_all (keepsResult x) cs"
  shows "rowById i (dsRows (fold (callStore doStorage) cs st)) = Some r"
  using assms
proof (induction cs arbitrary: st)
  case (Cons c cs)
  have "rowById i (dsRows (callStore doStorage c st)) = Some r"
    using done_row_call [OF Cons.prems(1-4)] Cons.prems(5) by simp
  with Cons ds.good_call [OF Cons.prems(1), of c] show ?case by simp
qed simp

lemma observe_calls [simp]:
  "observe i (map MCall cs @ ms) st = observe i ms (fold (callStore doStorage) cs st)"
  by (induction cs arbitrary: st) simp_all

lemma acked_row:
  assumes "dsGood st" "fst (dsAck now i w v x st)"
  shows "\<exists>r. rowById i (dsRows st) = Some r \<and> ownsLease i w r"
  using sqlAck_facts(2) [OF assms(1), of i w "enc v" x] assms(2) ownsLease_lease [of i "dsRows st" w]
  by (cases "sqlAck i w (enc v) x (dsRows st)") (simp add: ds_rows)

text \<open>
  C18. A job is delivered: whatever calls the object makes on the store before and after, once an
  acknowledgement of the job with a JSON value is accepted, the next poll of the handle before the
  result's expiry and before the client gives up resolves \<open>result()\<close> to that value and reports the job
  done; every poll before it polls again. The id is not enqueued twice and the result not swept early.
\<close>

theorem job_delivered:
  assumes st: "st = fold (callStore doStorage) hist emptyDoStore"
    and giveUp: "giveUp = giveUpAfter start (hdDeadline jh) (hdTtlMs jh)"
    and "list_all (waiting (hdId jh) giveUp) before"
    and "fst (dsAck now (hdId jh) w v x (replay before st))" and "jsonSafe v" and "x \<noteq> 0"
    and "list_all (keepsResult x) after" and "client \<le> giveUp" and "server \<le> x"
  shows "handleResult start jh
     (observe (hdId jh) (before @ MCall (CAck now (hdId jh) w v x) # map MCall after @ MPoll client server # rest) st) =
     (Some (Inr (Some v)), [schedulerNote client (hdId jh) EvDone None])"
proof -
  let ?i = "hdId jh"
  let ?s1 = "replay before st" let ?s2 = "callStore doStorage (CAck now ?i w v x) ?s1"
  let ?s3 = "fold (callStore doStorage) after ?s2"
  have g: "dsGood st" unfolding st by (rule dsGood_run) simp
  then have g1: "dsGood ?s1" by (rule replay_good)
  obtain r where r: "rowById ?i (dsRows ?s1) = Some r" "ownsLease ?i w r"
    using acked_row [OF g1 assms(4)] by auto
  then have "activeStatus (dsStatus ?i ?s1)" by (simp add: dsStatus_def sqlStatus_def ownsLease_def)
  note wait = loop_waits [OF g assms(3) this]
  let ?r = "r\<lparr>cStatus := JobStatus.Done, cResult := Some (enc v), cResultExpires := Some x\<rparr>"
  have d: "rowById ?i (dsRows ?s2) = Some ?r"
    using sqlAck_row [OF r, of "enc v" x] by (simp add: doStorage_ops ds_rows)
  have "rowById ?i (dsRows ?s3) = Some ?r"
    by (rule done_row_run [OF ds.good_call [OF g1] d _ _ assms(7)]) simp_all
  then have "dsResult server ?i ?s3 = \<lparr>jrStatus = JobStatus.Done, jrValue = Some v, jrError = None\<rparr>"
    using assms(5,9) by (simp add: dsResult_def sqlResult_def)
  then show ?thesis using wait assms(8)
    by (simp add: handleResult_def giveUp [symmetric] pollRound_def pollEvents_def)
qed

lemma job_delivered_witness:
  "handleResult 5 \<lparr>hdId = ''j'', hdDeadline = 1000, hdTtlMs = Some 50\<rparr>
     (observe ''j'' [MPoll 7 7, MCall (CClaim 10 sampleClaim), MPoll 11 11, MCall (CFail 12 ''j'' ''w'' sampleFail),
        MCall (CClaim 13 sampleClaim), MCall (CAck 14 ''j'' ''w'' (JNum 7) 60), MCall (CReclaim 20), MCall (CSweep 21),
        MPoll 22 22]
      (fold (callStore doStorage) [CEnqueue 5 (sampleJob ''j'' ''t'')] emptyDoStore)) =
   (Some (Inr (Some (JNum 7))), [schedulerNote 22 ''j'' EvDone None])"
proof -
  let ?b = "[MPoll 7 7, MCall (CClaim 10 sampleClaim), MPoll 11 11, MCall (CFail 12 ''j'' ''w'' sampleFail),
        MCall (CClaim 13 sampleClaim)]"
  let ?h = "[CEnqueue 5 (sampleJob ''j'' ''t'')]"
  have "fst (dsAck 14 ''j'' ''w'' (JNum 7) 60 (replay ?b (fold (callStore doStorage) ?h emptyDoStore)))" by code_simp
  then show ?thesis
    using job_delivered [OF refl refl, of "\<lparr>hdId = ''j'', hdDeadline = 1000, hdTtlMs = Some 50\<rparr>" 5 ?b 14 "''w''" "JNum 7" 60 ?h
        "[CReclaim 20, CSweep 21]" 22 22 "[]"]
    by (simp add: giveUpAfter_def Let_def)
qed

end
