(* ===== verification/ExampleRaytracer.thy ===== *)
theory ExampleRaytracer
  imports Prelude "HOL-Library.Multiset"
begin

text \<open>
  The ray tracer (\<open>examples/raytracer/src/index.ts\<close>): the stripes an image is cut into, the bytes of a
  stripe, and the image that is put together from the stripes as they come back. The shading of a pixel
  is floating-point code and a parameter: \<open>pixel py px\<close> are the bytes pushed for a pixel. The counts
  are those after the limits of the query.
\<close>

record TileSpec =
  tsY0 :: nat
  tsY1 :: nat
  tsWidth :: nat
  tsHeight :: nat
  tsSpp :: nat

record TileOut =
  toY0 :: nat
  toBytes :: "nat list"

text \<open>\<open>Math.ceil(h / tiles)\<close>; the loop over the tiles does not run for no tile.\<close>

definition rowsPerTile :: "nat \<Rightarrow> nat \<Rightarrow> nat" where
  "rowsPerTile h tiles = (h + tiles - 1) div tiles"

fun tileLoop :: "nat \<Rightarrow> nat \<Rightarrow> nat \<Rightarrow> nat \<Rightarrow> nat list \<Rightarrow> TileSpec list" where
  "tileLoop w h rows spp [] = []"
| "tileLoop w h rows spp (t # ts) =
     (let y0 = t * rows; y1 = min h (y0 + rows) in
      if y1 \<le> y0 then []
      else \<lparr>tsY0 = y0, tsY1 = y1, tsWidth = w, tsHeight = h, tsSpp = spp\<rparr> # tileLoop w h rows spp ts)"

definition tileSpecs :: "nat \<Rightarrow> nat \<Rightarrow> nat \<Rightarrow> nat \<Rightarrow> TileSpec list" where
  "tileSpecs w h tiles spp = tileLoop w h (rowsPerTile h tiles) spp [0..<tiles]"

definition renderTile :: "(nat \<Rightarrow> nat \<Rightarrow> nat \<times> nat \<times> nat) \<Rightarrow> TileSpec \<Rightarrow> TileOut" where
  "renderTile pixel spec =
     \<lparr>toY0 = tsY0 spec,
      toBytes = concat (map (\<lambda>py. concat (map (\<lambda>px. case pixel py px of (r, g, b) \<Rightarrow> [r, g, b])
                  [0..<tsWidth spec])) [tsY0 spec..<tsY1 spec])\<rparr>"

text \<open>\<open>buf.set(bytes, cursor)\<close> throws (\<open>None\<close>) if the bytes do not fit.\<close>

definition bufSet :: "nat list \<Rightarrow> nat \<Rightarrow> nat list \<Rightarrow> nat list option" where
  "bufSet bytes cursor buf =
     (if length buf < cursor + length bytes then None
      else Some (take cursor buf @ bytes @ drop (cursor + length bytes) buf))"

fun copyTiles :: "nat \<Rightarrow> TileOut list \<Rightarrow> nat list \<Rightarrow> nat list option" where
  "copyTiles cursor [] buf = Some buf"
| "copyTiles cursor (t # ts) buf =
     (case bufSet (toBytes t) cursor buf of
        None \<Rightarrow> None
      | Some buf' \<Rightarrow> copyTiles (cursor + length (toBytes t)) ts buf')"

definition assemble :: "nat \<Rightarrow> nat \<Rightarrow> TileOut list \<Rightarrow> nat list option" where
  "assemble w h tilesOut = copyTiles 0 (sort_key toY0 tilesOut) (replicate (w * h * 3) 0)"

definition ppmHeader :: "nat \<Rightarrow> nat \<Rightarrow> nat list" where
  "ppmHeader w h = map of_char (''P6'' @ [CHR 0x0A] @ showNat w @ '' '' @ showNat h @ [CHR 0x0A] @ ''255'' @ [CHR 0x0A])"

definition ppmImage :: "nat \<Rightarrow> nat \<Rightarrow> TileOut list \<Rightarrow> nat list option" where
  "ppmImage w h tilesOut = map_option (\<lambda>buf. ppmHeader w h @ buf) (assemble w h tilesOut)"

section \<open>The image\<close>

abbreviation rowBytes :: "(nat \<Rightarrow> nat \<Rightarrow> nat \<times> nat \<times> nat) \<Rightarrow> nat \<Rightarrow> nat \<Rightarrow> nat list" where
  "rowBytes pixel w py \<equiv> concat (map (\<lambda>px. case pixel py px of (r, g, b) \<Rightarrow> [r, g, b]) [0..<w])"

lemma length_rowBytes [simp]: "length (rowBytes pixel w py) = 3 * w"
  by (induction w) (auto split: prod.split)

lemma length_rows [simp]: "length (concat (map (rowBytes pixel w) ys)) = 3 * w * length ys"
  by (induction ys) (simp_all add: algebra_simps)

lemma rows_cover: "0 < tiles \<Longrightarrow> h \<le> tiles * rowsPerTile h tiles"
  using dividend_less_div_times [of tiles "h + tiles - 1"] by (simp add: rowsPerTile_def mult.commute)

text \<open>The stripes are consecutive: from tile \<open>t\<close> on they hold the rows from \<open>t * rows\<close> on.\<close>

lemma tileLoop_rows:
  assumes "0 < rows" "t \<le> n" "h \<le> n * rows"
  shows "concat (map (\<lambda>s. [tsY0 s..<tsY1 s]) (tileLoop w h rows spp [t..<n])) = [t * rows..<h]"
  using assms
proof (induction "n - t" arbitrary: t)
  case 0
  then show ?case by simp
next
  case (Suc k)
  then have n: "[t..<n] = t # [Suc t..<n]" by (simp add: upt_conv_Cons)
  show ?case
  proof (cases "h \<le> t * rows")
    case False
    have IH: "concat (map (\<lambda>s. [tsY0 s..<tsY1 s]) (tileLoop w h rows spp [Suc t..<n])) = [Suc t * rows..<h]"
      using Suc by (intro Suc.hyps(1)) simp_all
    show ?thesis
    proof (cases "h \<le> t * rows + rows")
      case True
      then show ?thesis using False IH Suc.prems(1) unfolding n by (simp add: Let_def add.commute)
    next
      case more: False
      have "[t * rows..<h] = [t * rows..<t * rows + rows] @ [t * rows + rows..<h]"
        using more upt_add_eq_append [of "t * rows" "t * rows + rows" "h - (t * rows + rows)"] by simp
      then show ?thesis using False more IH Suc.prems(1) unfolding n by (simp add: Let_def add.commute)
    qed
  qed (use n in simp)
qed

lemma tileLoop_sorted:
  "sorted (map tsY0 (tileLoop w h rows spp [t..<n])) \<and> distinct (map tsY0 (tileLoop w h rows spp [t..<n])) \<and>
   list_all (\<lambda>s. t * rows \<le> tsY0 s \<and> tsWidth s = w) (tileLoop w h rows spp [t..<n])"
proof (induction "n - t" arbitrary: t)
  case (Suc k)
  then have n: "[t..<n] = t # [Suc t..<n]" by (simp add: upt_conv_Cons)
  have IH: "sorted (map tsY0 (tileLoop w h rows spp [Suc t..<n]))" "distinct (map tsY0 (tileLoop w h rows spp [Suc t..<n]))"
    "list_all (\<lambda>s. Suc t * rows \<le> tsY0 s \<and> tsWidth s = w) (tileLoop w h rows spp [Suc t..<n])"
    using Suc(1) [of "Suc t"] Suc(2) by auto
  show ?case
  proof (cases "min h (t * rows + rows) \<le> t * rows")
    case False
    then have "0 < rows" by auto
    then show ?thesis using IH unfolding n by (force simp: Let_def list_all_iff)
  qed (simp add: n)
qed simp

lemma render_rows:
  "list_all (\<lambda>s. tsWidth s = w) specs \<Longrightarrow>
   concat (map toBytes (map (renderTile pixel) specs)) =
     concat (map (rowBytes pixel w) (concat (map (\<lambda>s. [tsY0 s..<tsY1 s]) specs)))"
  by (induction specs) (simp_all add: renderTile_def)

lemma copyTiles_concat:
  "cursor + length (concat (map toBytes ts)) \<le> length buf \<Longrightarrow>
   copyTiles cursor ts buf = Some (take cursor buf @ concat (map toBytes ts) @
     drop (cursor + length (concat (map toBytes ts))) buf)"
proof (induction ts arbitrary: cursor buf)
  case (Cons t ts)
  have "bufSet (toBytes t) cursor buf = Some (take cursor buf @ toBytes t @ drop (cursor + length (toBytes t)) buf)"
    using Cons.prems by (simp add: bufSet_def)
  then show ?case
    using Cons.prems Cons.IH [of "cursor + length (toBytes t)"
        "take cursor buf @ toBytes t @ drop (cursor + length (toBytes t)) buf"]
    by (simp add: algebra_simps)
qed simp

text \<open>
  The distributed image is the image: whatever the number of tiles and the order in which they come
  back, the buffer put together from the rendered stripes is the row-by-row rendering of the whole
  image, and no write is out of bounds.
\<close>

theorem raytracer_image:
  assumes "0 < tiles" "mset tilesOut = mset (map (renderTile pixel) (tileSpecs w h tiles spp))"
  shows "ppmImage w h tilesOut = Some (ppmHeader w h @ concat (map (rowBytes pixel w) [0..<h]))"
proof -
  let ?specs = "tileSpecs w h tiles spp" let ?outs = "map (renderTile pixel) ?specs"
  note S = tileLoop_sorted [of w h "rowsPerTile h tiles" spp 0 tiles]
  have y0: "map toY0 ?outs = map tsY0 ?specs" by (simp add: renderTile_def)
  have "distinct (map toY0 ?outs)" "sorted (map toY0 ?outs)" unfolding y0 using S by (simp_all add: tileSpecs_def)
  then have "inj_on toY0 (set tilesOut)" unfolding mset_eq_setD [OF assms(2)] by (metis distinct_map)
  with assms(2) have sorted: "sort_key toY0 tilesOut = ?outs"
    using \<open>sorted (map toY0 ?outs)\<close> by (rule sort_key_inj_key_eq)
  have "list_all (\<lambda>s. tsWidth s = w) ?specs" using S by (simp add: tileSpecs_def list_all_iff)
  then have "concat (map toBytes ?outs) = concat (map (rowBytes pixel w) (concat (map (\<lambda>s. [tsY0 s..<tsY1 s]) ?specs)))"
    by (rule render_rows)
  moreover have "concat (map (\<lambda>s. [tsY0 s..<tsY1 s]) ?specs) = [0..<h]"
  proof (cases "rowsPerTile h tiles = 0")
    case True
    then have "h = 0" using rows_cover [OF assms(1), of h] by simp
    then show ?thesis by (cases tiles) (simp_all add: tileSpecs_def upt_rec Let_def)
  next
    case False
    then show ?thesis using tileLoop_rows [of "rowsPerTile h tiles" 0 tiles h w spp] rows_cover [OF assms(1), of h]
      by (simp add: tileSpecs_def)
  qed
  ultimately have bytes: "concat (map toBytes ?outs) = concat (map (rowBytes pixel w) [0..<h])" by simp
  then have "length (concat (map toBytes ?outs)) = w * h * 3" by simp
  then show ?thesis
    using copyTiles_concat [of 0 ?outs "replicate (w * h * 3) 0"] bytes
    by (simp add: ppmImage_def assemble_def sorted)
qed

lemma raytracer_image_witness:
  "ppmImage 2 3 (rev (map (renderTile (\<lambda>y x. (y, x, 7))) (tileSpecs 2 3 2 1))) =
     Some (ppmHeader 2 3 @ [0, 0, 7, 0, 1, 7, 1, 0, 7, 1, 1, 7, 2, 0, 7, 2, 1, 7])"
proof -
  have "concat (map (rowBytes (\<lambda>y x. (y, x, 7)) 2) [0..<3]) =
      [0, 0, 7, 0, 1, 7, 1, 0, 7, 1, 1, 7, 2, 0, 7, 2, 1, 7]" by code_simp
  then show ?thesis
    using raytracer_image [of 2 "rev (map (renderTile (\<lambda>y x. (y, x, 7))) (tileSpecs 2 3 2 1))" "\<lambda>y x. (y, x, 7)" 2 3 1]
    by simp
qed

end
