(* ===== verification/ExampleBuild.thy ===== *)
theory ExampleBuild
  imports SerializeFn Auth
begin

text \<open>
  The build pipeline (\<open>examples/build-pipeline/src/index.ts\<close>): the generated sources and the function that
  one isolate runs on one file, from the tokens to the hash. SHA-256 is the platform's and a parameter;
  the figures of the summary that are rounded floating-point numbers are not modelled.
\<close>

record SrcFile =
  sfId :: nat
  sfName :: string
  sfSource :: string

record BuildResult =
  brId :: nat
  brName :: string
  brInputBytes :: nat
  brOutputBytes :: nat
  brCyclomatic :: nat
  brHash :: string

section \<open>The generated sources\<close>

definition genIdents :: "string list" where
  "genIdents = [''count'', ''value'', ''data'', ''item'', ''result'', ''node'', ''tmp'', ''i'', ''j'', ''k'']"

definition genLine :: "nat \<Rightarrow> nat \<Rightarrow> string" where
  "genLine n i =
     (let a = genIdents ! ((i + n) mod 10); b = genIdents ! ((i * 3 + n) mod 10); k = showNat i in
      if i mod 6 = 0 then ''  let '' @ a @ '' = '' @ k @ '';''
      else if i mod 6 = 1 then
        ''  if ('' @ a @ '' > '' @ b @ '') { '' @ a @ '' += '' @ b @ ''; } else { '' @ a @ '' -= '' @ b @ ''; }''
      else if i mod 6 = 2 then
        ''  for (let '' @ a @ '' = 0; '' @ a @ '' < '' @ b @ ''; '' @ a @ ''++) { '' @ b @ '' ^= '' @ a @ ''; }''
      else if i mod 6 = 3 then ''  // dead-code comment '' @ k
      else if i mod 6 = 4 then ''  '' @ a @ '' = '' @ a @ '' * '' @ b @ '' + '' @ k @ '';''
      else ''  while ('' @ a @ ''--) '' @ b @ '' += '' @ k @ '';'')"

text \<open>The loop runs while \<open>i < size / 24\<close>.\<close>

definition genSource :: "nat \<Rightarrow> string" where
  "genSource n =
     (let size = [180, 320, 640, 1200, 2400] ! (n mod 5) in
      join [CHR 0x0A] ([''// Auto-generated source '' @ showNat n, ''function process'' @ showNat n @ ''(input) {''] @
        map (genLine n) (filter (\<lambda>i. 24 * i < size) [0..<size]) @ [''  return input;'', ''}'']))"

definition buildInputs :: "nat \<Rightarrow> SrcFile list" where
  "buildInputs files =
     map (\<lambda>n. \<lparr>sfId = n, sfName = ''module-'' @ showNat n @ ''.ts'', sfSource = genSource n\<rparr>) [0..<files]"

section \<open>One file\<close>

definition isSeparator :: "char \<Rightarrow> bool" where
  "isSeparator c \<longleftrightarrow> c \<in> set ''(){},;=+*/<>!&|^~%-''"

definition isPlain :: "char \<Rightarrow> bool" where
  "isPlain c \<longleftrightarrow> \<not> isSpace c \<and> \<not> isSeparator c"

text \<open>
  \<open>split\<close> with a captured separator and the empty pieces filtered out: runs of white space, single
  separators, and what is between them.
\<close>

function srcTokens :: "string \<Rightarrow> string list" where
  "srcTokens [] = []"
| "srcTokens (c # s) =
     (if isSpace c then (c # takeWhile isSpace s) # srcTokens (dropWhile isSpace s)
      else if isSeparator c then [c] # srcTokens s
      else (c # takeWhile isPlain s) # srcTokens (dropWhile isPlain s))"
  by pat_completeness auto
termination by (relation "measure length") (auto simp: less_Suc_eq_le length_dropWhile_le)

definition liveTokens :: "string list \<Rightarrow> string list" where
  "liveTokens ts = filter (\<lambda>t. \<not> startsWith ''//'' t) ts"

definition branchKeywords :: "string list" where
  "branchKeywords = [''if'', ''while'', ''for'', ''case'', ''&&'', ''||'', ''?'']"

definition cyclomatic :: "string list \<Rightarrow> nat" where
  "cyclomatic live = 1 + length (filter (\<lambda>t. t \<in> set branchKeywords) live)"

definition reservedWords :: "string list" where
  "reservedWords = [''function'', ''return'', ''let'', ''const'', ''var'', ''if'', ''else'', ''while'', ''for'', ''do'',
     ''break'', ''continue'', ''switch'', ''case'', ''default'', ''true'', ''false'', ''null'', ''undefined'', ''new'',
     ''this'', ''typeof'', ''instanceof'']"

definition renamed :: "string \<Rightarrow> bool" where
  "renamed t \<longleftrightarrow> validIdentifier t \<and> length t < 5 \<and> t \<notin> set reservedWords"

text \<open>The counter advances with every occurrence, not with every name.\<close>

fun minify :: "(string \<times> string) list \<Rightarrow> nat \<Rightarrow> string list \<Rightarrow> string list" where
  "minify renames counter [] = []"
| "minify renames counter (t # ts) =
     (if renamed t then
        (let renames' = (if t \<in> set (keys renames) then renames
                         else renames @ [(t, CHR ''_'' # renderBase 36 counter)])
         in nullish (map_of renames' t) [] # minify renames' (counter + 1) ts)
      else t # minify renames counter ts)"

definition buildFile :: "(bytes \<Rightarrow> bytes) \<Rightarrow> SrcFile \<Rightarrow> BuildResult" where
  "buildFile sha f =
     (let live = liveTokens (srcTokens (sfSource f)); out = concat (minify [] 0 live) in
      \<lparr>brId = sfId f, brName = sfName f, brInputBytes = length (sfSource f), brOutputBytes = length out,
       brCyclomatic = cyclomatic live, brHash = toHex (take 8 (sha (encodeUtf8 out)))\<rparr>)"

section \<open>What the steps do\<close>

lemma concat_tokens: "concat (srcTokens s) = s"
  by (induction s rule: srcTokens.induct) simp_all

text \<open>No token starts with two slashes: a slash is a separator, so every comment stays.\<close>

lemma comments_stay: "liveTokens (srcTokens s) = srcTokens s"
proof -
  have "t \<in> set (srcTokens s) \<Longrightarrow> \<not> startsWith ''//'' t" for t
  proof (induction s rule: srcTokens.induct)
    case (2 c s)
    have "isSeparator (CHR ''/'')" by (simp add: isSeparator_def)
    moreover have "\<not> isSpace (CHR ''/'')" by (simp add: isSpace_def)
    ultimately show ?case using 2 by (auto split: if_splits)
  qed simp
  then show ?thesis by (simp add: liveTokens_def)
qed

text \<open>The operators \<open>&&\<close> and \<open>||\<close> are no tokens either, so they do not count as branches.\<close>

lemma operators_not_counted:
  "cyclomatic (srcTokens s) = 1 + length (filter (\<lambda>t. t \<in> set [''if'', ''while'', ''for'', ''case'', ''?'']) (srcTokens s))"
proof -
  have "t \<in> set (srcTokens s) \<Longrightarrow> t \<noteq> ''&&'' \<and> t \<noteq> ''||''" for t
  proof (induction s rule: srcTokens.induct)
    case (2 c s)
    have "isSeparator (CHR ''&'')" "isSeparator (CHR ''|'')" by (simp_all add: isSeparator_def)
    moreover have "\<not> isSpace (CHR ''&'')" "\<not> isSpace (CHR ''|'')" by (simp_all add: isSpace_def)
    ultimately show ?case using 2 by (auto split: if_splits)
  qed simp
  then have "filter (\<lambda>t. t \<in> set branchKeywords) (srcTokens s) =
      filter (\<lambda>t. t \<in> set [''if'', ''while'', ''for'', ''case'', ''?'']) (srcTokens s)"
    by (intro filter_cong) (auto simp: branchKeywords_def)
  then show ?thesis by (simp add: cyclomatic_def)
qed

section \<open>Renaming\<close>

fun renameTable :: "(string \<times> string) list \<Rightarrow> nat \<Rightarrow> string list \<Rightarrow> (string \<times> string) list" where
  "renameTable renames counter [] = renames"
| "renameTable renames counter (t # ts) =
     (if renamed t then
        renameTable (if t \<in> set (keys renames) then renames
                     else renames @ [(t, CHR ''_'' # renderBase 36 counter)]) (counter + 1) ts
      else renameTable renames counter ts)"

definition freshNames :: "(string \<times> string) list \<Rightarrow> nat \<Rightarrow> bool" where
  "freshNames renames counter \<longleftrightarrow> distinct (map snd renames) \<and>
     set (map snd renames) \<subseteq> (\<lambda>j. CHR ''_'' # renderBase 36 j) ` {..<counter}"

lemma renameTable_keeps: "map_of renames t = Some v \<Longrightarrow> map_of (renameTable renames counter ts) t = Some v"
  by (induction renames counter ts rule: renameTable.induct) auto

lemma freshNames_add:
  assumes "freshNames renames counter"
  shows "freshNames (renames @ [(t, CHR ''_'' # renderBase 36 counter)]) (Suc counter)"
proof -
  have "CHR ''_'' # renderBase 36 counter \<notin> set (map snd renames)"
    using assms by (auto simp: freshNames_def renderBase_inject)
  then show ?thesis using assms by (auto simp: freshNames_def less_Suc_eq)
qed

lemma freshNames_weaken: "freshNames renames counter \<Longrightarrow> counter \<le> n \<Longrightarrow> freshNames renames n"
  by (force simp: freshNames_def)

lemma renameTable_fresh:
  "freshNames renames counter \<Longrightarrow> freshNames (renameTable renames counter ts) (counter + length ts)"
proof (induction renames counter ts rule: renameTable.induct)
  case (2 renames counter t ts)
  let ?r = "if t \<in> set (keys renames) then renames else renames @ [(t, CHR ''_'' # renderBase 36 counter)]"
  have "freshNames ?r (counter + 1)" using freshNames_add [OF 2(3)] freshNames_weaken [OF 2(3)] by simp
  then show ?case using 2 freshNames_weaken by (auto simp del: set_map)
qed simp

lemma minify_table:
  "minify renames counter ts = map (\<lambda>t. if renamed t then nullish (map_of (renameTable renames counter ts) t) [] else t) ts \<and>
   (\<forall>t \<in> set ts. renamed t \<longrightarrow> t \<in> set (keys (renameTable renames counter ts)))"
proof (induction renames counter ts rule: renameTable.induct)
  case (2 renames counter t ts)
  show ?case
  proof (cases "renamed t")
    case True
    let ?r = "if t \<in> set (keys renames) then renames else renames @ [(t, CHR ''_'' # renderBase 36 counter)]"
    have "t \<in> set (keys ?r)" by auto
    then obtain v where v: "map_of ?r t = Some v" by (metis map_of_eq_None_iff option.exhaust set_map)
    from renameTable_keeps [OF this, of "counter + 1" ts] have "map_of (renameTable ?r (counter + 1) ts) t = Some v" .
    moreover from this have "t \<in> set (keys (renameTable ?r (counter + 1) ts))"
      by (metis map_of_eq_None_iff option.distinct(1) set_map)
    ultimately show ?thesis using 2(1) [OF True] True v by (simp add: Let_def del: set_map)
  qed (use 2 in simp)
qed simp

lemma digits_identPart: "list_all identPart ''0123456789abcdefghijklmnopqrstuvwxyz''"
  by code_simp

lemma length_short_name: "k < 46656 \<Longrightarrow> length (renderBase 36 k) \<le> 3"
  using length_renderBase [of 36 k 2] by simp

text \<open>
  The minifier renames consistently: on a file of at most 46656 tokens its output is the file with
  every token replaced by a renaming that is injective on the tokens of the file and moves only short
  identifiers, so no identifier is captured; no token is dropped, comments included.
\<close>

theorem build_renames_consistently:
  assumes "length (srcTokens (sfSource f)) \<le> 46656"
  shows "\<exists>rho. inj_on rho (set (srcTokens (sfSource f))) \<and> list_all (\<lambda>t. renamed t \<or> rho t = t) (srcTokens (sfSource f)) \<and>
     minify [] 0 (liveTokens (srcTokens (sfSource f))) = map rho (srcTokens (sfSource f)) \<and>
     brOutputBytes (buildFile sha f) = length (concat (map rho (srcTokens (sfSource f))))"
proof -
  let ?ts = "srcTokens (sfSource f)" let ?table = "renameTable [] 0 ?ts"
  let ?rho = "\<lambda>t. if renamed t then nullish (map_of ?table t) [] else t"
  have fresh: "freshNames ?table (length ?ts)"
    using renameTable_fresh [of "[]" 0 ?ts] by (simp add: freshNames_def)
  note M = minify_table [of "[]" 0 ?ts]
  have name: "\<exists>v. map_of ?table t = Some v \<and> (t, v) \<in> set ?table \<and> (\<exists>j<46656. v = CHR ''_'' # renderBase 36 j)"
    if "t \<in> set ?ts" "renamed t" for t
  proof -
    have "t \<in> fst ` set ?table" using M that by auto
    then obtain v where v: "map_of ?table t = Some v" by (cases "map_of ?table t") (auto simp: map_of_eq_None_iff)
    then have "(t, v) \<in> set ?table" by (rule map_of_SomeD)
    from this have "v \<in> set (map snd ?table)" by force
    then have "v \<in> (\<lambda>j. CHR ''_'' # renderBase 36 j) ` {..<length ?ts}" using fresh unfolding freshNames_def by blast
    then obtain j where "j < length ?ts" and j: "v = CHR ''_'' # renderBase 36 j" by blast
    then have "j < 46656" using assms by simp
    with j v \<open>(t, v) \<in> set ?table\<close> show ?thesis by blast
  qed
  have kept: "renamed (CHR ''_'' # renderBase 36 j)" if "j < 46656" for j
  proof -
    have "list_all identPart (renderBase 36 j)"
      using set_renderBase [of 36 j] digits36 digits_identPart by (auto simp: list_all_iff)
    then show ?thesis
      using length_short_name [OF that] by (simp add: renamed_def identStart_def reservedWords_def)
  qed
  have "inj_on ?rho (set ?ts)"
  proof (rule inj_onI)
    fix t u assume t: "t \<in> set ?ts" and u: "u \<in> set ?ts" and eq: "?rho t = ?rho u"
    show "t = u"
    proof (cases "renamed t \<and> renamed u")
      case True
      obtain v where v: "map_of ?table t = Some v" "(t, v) \<in> set ?table" using name [OF t] True by blast
      obtain w where w: "map_of ?table u = Some w" "(u, w) \<in> set ?table" using name [OF u] True by blast
      have "v = w" using eq True v w by simp
      moreover have "inj_on snd (set ?table)" using fresh by (simp add: freshNames_def distinct_map)
      ultimately show ?thesis using inj_onD [of snd "set ?table" "(t, v)" "(u, w)"] v(2) w(2) by simp
    next
      case False
      then show ?thesis using eq name [OF t] name [OF u] kept by (auto split: if_splits)
    qed
  qed
  moreover have "minify [] 0 (liveTokens ?ts) = map ?rho ?ts" using M by (simp add: comments_stay)
  ultimately show ?thesis
    by (intro exI [of _ ?rho]) (simp add: list_all_iff buildFile_def Let_def comments_stay)
qed

lemma build_renames_consistently_witness:
  "\<exists>rho. minify [] 0 (liveTokens (srcTokens ''let i = i + tmp; // x'')) = map rho (srcTokens ''let i = i + tmp; // x'') \<and>
     minify [] 0 (liveTokens (srcTokens ''let i = i + tmp; // x'')) =
       [''let'', '' '', ''_0'', '' '', ''='', '' '', ''_0'', '' '', ''+'', '' '', ''_2'', '';'', '' '', ''/'', ''/'', '' '', ''_3'']"
proof -
  let ?f = "\<lparr>sfId = 0, sfName = ''m'', sfSource = ''let i = i + tmp; // x''\<rparr>"
  have "length (srcTokens (sfSource ?f)) = 17" by code_simp
  moreover have "minify [] 0 (liveTokens (srcTokens ''let i = i + tmp; // x'')) =
       [''let'', '' '', ''_0'', '' '', ''='', '' '', ''_0'', '' '', ''+'', '' '', ''_2'', '';'', '' '', ''/'', ''/'', '' '', ''_3'']"
    by code_simp
  moreover have "length (srcTokens (sfSource ?f)) \<le> 46656 \<Longrightarrow>
      \<exists>rho. minify [] 0 (liveTokens (srcTokens (sfSource ?f))) = map rho (srcTokens (sfSource ?f))"
    using build_renames_consistently [of ?f] by blast
  ultimately show ?thesis by simp
qed

end
