(* ===== verification/ExampleTsp.thy ===== *)
theory ExampleTsp
  imports Prelude "HOL-Library.Multiset"
begin

text \<open>
  The genetic algorithm (\<open>examples/genetic-algorithm/src/index.ts\<close>): the random tours, the local search
  that one isolate runs on one tour, and the generations with crossover and mutation. A tour is a list of
  city numbers, \<open>-1\<close> marks a free place of a child. The generator computes in double precision, which is
  written out on integers; distances are floating-point numbers and stay abstract: \<open>gap\<close> is the distance of
  two cities, \<open>add\<close> the sum, and \<open>shorter after before\<close> the test \<open>after < before - 1e-9\<close>.
\<close>

section \<open>The generator\<close>

text \<open>How many low bits of a number a double has no room for, and the nearest double, ties to even.\<close>

fun excessBits :: "nat \<Rightarrow> nat" where
  "excessBits n = (if n < 9007199254740992 then 0 else Suc (excessBits (n div 2)))"

declare excessBits.simps [simp del]

definition roundDouble :: "nat \<Rightarrow> nat" where
  "roundDouble n =
     (let e = excessBits n; q = n div 2 ^ e; r = n mod 2 ^ e in
      (if 2 * r > 2 ^ e \<or> (2 * r = 2 ^ e \<and> odd q) then q + 1 else q) * 2 ^ e)"

definition toDouble :: "int \<Rightarrow> int" where
  "toDouble x = (if x < 0 then - int (roundDouble (nat (- x))) else int (roundDouble (nat x)))"

text \<open>\<open>s = (s * 1103515245 + 12345) | 0\<close>; the value of a call is \<open>s >>> 0\<close>.\<close>

definition lcg :: "32 word \<Rightarrow> 32 word" where
  "lcg s = word_of_int (toDouble (toDouble (sint s * 1103515245) + 12345))"

section \<open>Tours\<close>

definition swapAt :: "nat \<Rightarrow> nat \<Rightarrow> 'a list \<Rightarrow> 'a list" where
  "swapAt i j xs = xs[i := xs ! j, j := xs ! i]"

fun shuffleLoop :: "nat list \<Rightarrow> 32 word \<Rightarrow> int list \<Rightarrow> int list" where
  "shuffleLoop [] s tour = tour"
| "shuffleLoop (i # is) s tour = shuffleLoop is (lcg s) (swapAt i (unat (lcg s) mod (i + 1)) tour)"

definition randomTour :: "nat \<Rightarrow> int \<Rightarrow> int list" where
  "randomTour n seed = shuffleLoop (rev [1..<n]) (word_of_int seed) (map int [0..<n])"

definition tourLen :: "(int \<Rightarrow> int \<Rightarrow> 'd) \<Rightarrow> ('d \<Rightarrow> 'd \<Rightarrow> 'd) \<Rightarrow> 'd \<Rightarrow> int list \<Rightarrow> 'd" where
  "tourLen gap add zero t = foldl (\<lambda>total i. add total (gap (t ! i) (t ! ((i + 1) mod length t)))) zero [0..<length t]"

text \<open>One look at a pair of edges; \<open>improved\<close> is the flag of the pass.\<close>

definition twoOptMove :: "(int \<Rightarrow> int \<Rightarrow> 'd) \<Rightarrow> ('d \<Rightarrow> 'd \<Rightarrow> 'd) \<Rightarrow> ('d \<Rightarrow> 'd \<Rightarrow> bool) \<Rightarrow>
    nat \<Rightarrow> nat \<Rightarrow> int list \<times> bool \<Rightarrow> int list \<times> bool" where
  "twoOptMove gap add shorter i j st =
     (let tour = fst st; a = tour ! (i - 1); b = tour ! i; c = tour ! j; d = tour ! (j + 1);
          before = add (gap a b) (gap c d); after = add (gap a c) (gap b d)
      in if shorter after before
         then (take i tour @ rev (drop i (take (j + 1) tour)) @ drop (j + 1) tour, True)
         else st)"

definition twoOptPass :: "(int \<Rightarrow> int \<Rightarrow> 'd) \<Rightarrow> ('d \<Rightarrow> 'd \<Rightarrow> 'd) \<Rightarrow> ('d \<Rightarrow> 'd \<Rightarrow> bool) \<Rightarrow> int list \<Rightarrow> int list \<times> bool" where
  "twoOptPass gap add shorter tour =
     fold (\<lambda>i. fold (\<lambda>j. twoOptMove gap add shorter i j) [i + 1..<length tour - 1]) [1..<length tour - 2] (tour, False)"

fun twoOpt :: "nat \<Rightarrow> (int \<Rightarrow> int \<Rightarrow> 'd) \<Rightarrow> ('d \<Rightarrow> 'd \<Rightarrow> 'd) \<Rightarrow> ('d \<Rightarrow> 'd \<Rightarrow> bool) \<Rightarrow> int list \<Rightarrow> int list" where
  "twoOpt 0 gap add shorter tour = tour"
| "twoOpt (Suc passes) gap add shorter tour =
     (case twoOptPass gap add shorter tour of
        (tour', improved) \<Rightarrow> if improved then twoOpt passes gap add shorter tour' else tour')"

text \<open>What the isolate returns for a tour.\<close>

definition evaluateTour :: "(int \<Rightarrow> int \<Rightarrow> 'd) \<Rightarrow> ('d \<Rightarrow> 'd \<Rightarrow> 'd) \<Rightarrow> 'd \<Rightarrow> ('d \<Rightarrow> 'd \<Rightarrow> bool) \<Rightarrow> int list \<Rightarrow> int list \<times> 'd" where
  "evaluateTour gap add zero shorter tour =
     (let t = twoOpt 2 gap add shorter tour in (t, tourLen gap add zero t))"

section \<open>Generations\<close>

definition copySegment :: "int list \<Rightarrow> nat \<Rightarrow> nat \<Rightarrow> int list" where
  "copySegment p1 a b = map (\<lambda>i. if a \<le> i \<and> i \<le> b then p1 ! i else -1) [0..<length p1]"

fun crossLoop :: "int list \<Rightarrow> nat \<Rightarrow> nat list \<Rightarrow> nat \<Rightarrow> int list \<Rightarrow> int list" where
  "crossLoop p2 b [] ci child = child"
| "crossLoop p2 b (i # is) ci child =
     (let len = length child; g = p2 ! ((b + 1 + i) mod len) in
      if g \<in> set child then crossLoop p2 b is ci child
      else crossLoop p2 b is ((ci + 1) mod len) (child[ci := g]))"

definition crossover :: "int list \<Rightarrow> int list \<Rightarrow> nat \<Rightarrow> nat \<Rightarrow> int list" where
  "crossover p1 p2 a b = crossLoop p2 b [0..<length p1] ((b + 1) mod length p1) (copySegment p1 a b)"

text \<open>One child, and the generator after it.\<close>

definition breedOne :: "int list list \<Rightarrow> 32 word \<Rightarrow> int list \<times> 32 word" where
  "breedOne elite s0 =
     (let s1 = lcg s0; s2 = lcg s1; s3 = lcg s2; s4 = lcg s3; s5 = lcg s4;
          p1 = elite ! (unat s1 mod length elite); p2 = elite ! (unat s2 mod length elite);
          len = length p1; a = unat s3 mod len; b = a + unat s4 mod (len - a);
          child = crossover p1 p2 a b
      in if unat s5 mod 100 < 8
         then (let s6 = lcg s5; s7 = lcg s6 in (swapAt (unat s6 mod len) (unat s7 mod len) child, s7))
         else (child, s5))"

fun breed :: "nat \<Rightarrow> int list list \<Rightarrow> 32 word \<Rightarrow> int list list" where
  "breed 0 elite s = []"
| "breed (Suc k) elite s = (case breedOne elite s of (child, s') \<Rightarrow> child # breed k elite s')"

text \<open>
  One generation on the evaluated population: the next population and the best distance; \<open>elite[0]\<close> of an
  empty elite throws (\<open>None\<close>).
\<close>

definition nextGeneration :: "nat \<Rightarrow> nat \<Rightarrow> (int list \<times> 'd::linorder) list \<Rightarrow> (int list list \<times> 'd) option" where
  "nextGeneration popSize gen evaluated =
     (let elite = take (max 2 (popSize div 2)) (sort_key snd evaluated);
          offspring = breed (popSize - length elite) (map fst elite) (word_of_int (int gen + 17))
      in case elite of [] \<Rightarrow> None | best # _ \<Rightarrow> Some (map fst elite @ offspring, snd best))"

text \<open>\<open>evaluate\<close> is what the fan-out of a generation resolves to.\<close>

fun evolve :: "nat \<Rightarrow> (int list \<Rightarrow> int list \<times> 'd::linorder) \<Rightarrow> nat list \<Rightarrow> int list list \<Rightarrow> 'd list \<Rightarrow>
    (int list list \<times> 'd list) option" where
  "evolve popSize evaluate [] population history = Some (population, history)"
| "evolve popSize evaluate (gen # gens) population history =
     (case nextGeneration popSize gen (map evaluate population) of
        None \<Rightarrow> None
      | Some (population', best) \<Rightarrow> evolve popSize evaluate gens population' (history @ [best]))"

text \<open>The answer of the handler: the best distance of the last generation, \<open>None\<close> if it throws.\<close>

definition initialPopulation :: "nat \<Rightarrow> nat \<Rightarrow> int list list" where
  "initialPopulation cities popSize = map (\<lambda>i. randomTour cities (int i + 1)) [0..<popSize]"

definition bestDistance :: "nat \<Rightarrow> nat \<Rightarrow> nat \<Rightarrow> (int list \<Rightarrow> int list \<times> 'd::linorder) \<Rightarrow> 'd option" where
  "bestDistance generations popSize cities evaluate =
     (case evolve popSize evaluate [0..<generations] (initialPopulation cities popSize) [] of
        None \<Rightarrow> None
      | Some (population, history) \<Rightarrow> if history = [] then None else Some (last history))"

section \<open>Tours stay permutations\<close>

definition isTour :: "nat \<Rightarrow> int list \<Rightarrow> bool" where
  "isTour n t \<longleftrightarrow> mset t = mset (map int [0..<n])"

lemma isTour_iff: "isTour n t \<longleftrightarrow> distinct t \<and> set t = int ` {0..<n}"
proof
  assume "isTour n t"
  then have m: "mset t = mset (map int [0..<n])" by (simp add: isTour_def)
  have "distinct (map int [0..<n])" by (simp add: distinct_map)
  then have "distinct t" using m by (metis mset_eq_imp_distinct_iff)
  moreover have "set t = set (map int [0..<n])" using m by (rule mset_eq_setD)
  ultimately show "distinct t \<and> set t = int ` {0..<n}" by simp
next
  assume "distinct t \<and> set t = int ` {0..<n}"
  then show "isTour n t"
    unfolding isTour_def by (subst set_eq_iff_mset_eq_distinct [symmetric]) (auto simp: distinct_map)
qed

lemma isTour_length: "isTour n t \<Longrightarrow> length t = n"
  by (metis isTour_def length_map length_upt minus_nat.diff_0 size_mset)

lemma mset_swapAt: "i < length xs \<Longrightarrow> j < length xs \<Longrightarrow> mset (swapAt i j xs) = mset xs"
  unfolding swapAt_def by (rule mset_swap)

lemma length_swapAt [simp]: "length (swapAt i j xs) = length xs"
  by (simp add: swapAt_def)

lemma mset_shuffleLoop: "list_all (\<lambda>i. i < length t) is \<Longrightarrow> mset (shuffleLoop is s t) = mset t"
proof (induction "is" s t rule: shuffleLoop.induct)
  case (2 i "is" s t)
  have "unat (lcg s) mod (i + 1) < i + 1" by (rule mod_less_divisor) simp
  also have "i + 1 \<le> length t" using 2(2) by simp
  finally have "unat (lcg s) mod (i + 1) < length t" .
  then show ?case using 2 mset_swapAt [of i t] by simp
qed simp

lemma randomTour_tour: "isTour n (randomTour n seed)"
  unfolding isTour_def randomTour_def by (rule mset_shuffleLoop) (simp add: list_all_iff)

lemma mset_twoOptMove: "i \<le> j \<Longrightarrow> j < length (fst st) \<Longrightarrow> mset (fst (twoOptMove gap add shorter i j st)) = mset (fst st)"
proof -
  assume ij: "i \<le> j" "j < length (fst st)"
  have "mset (take i t @ rev (drop i (take (j + 1) t)) @ drop (j + 1) t) = mset t" for t :: "int list"
  proof -
    have "take i t @ drop i (take (j + 1) t) = take (j + 1) t"
      using ij(1) by (metis append_take_drop_id le_Suc_eq Suc_eq_plus1 min.absorb1 take_take)
    then have "mset (take i t) + mset (drop i (take (j + 1) t)) = mset (take (j + 1) t)" by (metis mset_append)
    then show ?thesis by (metis append_take_drop_id mset_append mset_rev union_assoc)
  qed
  then show ?thesis by (simp add: twoOptMove_def Let_def)
qed

lemma mset_twoOptPass: "mset (fst (twoOptPass gap add shorter tour)) = mset tour"
proof -
  have inner: "mset (fst (fold (\<lambda>j. twoOptMove gap add shorter i j) js st)) = mset tour"
    if "mset (fst st) = mset tour" "list_all (\<lambda>j. i \<le> j \<and> j < length tour) js" for i js st
    using that
  proof (induction js arbitrary: st)
    case (Cons j js)
    have "length (fst st) = length tour" using Cons.prems(1) by (metis size_mset)
    then show ?case using Cons mset_twoOptMove [of i j st gap add shorter] by simp
  qed simp
  have "mset (fst (fold (\<lambda>i. fold (\<lambda>j. twoOptMove gap add shorter i j) [i + 1..<length tour - 1]) is st)) = mset tour"
    if "mset (fst st) = mset tour" for "is" st
    using that
  proof (induction "is" arbitrary: st)
    case (Cons i "is")
    have "list_all (\<lambda>j. i \<le> j \<and> j < length tour) [i + 1..<length tour - 1]" by (auto simp: list_all_iff)
    from inner [OF Cons.prems this] show ?case using Cons.IH by simp
  qed simp
  then show ?thesis by (simp add: twoOptPass_def)
qed

lemma mset_twoOpt: "mset (twoOpt passes gap add shorter tour) = mset tour"
proof (induction passes arbitrary: tour)
  case (Suc k)
  then show ?case using mset_twoOptPass [of gap add shorter tour] by (auto split: prod.split)
qed simp

lemma evaluateTour_tour: "isTour n t \<Longrightarrow> isTour n (fst (evaluateTour gap add zero shorter t))"
  by (simp add: evaluateTour_def isTour_def mset_twoOpt Let_def)

section \<open>Crossover\<close>

declare rotate_Suc [simp del]

lemma rotate_update:
  assumes "i < length xs"
  shows "rotate m (xs[(m + i) mod length xs := v]) = (rotate m xs)[i := v]"
proof (rule nth_equalityI)
  fix k assume "k < length (rotate m (xs[(m + i) mod length xs := v]))"
  then have k: "k < length xs" by simp
  let ?r = "rotate m [0..<length xs]"
  have "?r ! k = ?r ! i \<longleftrightarrow> k = i" using k assms by (simp add: nth_eq_iff_index_eq del: nth_upt)
  moreover have "(m + i) mod length xs < length xs" using k by (intro mod_less_divisor) linarith
  ultimately show "rotate m (xs[(m + i) mod length xs := v]) ! k = (rotate m xs)[i := v] ! k"
    using k assms by (auto simp: nth_rotate nth_list_update)
qed simp

text \<open>
  The places after the segment, in cyclic order, are filled with the genes of the second parent that the
  segment lacks, in their order.
\<close>

lemma crossLoop_fills:
  assumes "rotate (b + 1) child = F @ replicate m (-1) @ seg" "ci = (b + 1 + length F) mod length child"
    and "distinct (map (\<lambda>i. p2 ! ((b + 1 + i) mod length child)) is)"
    and "\<forall>g \<in> (\<lambda>i. p2 ! ((b + 1 + i) mod length child)) ` set is. g \<noteq> -1 \<and> g \<notin> set F"
    and "length (filter (\<lambda>g. g \<notin> set seg) (map (\<lambda>i. p2 ! ((b + 1 + i) mod length child)) is)) \<le> m"
  shows "\<exists>rest. rest = filter (\<lambda>g. g \<notin> set seg) (map (\<lambda>i. p2 ! ((b + 1 + i) mod length child)) is) \<and>
     rotate (b + 1) (crossLoop p2 b is ci child) = F @ rest @ replicate (m - length rest) (-1) @ seg"
  using assms
proof (induction "is" arbitrary: child F m ci)
  case (Cons i "is")
  let ?n = "length child" let ?g = "p2 ! ((b + 1 + i) mod ?n)"
  have "set child = set F \<union> set (replicate m (-1)) \<union> set seg"
    using Cons.prems(1) by (metis set_append set_rotate sup_assoc)
  then have mem: "?g \<in> set child \<longleftrightarrow> ?g \<in> set seg" using Cons.prems(4) by auto
  show ?case
  proof (cases "?g \<in> set seg")
    case True
    then show ?thesis using Cons.IH [OF Cons.prems(1,2)] Cons.prems mem by (simp add: Let_def)
  next
    case False
    then obtain k where m: "m = Suc k" using Cons.prems(5) by (cases m) auto
    have "?n = length F + m + length seg"
      using arg_cong [OF Cons.prems(1), of length] by simp
    then have F: "length F < ?n" using m by simp
    let ?child = "child[ci := ?g]"
    have "rotate (b + 1) ?child = (rotate (b + 1) child)[length F := ?g]"
      unfolding Cons.prems(2) by (rule rotate_update [OF F])
    also have "\<dots> = (F @ [?g]) @ replicate k (-1) @ seg"
      unfolding Cons.prems(1) m by (simp add: list_update_append)
    finally have 1: "rotate (b + 1) ?child = (F @ [?g]) @ replicate k (-1) @ seg" .
    have 2: "(ci + 1) mod ?n = (b + 1 + length (F @ [?g])) mod length ?child"
      using Cons.prems(2) by (simp add: mod_Suc_eq)
    have "\<exists>rest. rest = filter (\<lambda>g. g \<notin> set seg) (map (\<lambda>i. p2 ! ((b + 1 + i) mod length ?child)) is) \<and>
        rotate (b + 1) (crossLoop p2 b is ((ci + 1) mod ?n) ?child) = (F @ [?g]) @ rest @ replicate (k - length rest) (-1) @ seg"
      using Cons.prems(3-5) False m by (intro Cons.IH [OF 1 2]) (auto, metis imageI)
    then show ?thesis using False mem by (auto simp: Let_def m)
  qed
qed simp

lemma copySegment_rotated:
  assumes "a \<le> b" "b < length p1"
  shows "rotate (b + 1) (copySegment p1 a b) = replicate (length p1 - (b + 1 - a)) (-1) @ drop a (take (b + 1) p1)"
proof -
  let ?seg = "drop a (take (b + 1) p1)"
  have "copySegment p1 a b = (replicate a (-1) @ ?seg) @ replicate (length p1 - (b + 1)) (-1)"
  proof (rule nth_equalityI)
    fix i assume "i < length (copySegment p1 a b)"
    then show "copySegment p1 a b ! i = ((replicate a (-1) @ ?seg) @ replicate (length p1 - (b + 1)) (-1)) ! i"
      using assms by (auto simp: copySegment_def nth_append)
  qed (use assms in \<open>simp add: copySegment_def\<close>)
  moreover have "length (replicate a (-1) @ ?seg) = b + 1" using assms by simp
  ultimately have "rotate (b + 1) (copySegment p1 a b) = replicate (length p1 - (b + 1)) (-1) @ replicate a (-1) @ ?seg"
    by (metis rotate_append)
  moreover have "length p1 - (b + 1 - a) = (length p1 - (b + 1)) + a" using assms by simp
  ultimately show ?thesis by (simp add: replicate_add)
qed

lemma crossover_tour:
  assumes p1: "isTour n p1" and p2: "isTour n p2" and "a \<le> b" "b < n"
  shows "isTour n (crossover p1 p2 a b)"
proof -
  let ?seg = "drop a (take (b + 1) p1)" let ?c0 = "copySegment p1 a b"
  let ?gs = "map (\<lambda>i. p2 ! ((b + 1 + i) mod n)) [0..<n]"
  have len: "length p1 = n" "length p2 = n" using p1 p2 by (simp_all add: isTour_length)
  have c0: "length ?c0 = n" using len by (simp add: copySegment_def)
  have gs: "?gs = rotate (b + 1) p2" using len by (intro nth_equalityI) (simp_all add: nth_rotate)
  have dgs: "distinct ?gs" "set ?gs = int ` {0..<n}" unfolding gs using p2 by (simp_all add: isTour_iff)
  have dseg: "distinct ?seg" "set ?seg \<subseteq> int ` {0..<n}" "length ?seg = b + 1 - a"
    using p1 len assms(3,4) set_drop_subset [of a "take (b + 1) p1"] set_take_subset [of "b + 1" p1]
    by (auto simp: isTour_iff)
  define rest where "rest = filter (\<lambda>g. g \<notin> set ?seg) ?gs"
  have drest: "distinct rest" "set rest = int ` {0..<n} - set ?seg"
    using dgs unfolding rest_def by (auto simp del: set_map)
  have "length rest = card (int ` {0..<n} - set ?seg)" using drest by (metis distinct_card)
  also have "\<dots> = n - length ?seg"
    using dseg distinct_card [OF dseg(1)] by (subst card_Diff_subset) (auto simp: card_image)
  finally have lrest: "length rest = n - (b + 1 - a)" using dseg(3) by simp
  have neg: "\<forall>g \<in> (\<lambda>i. p2 ! ((b + 1 + i) mod n)) ` set [0..<n]. g \<noteq> -1" using dgs(2) by auto
  have 1: "rotate (b + 1) ?c0 = [] @ replicate (n - (b + 1 - a)) (-1) @ ?seg"
    using copySegment_rotated [of a b p1] assms(3,4) len by simp
  have "rotate (b + 1) (crossLoop p2 b [0..<n] ((b + 1) mod n) ?c0) =
      [] @ rest @ replicate (n - (b + 1 - a) - length rest) (-1) @ ?seg"
    using crossLoop_fills [OF 1, of "(b + 1) mod n" p2 "[0..<n]"] neg lrest dgs(1) unfolding c0 rest_def by auto
  then have r: "rotate (b + 1) (crossover p1 p2 a b) = rest @ ?seg" using lrest len by (simp add: crossover_def)
  have "distinct (rotate (b + 1) (crossover p1 p2 a b))" "set (rotate (b + 1) (crossover p1 p2 a b)) = int ` {0..<n}"
    unfolding r using drest dseg by auto
  then show ?thesis by (simp add: isTour_iff)
qed

section \<open>Generations keep tours\<close>

lemma breedOne_tour:
  assumes "list_all (isTour n) elite" "elite \<noteq> []"
  shows "isTour n (fst (breedOne elite s0))"
proof -
  have el: "isTour n (elite ! (unat x mod length elite))" for x :: "32 word"
    using assms by (auto simp: list_all_length)
  let ?p1 = "elite ! (unat (lcg s0) mod length elite)" let ?p2 = "elite ! (unat (lcg (lcg s0)) mod length elite)"
  have len: "length ?p1 = n" using el by (rule isTour_length)
  show ?thesis
  proof (cases "n = 0")
    case True
    then have "?p1 = []" using len by simp
    then show ?thesis using True
      by (simp add: breedOne_def Let_def crossover_def copySegment_def swapAt_def isTour_def)
  next
    case False
    let ?a = "unat (lcg (lcg (lcg s0))) mod n"
    let ?b = "?a + unat (lcg (lcg (lcg (lcg s0)))) mod (n - ?a)"
    have a: "?a < n" using False by simp
    then have "unat (lcg (lcg (lcg (lcg s0)))) mod (n - ?a) < n - ?a" by (intro mod_less_divisor) simp
    then have b: "?a \<le> ?b" "?b < n" by simp_all
    have child: "isTour n (crossover ?p1 ?p2 ?a ?b)" by (rule crossover_tour [OF el el b])
    then have "isTour n (swapAt (unat x mod n) (unat y mod n) (crossover ?p1 ?p2 ?a ?b))" for x y :: "32 word"
      using isTour_length [OF child] False by (simp add: isTour_def mset_swapAt)
    with child show ?thesis by (simp add: breedOne_def Let_def len)
  qed
qed

lemma breed_tours:
  assumes "list_all (isTour n) elite" "elite \<noteq> []"
  shows "list_all (isTour n) (breed k elite s) \<and> length (breed k elite s) = k"
proof (induction k arbitrary: s)
  case (Suc k)
  then show ?case using breedOne_tour [OF assms, of s] by (cases "breedOne elite s") simp
qed simp

lemma nextGeneration_tours:
  assumes "list_all (\<lambda>e. isTour n (fst e)) evaluated" "length evaluated = popSize" "0 < popSize"
  shows "\<exists>pop best. nextGeneration popSize gen evaluated = Some (pop, best) \<and> list_all (isTour n) pop \<and> length pop = popSize"
proof -
  let ?elite = "take (max 2 (popSize div 2)) (sort_key snd evaluated)"
  have "?elite \<noteq> []" using assms(2,3) by (auto simp flip: length_0_conv)
  then obtain best es where e: "?elite = best # es" by (cases ?elite) auto
  have "set ?elite \<subseteq> set evaluated" using set_take_subset [of _ "sort_key snd evaluated"] by simp
  then have t: "list_all (isTour n) (map fst ?elite)" using assms(1) by (auto simp: list_all_iff)
  have "length ?elite \<le> popSize" using assms(2) by simp
  with breed_tours [OF t] e t show ?thesis
    by (simp add: nextGeneration_def Let_def)
qed

lemma evolve_tours:
  assumes "\<And>t. isTour n t \<Longrightarrow> isTour n (fst (evaluate t))" "0 < popSize"
    and "list_all (isTour n) population" "length population = popSize"
  shows "\<exists>pop hist. evolve popSize evaluate gens population history = Some (pop, hist) \<and>
     list_all (isTour n) pop \<and> length pop = popSize \<and> length hist = length history + length gens"
  using assms(3,4)
proof (induction gens arbitrary: population history)
  case (Cons gen gens)
  have "list_all (\<lambda>e. isTour n (fst e)) (map evaluate population)"
    using Cons.prems(1) assms(1) by (simp add: list_all_iff)
  from nextGeneration_tours [OF this _ assms(2), of gen] obtain pop best where
    "nextGeneration popSize gen (map evaluate population) = Some (pop, best)" "list_all (isTour n) pop" "length pop = popSize"
    using Cons.prems(2) by auto
  then show ?case using Cons.IH [of pop "history @ [best]"] by simp
qed simp

text \<open>
  C39. Every tour stays a tour: for every number of cities and generations, every population size but zero
  and every distance, random start, local search, crossover and mutation leave each member of the
  population a permutation of the cities, the size of the population is kept, and every generation reports
  a best distance.
\<close>

theorem ga_tours_permute:
  assumes "0 < popSize"
  shows "\<exists>pop hist. evolve popSize (evaluateTour gap add zero shorter) gens (initialPopulation cities popSize) [] = Some (pop, hist) \<and>
     list_all (\<lambda>t. distinct t \<and> set t = int ` {0..<cities}) pop \<and> length pop = popSize \<and> length hist = length gens"
proof -
  have "list_all (isTour cities) (initialPopulation cities popSize)" "length (initialPopulation cities popSize) = popSize"
    by (simp_all add: initialPopulation_def list_all_iff randomTour_tour)
  with evolve_tours [of cities "evaluateTour gap add zero shorter", OF evaluateTour_tour assms] show ?thesis
    by (fastforce simp: isTour_iff list_all_iff)
qed

lemma ga_tours_permute_witness:
  "\<exists>pop hist. evolve 3 (evaluateTour (\<lambda>a b. \<bar>a - b\<bar>) (+) 0 (<)) [0, 1] (initialPopulation 4 3) [] = Some (pop, hist) \<and>
     length pop = 3 \<and> length hist = 2"
  using ga_tours_permute [of 3 "\<lambda>a b. \<bar>a - b\<bar>" "(+)" "0 :: int" "(<)" "[0, 1]" 4] by auto

text \<open>Without a population or without a generation the handler throws a \<open>TypeError\<close>.\<close>

lemma ga_answers: "bestDistance g p c (evaluateTour gap add zero shorter) \<noteq> None \<longleftrightarrow> 0 < g \<and> 0 < p"
proof (cases "0 < p")
  case True
  have "list_all (isTour c) (initialPopulation c p)" "length (initialPopulation c p) = p"
    by (simp_all add: initialPopulation_def list_all_iff randomTour_tour)
  from evolve_tours [of c "evaluateTour gap add zero shorter", OF evaluateTour_tour True this, of "[0..<g]" "[]"]
  show ?thesis using True by (auto simp: bestDistance_def)
next
  case False
  then show ?thesis
    by (cases g) (simp_all add: bestDistance_def initialPopulation_def upt_conv_Cons nextGeneration_def del: upt_Suc)
qed

text \<open>
  The generator is no exact linear congruence: beyond \<open>2 ^ 53\<close> the sum has no room for its lowest bit, and
  the value of the call is even, whatever the parity the congruence would have.
\<close>

lemma roundDouble_even: "9007199254740992 \<le> n \<Longrightarrow> even (roundDouble n)"
  by (simp add: roundDouble_def Let_def excessBits.simps [of n])

lemma toDouble_even: "9007199254740992 \<le> \<bar>x\<bar> \<Longrightarrow> even (toDouble x)"
  using roundDouble_even [of "nat x"] roundDouble_even [of "nat (- x)"] by (cases "x < 0") (simp_all add: toDouble_def)

lemma lcg_loses_parity:
  assumes "9007199254740992 \<le> \<bar>toDouble (sint s * 1103515245) + 12345\<bar>"
  shows "even (unat (lcg s))"
proof -
  have mod: "even y \<Longrightarrow> even (y mod 4294967296)" for y :: int by presburger
  let ?x = "toDouble (toDouble (sint s * 1103515245) + 12345)"
  have "even ?x" using assms by (rule toDouble_even)
  moreover have "uint (word_of_int k :: 32 word) = k mod 4294967296" for k by (simp add: uint_word_of_int)
  then have "uint (lcg s) = ?x mod 4294967296" by (simp only: lcg_def)
  ultimately have "even (uint (lcg s))" using mod by simp
  then show ?thesis by (simp only: unat_eq_nat_uint even_nat_iff uint_ge_0)
qed

lemma lcg_loses_parity_witness:
  "odd (uint (word_of_int (2147483646 * 1103515245 + 12345) :: 32 word)) \<and> even (unat (lcg 2147483646))"
proof -
  have "sint (2147483646 :: 32 word) = 2147483646" by simp
  moreover have "toDouble (2147483646 * 1103515245) = 2369780941749183488"
    by (simp add: toDouble_def roundDouble_def excessBits.simps Let_def)
  ultimately have "9007199254740992 \<le> \<bar>toDouble (sint (2147483646 :: 32 word) * 1103515245) + 12345\<bar>" by simp
  then show ?thesis using lcg_loses_parity by (simp add: uint_word_of_int)
qed

end
