(* ===== verification/ExampleEmbed.thy ===== *)
theory ExampleEmbed
  imports SerializeFn "HOL-Library.Multiset"
begin

text \<open>
  The embeddings example (\<open>examples/embeddings-batch/src/index.ts\<close>): the text of a document, its words hashed
  into a vector of weights, and the most similar documents. The weights are eighths of integers and exact
  in double precision. The mixing passes and the normalisation round; they are the parameter \<open>refine\<close>, and
  the dot product of two vectors is the parameter \<open>dot\<close>.
\<close>

section \<open>Texts\<close>

definition embTags :: "string list" where
  "embTags = [''cloudflare'', ''workers'', ''durable-objects'', ''rpc'', ''isolates'', ''parallel'', ''edge'']"

definition embVerbs :: "string list" where
  "embVerbs = [''scales'', ''composes'', ''fans-out'', ''parallelizes'', ''runs'', ''dispatches'', ''executes'']"

definition embNouns :: "string list" where
  "embNouns = [''compute'', ''work'', ''tasks'', ''jobs'', ''requests'', ''isolates'', ''tenants'']"

definition corpusDoc :: "nat \<Rightarrow> string" where
  "corpusDoc i =
     join '' '' [''Document '' @ showNat i @ '': '' @ embTags ! (i mod 7) @ '' '' @ embVerbs ! (i mod 7) @ '' '' @ embNouns ! (i mod 7) @ ''.'',
       ''Sub-topic '' @ showNat (i mod 13) @ '': feature-hashed corpus entry. '' @ embTags ! (i * 7 mod 7) @ ''.'',
       ''Filler '' @ replicate (i * 17 mod 64) (CHR ''x'') @ ''.'']"

text \<open>\<open>split(/\s+/)\<close>: a run of white space separates, also at the ends.\<close>

function splitSpaces :: "string \<Rightarrow> string list" where
  "splitSpaces s =
     (case dropWhile (\<lambda>c. \<not> isSpace c) s of
        [] \<Rightarrow> [s]
      | _ # rest \<Rightarrow> takeWhile (\<lambda>c. \<not> isSpace c) s # splitSpaces (dropWhile isSpace rest))"
  by pat_completeness auto
termination
proof (relation "measure length")
  fix s rest :: string and c
  assume "dropWhile (\<lambda>c. \<not> isSpace c) s = c # rest"
  then have "length (c # rest) \<le> length s" by (metis length_dropWhile_le)
  then show "(dropWhile isSpace rest, s) \<in> measure length"
    using length_dropWhile_le [of isSpace rest] by simp
qed simp

declare splitSpaces.simps [simp del]

section \<open>Vectors\<close>

definition wordHash :: "string \<Rightarrow> 32 word" where
  "wordHash tok = foldl (\<lambda>h c. push_bit 5 h + h + word_of_nat (of_char c)) 5381 tok"

definition wordSlot :: "string \<Rightarrow> nat" where
  "wordSlot tok = unat (wordHash tok) mod 256"

definition addWord :: "rat list \<Rightarrow> string \<Rightarrow> rat list" where
  "addWord vec tok = vec[wordSlot tok := vec ! wordSlot tok + (1 + of_nat (length tok) / 8)]"

definition embedText :: "string \<Rightarrow> rat list" where
  "embedText text = foldl addWord (replicate 256 0) (splitSpaces (toLowerCase text))"

definition embedDoc :: "(rat list \<Rightarrow> 'v) \<Rightarrow> nat \<Rightarrow> nat \<times> 'v" where
  "embedDoc refine i = (i, refine (embedText (corpusDoc i)))"

definition embedQuery :: "(rat list \<Rightarrow> 'v) \<Rightarrow> string \<Rightarrow> 'v" where
  "embedQuery refine q = refine (embedText q)"

section \<open>The most similar documents\<close>

definition scoreDocs :: "('v \<Rightarrow> 'v \<Rightarrow> rat) \<Rightarrow> 'v \<Rightarrow> (nat \<times> 'v) list \<Rightarrow> (nat \<times> rat) list" where
  "scoreDocs dot queryVec vectors = map (\<lambda>(i, vec). (i, dot vec queryVec)) vectors"

definition topK :: "('v \<Rightarrow> 'v \<Rightarrow> rat) \<Rightarrow> nat \<Rightarrow> 'v \<Rightarrow> (nat \<times> 'v) list \<Rightarrow> (nat \<times> rat) list" where
  "topK dot k queryVec vectors = take k (sort_key (\<lambda>s. - snd s) (scoreDocs dot queryVec vectors))"

definition searchDocs :: "(rat list \<Rightarrow> 'v) \<Rightarrow> ('v \<Rightarrow> 'v \<Rightarrow> rat) \<Rightarrow> nat \<Rightarrow> nat \<Rightarrow> string \<Rightarrow> (nat \<times> rat \<times> string) list" where
  "searchDocs refine dot n k query =
     map (\<lambda>(i, s). (i, s, take 100 (corpusDoc i)))
       (topK dot k (embedQuery refine query) (map (embedDoc refine) [0..<n]))"

section \<open>What is computed\<close>

lemma wordSlot_less: "wordSlot tok < 256"
  by (simp add: wordSlot_def)

lemma length_embedText [simp]: "length (embedText text) = 256"
proof -
  have "length (foldl addWord v ts) = length v" for v ts
    by (induction ts arbitrary: v) (simp_all add: addWord_def)
  then show ?thesis by (simp add: embedText_def)
qed

lemma sum_list_add_at: "k < length v \<Longrightarrow> sum_list (v[k := v ! k + w]) = sum_list v + w" for v :: "rat list"
proof (induction v arbitrary: k)
  case (Cons x v)
  then show ?case by (cases k) simp_all
qed simp

text \<open>Every word adds its weight to the vector, and nothing else does.\<close>

lemma embedText_weight:
  "sum_list (embedText text) = sum_list (map (\<lambda>tok. 1 + of_nat (length tok) / 8) (splitSpaces (toLowerCase text)))"
proof -
  have step: "sum_list (addWord v tok) = sum_list v + (1 + of_nat (length tok) / 8)" if "length v = 256" for v tok
    using that wordSlot_less [of tok] by (simp add: addWord_def sum_list_add_at)
  have "sum_list (foldl addWord v ts) = sum_list v + sum_list (map (\<lambda>tok. 1 + of_nat (length tok) / 8) ts)"
    if "length v = 256" for v ts
    using that
  proof (induction ts arbitrary: v)
    case (Cons t ts)
    have "length (addWord v t) = 256" using Cons.prems by (simp add: addWord_def)
    from Cons.IH [OF this] show ?case using step [OF Cons.prems, of t] by simp
  qed simp
  from this [of "replicate 256 0"] show ?thesis by (simp add: embedText_def sum_list_replicate)
qed

text \<open>
  The answer holds the best \<open>k\<close> documents in order: at most \<open>k\<close> of them, by descending similarity, and no
  document that is left out is more similar than one that is listed.
\<close>

lemma topK_best:
  fixes dot :: "'v \<Rightarrow> 'v \<Rightarrow> rat"
  shows "length (topK dot k q vs) = min k (length vs) \<and> sorted (map (\<lambda>s. - snd s) (topK dot k q vs)) \<and>
     (\<exists>left. mset (scoreDocs dot q vs) = mset (topK dot k q vs) + mset left \<and>
       list_all (\<lambda>s. list_all (\<lambda>t. snd t \<le> snd s) left) (topK dot k q vs))"
proof -
  let ?s = "sort_key (\<lambda>s. - snd s) (scoreDocs dot q vs)"
  have "sorted (map (\<lambda>s. - snd s) ?s)" by simp
  then have s: "sorted (map (\<lambda>s. - snd s) (take k ?s) @ map (\<lambda>s. - snd s) (drop k ?s))"
    by (metis append_take_drop_id map_append)
  have "mset (scoreDocs dot q vs) = mset (take k ?s) + mset (drop k ?s)"
    by (metis append_take_drop_id mset_append mset_sort)
  moreover have "list_all (\<lambda>s. list_all (\<lambda>t. snd t \<le> snd s) (drop k ?s)) (take k ?s)"
    using s by (force simp: sorted_append list_all_iff)
  ultimately show ?thesis using s
    by (auto simp: topK_def sorted_append scoreDocs_def min.commute)
qed

end
