(* ===== verification/ExampleApps.thy ===== *)
theory ExampleApps
  imports SubmitCode SchedulerClient
begin

text \<open>
  The two service examples, put together from the components: the endpoint for submitted code
  (\<open>examples/vm/src/index.ts\<close>) and the job scheduler behind HTTP routes
  (\<open>examples/scheduler/src/index.ts\<close>).
\<close>

section \<open>The endpoint for submitted code\<close>

definition exampleVmOptions :: "(Request \<Rightarrow> thrown + bool) \<Rightarrow> bool \<Rightarrow> string option \<Rightarrow> VMOptions" where
  "exampleVmOptions auth inProcess colo =
     \<lparr>vmSelf = \<lparr>poClient = \<lparr>coBindings = None, coContext = None, coTimeout = Some 5000, coRetries = Some 1,
                          coRetryDelay = None, coGlobalOutbound = OutNull, coLimits = None,
                          coCacheKeyStrategy = None, coWorkerOptions = None, coTailBindingName = None\<rparr>,
               poSelector = \<lparr>soTopology = None, soMaxFanOut = None, soBranchingFactor = None, soTreeThreshold = None\<rparr>,
               poCoordinatorId = None, poInProcess = inProcess, poLocationHint = None, poRequestColo = colo,
               poAutoWarm = None\<rparr>,
      vmPolicy = Some \<lparr>pcAuth = Some auth, pcOnSubmit = None, pcAllowBindings = Some [], pcMaxBytes = Some (64 * 1024),
                       pcMaxFnSourceBytes = None\<rparr>,
      vmAuth = None, vmAllowBindings = None, vmMaxBytes = None, vmPoolOptions = None\<rparr>"

text \<open>The handler of a request; \<open>bearerAuth\<close> and the constructors may throw.\<close>

definition exampleVm :: "HttpPlatform \<Rightarrow> (bytes \<Rightarrow> bytes \<Rightarrow> bool) option \<Rightarrow> string \<Rightarrow> bool \<Rightarrow> string option \<Rightarrow>
    (rval \<Rightarrow> thrown + Response) \<Rightarrow> Request \<Rightarrow> Gate list \<times> (thrown + Response)" where
  "exampleVm hp native vmToken inProcess colo format req =
     (case bearerAuth native vmToken of
        Inl msg \<Rightarrow> ([], Inl (PlainError ''Error'' msg None))
      | Inr auth \<Rightarrow>
          (case vm (hpEnv hp) False format (exampleVmOptions (\<lambda>r. Inr (auth r)) inProcess colo) of
             Inl e \<Rightarrow> ([], Inl (Lib e))
           | Inr (handler, warned) \<Rightarrow> handleSubmission hp handler req))"

section \<open>The scheduler\<close>

record EnqueueBody =
  ebTenant :: string
  ebN :: int
  ebIdemKey :: "string option"

datatype Route = EnqueueRoute EnqueueBody | ResultRoute "string option" | StatsRoute | CancelTenantRoute string | OtherRoute

datatype SchedulerReply = JobReply string | ResultReply JobResult | StatsReply SchedulerStats | CancelledReply nat
  | MissingIdReply | FailureReply string | UsageReply | Rejected thrown

definition exampleSchedulerOptions :: SchedulerOptions where
  "exampleSchedulerOptions =
     \<lparr>soId = ''demo-jobs'', soStore = None, soHasFairness = False, soHasAlarmCadence = False,
      soShared = \<lparr>coBindings = None, coContext = None, coTimeout = None, coRetries = None, coRetryDelay = None,
                  coGlobalOutbound = OutAbsent, coLimits = None, coCacheKeyStrategy = None, coWorkerOptions = None,
                  coTailBindingName = None\<rparr>,
      soContext = None, soRetry = Some \<lparr>rpMax = 3, rpBackoff = Exponential, rpBaseMs = 200\<rparr>,
      soDefaultDeadlineMs = Some 60000, soRetentionTtlMs = Some 3600000, soInFlightLimit = None,
      soMaxQueueDepth = None, soFairCapacityPerTenant = None, soLocationHint = None, soRequestColo = None\<rparr>"

definition exampleJob :: "callee \<Rightarrow> EnqueueBody \<Rightarrow> Job" where
  "exampleJob fn body =
     \<lparr>jbFn = fn, jbArgs = [JNum (ebN body)], jbTenantId = Some (ebTenant body), jbDeadlineMs = Some 30000,
      jbDeadline = None, jbRetry = None, jbIdempotencyKey = ebIdemKey body, jbMeta = None\<rparr>"

text \<open>
  A request builds a new handle. \<open>net0\<close> and \<open>net\<close> are what the RPCs throw, \<open>fn\<close> is the function of the
  job, \<open>rnd\<close> the suffix of its id; \<open>result\<close> calls the object without a handle and catches what it throws.
\<close>

definition exampleScheduler :: "SchedulerEnv \<Rightarrow> callee \<Rightarrow> thrown option \<Rightarrow> thrown option \<Rightarrow> string \<Rightarrow> int \<Rightarrow> string \<Rightarrow>
    Route \<Rightarrow> Scheduler \<Rightarrow> SchedulerReply \<times> Scheduler" where
  "exampleScheduler env fn net0 net owner now rnd route s =
     (case newSchedulerHandle env exampleSchedulerOptions of
        Inl e \<Rightarrow> (Rejected (Lib e), s)
      | Inr h \<Rightarrow>
          (case route of
             EnqueueRoute body \<Rightarrow>
               (case clientEnqueue net0 net owner now rnd (exampleJob fn body) (h, s) of
                  (Inl e, h', s') \<Rightarrow> (Rejected e, s')
                | (Inr (jh, ev), h', s') \<Rightarrow> (JobReply (hdId jh), s'))
           | ResultRoute i \<Rightarrow>
               if nullish i [] = [] then (MissingIdReply, s)
               else (case net of
                  Some e \<Rightarrow> (FailureReply (thrownMessage e), s)
                | None \<Rightarrow> (ResultReply (dsResult now (nullish i []) (sStore (scSys s))), s))
           | StatsRoute \<Rightarrow>
               (case clientStats net0 net now (h, s) of
                  (Inl e, h', s') \<Rightarrow> (Rejected e, s')
                | (Inr st, h', s') \<Rightarrow> (StatsReply st, s'))
           | CancelTenantRoute tenant \<Rightarrow>
               (case clientCancelByTenant net now tenant (Some ''admin requested'') (h, s) of
                  (Inl e, h', s') \<Rightarrow> (Rejected e, s')
                | (Inr n, h', s') \<Rightarrow> (CancelledReply n, s'))
           | OtherRoute \<Rightarrow> (UsageReply, s)))"

section \<open>What they guarantee\<close>

text \<open>
  The endpoint composes its parts safely: code runs only for a POST that carries the token of the
  deployment, which has at least 16 characters, with a body and a source of at most 64 KiB, on a pool
  without bindings and without network.
\<close>

lemma vm_example_guarded:
  assumes "nativeOk native" "exampleVm hp native vmToken inProcess colo format req = (gates, r)"
  shows "if Ran p src \<in> set gates
     then rqMethod req = ''POST'' \<and> header req ''authorization'' = Some (''Bearer '' @ vmToken) \<and> 16 \<le> length vmToken \<and>
       length (concat (nullish (rqBody req) [])) \<le> 65536 \<and> length src \<le> 65536 \<and>
       coBindings (poClient (plOpts p)) = Some [] \<and> coGlobalOutbound (poClient (plOpts p)) = OutNull
     else True"
proof (cases "Ran p src \<in> set gates")
  case True
  then obtain auth where auth: "bearerAuth native vmToken = Inr auth"
    using assms(2) by (cases "bearerAuth native vmToken") (auto simp: exampleVm_def)
  let ?opts = "exampleVmOptions (\<lambda>r. Inr (auth r)) inProcess colo"
  obtain handler warned where h: "vm (hpEnv hp) False format ?opts = Inr (handler, warned)"
    "handleSubmission hp handler req = (gates, r)"
    using assms(2) auth True by (auto simp: exampleVm_def split: sum.splits)
  then obtain pool where pool: "newPool (hpEnv hp) (vmSelf ?opts) = Inr pool"
    and handler: "handler = \<lparr>scPool = pool, scPolicy = the (vmPolicy ?opts), scParse = None, scFormat = format\<rparr>"
    by (auto simp: vm_def vmPolicyOf_def exampleVmOptions_def submitCodeHandler_def)
  have opts: "plOpts pool = vmSelf ?opts" using pool by (auto simp: newPool_def Let_def split: if_splits option.splits)
  note G = gates_passed [OF h(2), of p src]
  have "auth = (\<lambda>req. header req ''authorization'' = Some (''Bearer '' @ vmToken))" "16 \<le> length vmToken"
    using bearer_exact [OF assms(1), of vmToken] by (simp_all add: auth)
  moreover have R: "restrictForSubmittedCode (hpEnv hp) pool [] = Inr p" "rqMethod req = ''POST''" "auth req"
    "int (length (concat (nullish (rqBody req) []))) \<le> 65536" "int (length src) \<le> 65536"
    using G True by (simp_all add: handler exampleVmOptions_def maxBytesOf_def maxFnSrcOf_def DEFAULT_MAX_BYTES_def)
  moreover have "coBindings (poClient (plOpts p)) = Some [] \<and> coGlobalOutbound (poClient (plOpts p)) = OutNull"
    using restrict_fields [OF R(1)]
    by (simp add: opts exampleVmOptions_def restrictedOptions_def pickBindings_def hasExplicitGlobalOutbound_def)
  ultimately show ?thesis by simp
qed simp

text \<open>
  A client that repeats its \<open>idemKey\<close> is answered with the id of no job: asking for the result of that id
  is answered as for a job that never was, whatever becomes of the first one.
\<close>

lemma scheduler_example_repeated_key:
  assumes "exampleScheduler env fn n0 n owner now rnd (EnqueueRoute body) s = (JobReply i, s')"
    and "ebIdemKey body = Some key" "key \<noteq> []"
    and "list_ex (\<lambda>q. cIdempotencyKey q = Some key) (dsRows (sStore (scSys s)))"
    and "i \<notin> cId ` set (dsRows (sStore (scSys s)))" and "i \<noteq> []"
  shows "exampleScheduler env fn n0 None owner now' rnd' (ResultRoute (Some i)) s' =
    (ResultReply \<lparr>jrStatus = Failed, jrValue = None,
       jrError = Some \<lparr>frName = ''NotFoundError'', frMessage = ''Job '' @ i @ '' not found (or result expired)'',
                       frStack = None, frOriginalName = None\<rparr>\<rparr>, s')"
proof -
  obtain h where h: "newSchedulerHandle env exampleSchedulerOptions = Inr h"
    using assms(1) by (auto simp: exampleScheduler_def split: sum.splits)
  obtain jh ev h' where c: "clientEnqueue n0 n owner now rnd (exampleJob fn body) (h, s) = (Inr (jh, ev), h', s')" "hdId jh = i"
    using assms(1) h by (auto simp: exampleScheduler_def split: sum.splits prod.splits)
  have o': "shOpts h = exampleSchedulerOptions" using h by (auto simp: newSchedulerHandle_def split: if_splits)
  have "hdTtlMs jh = Some 3600000"
    using c by (auto simp: clientEnqueue_def afterConfig_def ensureInitialConfig_def o' exampleSchedulerOptions_def Let_def
        split: option.splits sum.splits prod.splits)
  then have "now \<le> giveUpAfter now (hdDeadline jh) (hdTtlMs jh)" by (simp add: giveUpAfter_def Let_def)
  then have "map cId (dsRows (sStore (scSys s'))) = map cId (dsRows (sStore (scSys s)))"
    using repeated_key_handle [OF c(1), of key now] assms(2-5) c(2) by (simp add: exampleJob_def)
  then have "i \<notin> cId ` set (dsRows (sStore (scSys s')))" using assms(5) by (metis image_set)
  then have "rowById i (dsRows (sStore (scSys s'))) = None" by (auto simp: rowById_None)
  then show ?thesis using h assms(6) by (simp add: exampleScheduler_def dsResult_def sqlResult_def)
qed

end
