(* ===== verification/Spec2Isabelle.thy ===== *)
theory Spec2Isabelle
  imports PoolClient CancelHooks FakeScheduler JobLife
    ExampleRaytracer ExampleBuild ExampleTsp ExampleEmbed ExampleApps
begin

text \<open>
  A verification development for cloudflare-parallel, a library that runs user functions in loaded
  isolates behind Durable Objects. All paths below are under \<open>src/src\<close>,
  those of the example programs under \<open>src/examples\<close>.

  The program and its parts:

  A caller builds a pool, an actor handle, a scheduler handle or a loader-only pool. A call turns options
  and a serialized function into a request with an envelope and dispatches it with timeout, deadline,
  cancel and retries. A single task runs on the coordinator object (or in process); a fan-out is planned
  by size into in-DO, hybrid or tree and sent down through sub-coordinators to leaf objects, each of which
  loads an isolate per task. Errors are classified at the leaf, cross the wire as records and are decoded
  at the caller. The scheduler keeps jobs in a store, and a dispatcher with fair queueing runs them.
  Submitted code enters over HTTP through a chain of gates.

  The theories, from the bottom:

  \<^item> \<open>Prelude\<close>: vocabulary shared by all (nullish values, number texts, dictionaries, slices).

  \<^item> \<open>Errors\<close>, \<open>ErrorWire\<close>, \<open>ErrorMarshal\<close>: \<open>errors/index.ts\<close>, \<open>transport/error-marshal.ts\<close>,
    \<open>api/error-decode.ts\<close>. The classes are one datatype; a thrown value is a library error, another error or
    no error at all; the stack that the engine records in an error is a parameter. Lemmas: exactly which errors
    survive the wire, idempotence of the classification, what is retryable.

  \<^item> \<open>Topology\<close>: \<open>topology/plan.ts\<close>, \<open>topology/selector.ts\<close>. Plans cover the request and respect their caps.

  \<^item> \<open>Json\<close>, \<open>JobStore\<close>, \<open>JobsTable\<close>, \<open>DoStorage\<close>, \<open>D1Store\<close>, \<open>QueuesStore\<close>: \<open>scheduler/job-store.ts\<close> and
    \<open>scheduler/stores\<close>. A table is a list of rows and every SQL statement an operation on it. The interface is
    the locale \<open>job_store\<close>, interpreted on all three adapters; leases, acknowledgements and finished jobs
    are proved once in it. An acknowledgement answers or, on D1 for an undefined result, throws.
    \<open>TableTypes\<close>: which columns a row has in which status, kept by every statement.

  \<^item> \<open>Dispatcher\<close>, \<open>DispatchLoop\<close>, \<open>SchedulerDO\<close>: \<open>scheduler/dispatcher.ts\<close>, \<open>scheduler/scheduler-do.ts\<close>,
    \<open>api/scheduler.ts\<close>. The synchronous core with its round robin, then the loop cut at its awaits as a step
    relation with the limits on concurrency as invariants, then the object around it. The events are the
    resumptions of the loop, settling runs, timers, rebuilds and \<open>configure\<close>; the limits hold for the largest
    settings that have been in force. \<open>SchedulerClient\<close>: the
    handle on the side of the caller, from the options to the request, the long-poll and the run of the job,
    which is shown to be the run that was asked for. \<open>JobLife\<close>: the three stores side by side, the event log
    against the table, and the delivery of a result in every interleaving of store calls and polls.

  \<^item> \<open>Serialize\<close>, \<open>Semaphore\<close>, \<open>Cancel\<close>, \<open>Sandbox\<close>, \<open>Loader\<close>: \<open>loader\<close>, \<open>transport/cancel-stream.ts\<close>,
    \<open>api/cancel.ts\<close>, \<open>api/bindings.ts\<close>. Cache keys on 32-bit words, canonical contexts, the budget of permits as a
    refinement of a bag, cancellation on a graph of tokens, the binding filter, the generated module line by
    line, and one dispatch of a task. \<open>SerializeFn\<close>: the text of a function, with the regular expressions of
    the bundler shims as backtracking matchers, and the brand of \<open>api/primitives.ts\<close>. \<open>IsolateReuse\<close>: what a
    loader that keeps isolates under their keys makes of the options of a run. \<open>CancelHooks\<close>: the listeners
    of tokens and adapted signals as a step relation, with the invariant that each is served once.

  \<^item> \<open>Transport\<close>: \<open>transport/deadline-prop.ts\<close>, \<open>transport/rpc-client.ts\<close>. Races and retries over explicit
    times; a dispatch with a timeout settles within a stated bound.

  \<^item> \<open>LeafDO\<close>, \<open>Coordinator\<close>, \<open>Tiers\<close>, \<open>RunMany\<close>, \<open>Placement\<close>: \<open>coordinator\<close>. Every operation answers with
    a value and the log of the RPCs, the runs and the \<open>noop\<close>s of the prewarm passes that it caused. \<open>Tiers\<close>
    states what a retried RPC contributes as the locale \<open>dispatch_contract\<close> (on top of \<open>slice_relation\<close>) and
    proves it for all tiers; it is interpreted for the origin of results and for a calm platform, and
    \<open>slice_relation\<close> alone for the runs of each task and the number of RPCs. \<open>RunMany\<close> combines this with the
    selector: results, equivalence of topologies, errors, bounds. \<open>Placement\<close>: the prewarm sets and stub
    caches of an instance, which tell which \<open>noop\<close>s a pass sends.

  \<^item> \<open>ClientOptions\<close>, \<open>FanOut\<close>, \<open>Combinators\<close>, \<open>Pool\<close>, \<open>LoaderOnly\<close>: \<open>api/options.ts\<close>, \<open>api/context-merge.ts\<close>,
    \<open>api/submit-options.ts\<close>, \<open>api/fan-out.ts\<close>, \<open>api/pool.ts\<close>, \<open>api/loader-only-pool.ts\<close>. The worker pool and
    the streaming map, which a rejection ends, are step relations over completions; \<open>reduce\<close> is the
    fold it stands for; the counters and the drain barrier are an invariant of the pool. \<open>PoolClient\<close>: the public methods as transitions of the whole
    object; \<open>map_end_to_end\<close> composes them with \<open>RunMany\<close>. \<open>Observability\<close>: \<open>observability/index.ts\<close> and the
    events of a submit, counted against the counters of the pool.

  \<^item> \<open>Actor\<close>: \<open>api/actor.ts\<close> and the actor methods of \<open>coordinator/coordinator.ts\<close>, cut at the await of the
    runner. \<open>Auth\<close>: \<open>api/auth.ts\<close>. \<open>SubmitCode\<close>: \<open>api/submit-code-handler.ts\<close>, \<open>api/vm.ts\<close>.

  \<^item> \<open>Fakes\<close>, \<open>FakeScheduler\<close>: \<open>api/testing.ts\<close>. The test doubles, compared with what they stand for: their
    runner agrees with the loader, their \<open>reduce\<close> with that of the pool; where they differ is a lemma.

  \<^item> \<open>ExampleRaytracer\<close>, \<open>ExampleBuild\<close>, \<open>ExampleTsp\<close>, \<open>ExampleEmbed\<close>, \<open>ExampleApps\<close>: the programs under
    \<open>examples/raytracer\<close>, \<open>examples/build-pipeline\<close>, \<open>examples/genetic-algorithm\<close>,
    \<open>examples/embeddings-batch\<close>, \<open>examples/vm\<close> and \<open>examples/scheduler\<close>. The work they send to the pool and what
    they do with the answers: the tiles and the image, the tokenizer and the renaming of the minifier, the
    islands with their generator on 32-bit words, the corpus and the ranking, and the two small servers on top
    of \<open>SubmitCode\<close> and \<open>SchedulerClient\<close>. Lemmas: the image put together from any order of tiles is the
    sequential one, the renaming is one function and leaves the rest alone, every tour stays a permutation of the cities.

  Parameters and bounds:

  \<^item> The platform (delivery of RPCs, the Worker Loader, clocks, storage of queues and D1, the HMAC, and the
    children that an instance has prewarmed before) is an argument of the definitions that use it. \<open>Math.log\<close> in the selector is
    an argument too; \<open>logAccurate\<close> says that its rounded quotient is the exact ceiling, and a function with that property is given.

  \<^item> No definition needs fuel except the batch loop of \<open>scatter\<close>, a \<open>partial_function\<close> whose value \<open>None\<close> is
    not returning, and the recursion of the sub-coordinators, which descends on the depth of the request as the
    code does. Retry loops count down their attempts.

  \<^item> Numbers that the program treats as integers are \<open>int\<close> or \<open>nat\<close>; the djb2 hash and the XOR loop of the
    comparison are on 32-bit words. Strings are code units below 256.

  \<^item> A function is the text that \<open>toString\<close> gives; the Worker Loader is a parameter, which \<open>IsolateReuse\<close>
    assumes to return what it loaded under a key. The matchers of \<open>SerializeFn\<close> terminate on the length of
    what is left to match.

  \<^item> In the examples the colour of a pixel, the lengths of tours and the order on them, the mixing passes and the
    dot product of vectors and the SHA-256 of a bundle are arguments: they are rounding floating-point code or
    the platform's. Word weights of a text are multiples of an eighth, exact in a double, and rational here.

  Not modelled: factories and re-exports (\<open>api/parallel.ts\<close>, \<open>index.ts\<close>,
  \<open>durable-objects.ts\<close>), which only call the constructors; timing, garbage collection and the CPU limits of
  isolates, which are the platform's; the source parser of the test doubles (\<open>new Function\<close>, a parameter);
  the demo (\<open>src/demo\<close>), a page of DOM handlers with the worker that feeds it, and its bundle; the floating-point shading of the ray tracer,
  the map of cities and the rounded timing figures of the answers of the examples.
\<close>

end
